(* ===== verification/Prelude.thy ===== *)
theory Prelude
  imports Main "HOL-Library.Multiset"
begin

text \<open>
  Shared material: results of fallible Go functions, run-time panics, runs of event handlers and
  the invariants they keep, and small list lemmas that several components use.
\<close>

section \<open>Results and panics\<close>

text \<open>
  A Go function with results \<open>(T, error)\<close> is modelled with the type \<open>err + T\<close>: \<open>Inl\<close> is the
  early return with an error. \<open>res_bind\<close> is the sequence "call, return on error, go on".
\<close>

fun res_bind :: "'e + 'a \<Rightarrow> ('a \<Rightarrow> 'e + 'b) \<Rightarrow> 'e + 'b" where
  "res_bind (Inl e) f = Inl e"
| "res_bind (Inr a) f = f a"

lemma res_bind_Inr_iff: "res_bind r f = Inr b \<longleftrightarrow> (\<exists>a. r = Inr a \<and> f a = Inr b)"
  by (cases r) auto

lemma res_bind_Inl_iff:
  "res_bind r f = Inl e \<longleftrightarrow> r = Inl e \<or> (\<exists>a. r = Inr a \<and> f a = Inl e)"
  by (cases r) auto

lemma res_bind_assoc: "res_bind (res_bind r f) g = res_bind r (\<lambda>a. res_bind (f a) g)"
  by (cases r) auto

definition is_ok :: "'e + 'a \<Rightarrow> bool" where
  "is_ok r = (case r of Inl _ \<Rightarrow> False | Inr _ \<Rightarrow> True)"

lemma is_ok_simps [simp]: "is_ok (Inl e) = False" "is_ok (Inr a) = True"
  by (simp_all add: is_ok_def)

text \<open>The run-time panics that the modelled code can raise.\<close>

datatype go_panic =
    PanicSliceBounds    \<comment> \<open>slice bounds out of range\<close>
  | PanicIndex          \<comment> \<open>index out of range\<close>
  | PanicDivide         \<comment> \<open>integer divide by zero\<close>
  | PanicIntn           \<comment> \<open>rand.Intn with an argument that is not positive\<close>
  | PanicMakeSlice      \<comment> \<open>make with a negative length\<close>

section \<open>Runs of event handlers\<close>

text \<open>
  A component that reacts to events is a step function \<open>step e s\<close>; a history is a list of events
  and its run is \<open>fold step es s\<close>. Every component's invariant proof has this shape, so the lift
  from one step to a run is proved once.
\<close>

locale step_invariant =
  fixes step :: "'e \<Rightarrow> 's \<Rightarrow> 's"
    and good :: "'s \<Rightarrow> bool"
  assumes step_good: "good s \<Longrightarrow> good (step e s)"
begin

lemma run_good: "good s \<Longrightarrow> good (fold step es s)"
  by (induction es arbitrary: s) (auto intro: step_good)

lemma run_good_every_prefix: "good s \<Longrightarrow> good (fold step (take n es) s)"
  by (rule run_good)

end

text \<open>
  A bounded form: each event raises a counter by at most one, and the step keeps the invariant
  while the counter is below a bound (a 64-bit counter that must not wrap).
\<close>

locale counted_invariant =
  fixes step :: "'e \<Rightarrow> 's \<Rightarrow> 's"
    and good :: "'s \<Rightarrow> bool"
    and ticks :: "'s \<Rightarrow> int"
    and bound :: int
  assumes counted_good: "good s \<Longrightarrow> ticks s < bound \<Longrightarrow> good (step e s)"
    and counted_ticks: "good s \<Longrightarrow> ticks s < bound \<Longrightarrow> ticks (step e s) \<le> ticks s + 1"
begin

lemma counted_run:
  "good s \<Longrightarrow> ticks s + int (length es) \<le> bound \<Longrightarrow>
     good (fold step es s) \<and> ticks (fold step es s) \<le> ticks s + int (length es)"
proof (induction es arbitrary: s)
  case Nil
  then show ?case by simp
next
  case (Cons e es)
  have below: "ticks s < bound"
    using Cons.prems(2) by simp
  have "good (step e s)" "ticks (step e s) \<le> ticks s + 1"
    using Cons.prems(1) below by (auto intro: counted_good counted_ticks)
  then show ?case
    using Cons.IH [of "step e s"] Cons.prems(2) by simp
qed

end

section \<open>Collections\<close>

text \<open>
  \<open>wf_simps\<close>: the definitions that decide whether concrete names, records and numbers are well-formed.
  \<open>frame\<close>: what the calls of a component leave as it is.
\<close>

named_theorems wf_simps
named_theorems frame

section \<open>Lists\<close>

lemma fold_invariant_list:
  assumes "P s" and "\<And>x s. x \<in> set xs \<Longrightarrow> P s \<Longrightarrow> P (f x s)"
  shows "P (fold f xs s)"
  using assms by (induction xs arbitrary: s) auto

lemma mset_swap_nth:
  assumes "i < length xs" and "j < length xs"
  shows "mset (xs[i := xs ! j, j := xs ! i]) = mset xs"
  using assms by (metis mset_swap)

lemma nth_update_if: "xs[i := x] ! k = (if i = k \<and> i < length xs then x else xs ! k)"
  by (cases "i = k") (simp_all add: list_update_beyond not_less)

end
