(* ===== verification/GoInt.thy ===== *)
theory GoInt
  imports Prelude "HOL-Library.Word" "HOL-Library.Signed_Division"
begin

text \<open>
  Go's 64-bit integers. \<open>int\<close>, \<open>int64\<close> and \<open>time.Duration\<close> are signed 64-bit numbers on the
  platforms the service runs on; they are modelled by \<open>int\<close>, with \<open>wrap64\<close> written around every
  arithmetic operation of the source that can leave the range. Division truncates towards zero
  (\<open>sdiv\<close> of \<open>HOL-Library.Signed_Division\<close>).
\<close>

definition wrap64 :: "int \<Rightarrow> int" where
  "wrap64 x = (x + 2 ^ 63) mod 2 ^ 64 - 2 ^ 63"

definition in_i64 :: "int \<Rightarrow> bool" where
  "in_i64 x \<longleftrightarrow> - (2 ^ 63) \<le> x \<and> x < 2 ^ 63"

lemma wrap64_id [simp]: "in_i64 x \<Longrightarrow> wrap64 x = x"
  by (simp add: wrap64_def in_i64_def)

lemma wrap64_range [simp]: "in_i64 (wrap64 x)"
proof -
  have "0 \<le> (x + 2 ^ 63) mod 2 ^ 64" "(x + 2 ^ 63) mod 2 ^ 64 < (2 ^ 64 :: int)"
    by simp_all
  then show ?thesis by (simp add: wrap64_def in_i64_def)
qed

lemma wrap64_idem [simp]: "wrap64 (wrap64 x) = wrap64 x"
  by simp

text \<open>The wrap-around is the two's complement reading of the low 64 bits.\<close>

lemma wrap64_word: "wrap64 x = sint (word_of_int x :: 64 word)"
  by (simp add: wrap64_def signed_of_int signed_take_bit_eq_take_bit_shift take_bit_eq_mod)

lemma wrap64_add_left [simp]: "wrap64 (wrap64 x + y) = wrap64 (x + y)"
proof -
  have "((x + 2 ^ 63) mod 2 ^ 64 + y) mod 2 ^ 64 = (x + 2 ^ 63 + y) mod (2 ^ 64 :: int)"
    by (rule mod_add_left_eq)
  then show ?thesis by (simp add: wrap64_def algebra_simps)
qed

lemma in_i64_small: "0 \<le> x \<Longrightarrow> x < 2 ^ 63 \<Longrightarrow> in_i64 x"
  by (simp add: in_i64_def)

lemma in_i64_below_pow53: "0 \<le> j \<Longrightarrow> j \<le> k \<Longrightarrow> \<bar>k\<bar> \<le> 2 ^ 53 \<Longrightarrow> in_i64 j"
  by (simp add: in_i64_def)

text \<open>Nanosecond constants of package \<open>time\<close>.\<close>

abbreviation Second :: int where
  "Second \<equiv> 1000000000"

abbreviation Millisecond :: int where
  "Millisecond \<equiv> 1000000"

text \<open>\<open>time.Duration(n) * time.Second\<close> is a 64-bit product.\<close>

definition seconds :: "int \<Rightarrow> int" where
  "seconds n = wrap64 (n * Second)"

lemma seconds_exact: "\<bar>n\<bar> \<le> 9223372036 \<Longrightarrow> seconds n = n * Second"
  unfolding seconds_def by (rule wrap64_id) (auto simp: in_i64_def)

end
