(* ===== verification/Float64.thy ===== *)
theory Float64
  imports Complex_Main GoInt
begin

text \<open>
  Go's \<open>float64\<close>: IEEE 754 binary64 with rounding to nearest, ties to even. A finite value is the
  rational number it denotes; infinities and NaN are values of their own. Every arithmetic
  operation is the exact operation on rationals followed by the rounding \<open>fl\<close>, with overflow to an
  infinity. The two zeros are one value here: the program never divides by a float that can be a
  zero and never prints one. Everything is executable.
\<close>

section \<open>Rounding a rational to 53 bits\<close>

text \<open>Round to the nearest integer, ties to the even one.\<close>

definition rne :: "rat \<Rightarrow> int" where
  "rne y = (let f = \<lfloor>y\<rfloor>; d = y - of_int f
            in if d < 1/2 then f else if 1/2 < d then f + 1 else if even f then f else f + 1)"

text \<open>The number of binary digits of a natural number.\<close>

fun bits :: "nat \<Rightarrow> nat" where
  "bits n = (if n = 0 then 0 else Suc (bits (n div 2)))"

declare bits.simps [simp del]

text \<open>The exponent of the leading binary digit of a positive rational.\<close>

definition binexp :: "rat \<Rightarrow> int" where
  "binexp x = (if 1 \<le> x then int (bits (nat \<lfloor>x\<rfloor>)) - 1
               else - int (bits (nat (\<lceil>1 / x\<rceil> - 1))))"

text \<open>
  The exponent of the last place of a float near \<open>x\<close>: 52 below the leading digit, never below the
  subnormal quantum \<open>2 ^ (-1074)\<close>.
\<close>

definition quantum :: "rat \<Rightarrow> int" where
  "quantum x = max (binexp \<bar>x\<bar> - 52) (- 1074)"

definition fl :: "rat \<Rightarrow> rat" where
  "fl x = (if x = 0 then 0
           else of_int (rne (x / 2 powi quantum x)) * 2 powi quantum x)"

definition representable :: "rat \<Rightarrow> bool" where
  "representable x \<longleftrightarrow> (\<exists>m q. x = of_int m * 2 powi q \<and> \<bar>m\<bar> \<le> 2 ^ 53 \<and> - 1074 \<le> q)"

subsection \<open>Rounding to an integer\<close>

lemma rne_of_int [simp]: "rne (of_int k) = k"
  by (simp add: rne_def)

lemma rne_cases: "rne y = \<lfloor>y\<rfloor> \<or> rne y = \<lfloor>y\<rfloor> + 1"
  by (auto simp: rne_def Let_def)

lemma rne_error: "\<bar>of_int (rne y) - y\<bar> \<le> 1/2"
proof -
  have "of_int \<lfloor>y\<rfloor> \<le> y" "y < of_int \<lfloor>y\<rfloor> + 1"
    by linarith+
  then show ?thesis
    by (auto simp: rne_def Let_def)
qed

lemma rne_mono:
  assumes "x \<le> y"
  shows "rne x \<le> rne y"
proof (cases "\<lfloor>x\<rfloor> = \<lfloor>y\<rfloor>")
  case True
  with assms show ?thesis by (auto simp: rne_def Let_def)
next
  case False
  with assms have "\<lfloor>x\<rfloor> + 1 \<le> \<lfloor>y\<rfloor>"
    using floor_mono [OF assms] by linarith
  with rne_cases [of x] rne_cases [of y] show ?thesis by linarith
qed

lemma rne_minus: "rne (- y) = - rne y"
proof (cases "y \<in> \<int>")
  case True
  then obtain k where "y = of_int k" by (rule Ints_cases)
  then show ?thesis
    by (metis of_int_minus rne_of_int)
next
  case False
  then have ni: "y \<noteq> of_int \<lfloor>y\<rfloor>"
    by (metis Ints_of_int)
  then have fl: "\<lfloor>- y\<rfloor> = - \<lfloor>y\<rfloor> - 1"
    by (simp add: floor_minus ceiling_altdef)
  show ?thesis
    by (auto simp: rne_def Let_def fl field_simps)
qed

lemma rne_le_of_int: "y \<le> of_int k \<Longrightarrow> rne y \<le> k"
  using rne_mono [of y "of_int k"] by simp

lemma of_int_le_rne: "of_int k \<le> y \<Longrightarrow> k \<le> rne y"
  using rne_mono [of "of_int k" y] by simp

subsection \<open>The leading digit\<close>

lemma bits_bounds: "0 < n \<Longrightarrow> 2 ^ (bits n - 1) \<le> n \<and> n < 2 ^ bits n"
proof (induction n rule: bits.induct)
  case (1 n)
  show ?case
  proof (cases "n = 1")
    case True
    then show ?thesis by (simp add: bits.simps)
  next
    case False
    with 1 have pos: "0 < n div 2" by simp
    then have b: "0 < bits (n div 2)" by (simp add: bits.simps)
    have ih: "2 ^ (bits (n div 2) - 1) \<le> n div 2" "n div 2 < 2 ^ bits (n div 2)"
      using 1 pos by simp_all
    have eq: "bits n = Suc (bits (n div 2))"
      using 1 by (subst bits.simps) simp
    have "(2::nat) ^ bits (n div 2) = 2 * 2 ^ (bits (n div 2) - 1)"
      using b by (cases "bits (n div 2)") simp_all
    with ih eq show ?thesis by (simp, linarith)
  qed
qed

lemma bits_upper: "n < 2 ^ bits n"
  using bits_bounds [of n] by (cases "n = 0") (auto simp: bits.simps)

lemma bits_pos: "0 < n \<Longrightarrow> 0 < bits n"
  by (simp add: bits.simps)

lemma two_powi_pos [simp]: "0 < (2::rat) powi k"
  by (rule zero_less_power_int) simp

lemma two_powi_mono: "k \<le> l \<Longrightarrow> (2::rat) powi k \<le> 2 powi l"
  by (rule power_int_increasing) simp_all

lemma two_powi_less_iff: "(2::rat) powi k < 2 powi l \<longleftrightarrow> k < l"
  using two_powi_mono [of l k] power_int_strict_increasing [of k l "2 :: rat"] by (cases "k < l") auto

lemma two_powi_add: "(2::rat) powi (k + l) = 2 powi k * 2 powi l"
  by (simp add: power_int_add)

lemma two_powi_diff: "(2::rat) powi (k - l) = 2 powi k / 2 powi l"
  by (simp add: power_int_diff)

lemma two_powi_of_nat [simp]: "(2::rat) powi int n = 2 ^ n"
  by (simp add: power_int_of_nat)

lemma two_powi_minus_of_nat: "(2::rat) powi (- int n) = 1 / 2 ^ n"
  by (simp add: power_int_minus inverse_eq_divide)

lemma rat_pow_le_of_nat: "2 ^ k \<le> n \<Longrightarrow> (2::rat) ^ k \<le> of_nat n"
  using of_nat_mono [of "2 ^ k" n, where 'a = rat] by simp

lemma rat_of_nat_le_pow: "n + 1 \<le> 2 ^ k \<Longrightarrow> of_nat n + 1 \<le> (2::rat) ^ k"
  using of_nat_mono [of "n + 1" "2 ^ k", where 'a = rat] by (simp add: add.commute)

lemma binexp_bounds:
  assumes "0 < x"
  shows "2 powi binexp x \<le> x \<and> x < 2 powi (binexp x + 1)"
proof (cases "1 \<le> x")
  case True
  define n where "n = nat \<lfloor>x\<rfloor>"
  have n: "0 < n" "of_nat n \<le> x" "x < of_nat n + 1"
    using True by (auto simp: n_def) linarith+
  have bn: "2 ^ (bits n - 1) \<le> n" "n + 1 \<le> 2 ^ bits n"
    using bits_bounds [OF n(1)] by auto
  have "(2::rat) ^ (bits n - 1) \<le> of_nat n" "of_nat n + 1 \<le> (2::rat) ^ bits n"
    using bn by (simp_all only: rat_pow_le_of_nat rat_of_nat_le_pow)
  moreover have "binexp x = int (bits n - 1)" "binexp x + 1 = int (bits n)"
    using True bits_pos [OF n(1)] by (simp_all add: binexp_def n_def of_nat_diff)
  then have "2 powi binexp x = (2::rat) ^ (bits n - 1)" "2 powi (binexp x + 1) = (2::rat) ^ bits n"
    by (simp_all only: two_powi_of_nat)
  ultimately show ?thesis
    using n by linarith
next
  case False
  define y where "y = 1 / x"
  define n where "n = nat (\<lceil>y\<rceil> - 1)"
  have y: "1 < y" "x = 1 / y"
    using False assms by (simp_all add: y_def)
  have c: "of_int \<lceil>y\<rceil> - 1 < y" "y \<le> of_int \<lceil>y\<rceil>" "2 \<le> \<lceil>y\<rceil>"
    using y(1) by linarith+
  have n: "0 < n" "of_nat n < y" "y \<le> of_nat n + 1"
    using c by (simp_all add: n_def)
  have bn: "2 ^ (bits n - 1) \<le> n" "n + 1 \<le> 2 ^ bits n"
    using bits_bounds [OF n(1)] by auto
  have up: "y \<le> 2 ^ bits n" and low: "2 ^ (bits n - 1) < y"
    using rat_pow_le_of_nat [OF bn(1)] rat_of_nat_le_pow [OF bn(2)] n by linarith+
  have e: "binexp x = - int (bits n)" "binexp x + 1 = - int (bits n - 1)"
    using False bits_pos [OF n(1)] by (simp_all add: binexp_def n_def y_def of_nat_diff)
  have "2 powi binexp x = 1 / (2::rat) ^ bits n"
    unfolding e(1) by (rule two_powi_minus_of_nat)
  moreover have "2 powi (binexp x + 1) = 1 / (2::rat) ^ (bits n - 1)"
    unfolding e(2) by (rule two_powi_minus_of_nat)
  moreover have "1 / 2 ^ bits n \<le> 1 / y" "1 / y < 1 / 2 ^ (bits n - 1)"
    using up low y(1) by (simp_all add: frac_le divide_strict_left_mono)
  ultimately show ?thesis
    using y(2) by simp
qed

lemma binexp_less: "0 < x \<Longrightarrow> x < 2 powi k \<Longrightarrow> binexp x < k"
  using binexp_bounds [of x] by (metis order_le_less_trans two_powi_less_iff)

lemma binexp_ge: "0 < x \<Longrightarrow> 2 powi k \<le> x \<Longrightarrow> k \<le> binexp x"
  using binexp_bounds [of x] two_powi_less_iff [of k "binexp x + 1"] by linarith

lemma binexp_mono: "0 < x \<Longrightarrow> x \<le> y \<Longrightarrow> binexp x \<le> binexp y"
  using binexp_bounds [of x] by (intro binexp_ge) linarith+

subsection \<open>The rounding function\<close>

lemma fl_0 [simp]: "fl 0 = 0"
  by (simp add: fl_def)

lemma fl_minus: "fl (- x) = - fl x"
  by (simp add: fl_def quantum_def rne_minus)

lemma quantum_mono: "0 < x \<Longrightarrow> x \<le> y \<Longrightarrow> quantum x \<le> quantum y"
  using binexp_mono [of x y] by (simp add: quantum_def)

text \<open>The scaled significand of a positive number has at most 53 bits.\<close>

lemma scaled_upper:
  assumes "0 < x"
  shows "x / 2 powi quantum x < 2 ^ 53"
proof -
  have "x < 2 powi (binexp x + 1)"
    using binexp_bounds [OF assms] by simp
  also have "\<dots> \<le> 2 powi (53 + quantum x)"
    by (rule two_powi_mono) (use assms in \<open>simp add: quantum_def\<close>)
  also have "\<dots> = 2 ^ 53 * 2 powi quantum x"
    using two_powi_add [of 53 "quantum x"] by simp
  finally show ?thesis
    by (simp add: divide_less_eq)
qed

text \<open>Above the subnormal range it has exactly 53 bits.\<close>

lemma scaled_lower:
  assumes "0 < x" and "- 1074 < quantum x"
  shows "2 ^ 52 \<le> x / 2 powi quantum x"
proof -
  have e: "binexp x = 52 + quantum x"
    using assms by (simp add: quantum_def max_def split: if_splits)
  have "(2::rat) ^ 52 * 2 powi quantum x = 2 powi binexp x"
    using two_powi_add [of 52 "quantum x"] unfolding e by simp
  also have "\<dots> \<le> x"
    using binexp_bounds [OF assms(1)] by simp
  finally show ?thesis
    by (simp add: le_divide_eq)
qed

lemma fl_pos_eq: "0 < x \<Longrightarrow> fl x = of_int (rne (x / 2 powi quantum x)) * 2 powi quantum x"
  by (simp add: fl_def)

lemma fl_nonneg: "0 \<le> x \<Longrightarrow> 0 \<le> fl x"
  using of_int_le_rne [of 0 "x / 2 powi quantum x"]
  by (auto simp: fl_def less_imp_le intro!: mult_nonneg_nonneg)

lemma fl_upper_pow:
  assumes "0 < x"
  shows "fl x \<le> 2 powi (53 + quantum x)"
proof -
  have "rne (x / 2 powi quantum x) \<le> 2 ^ 53"
    by (rule rne_le_of_int) (use scaled_upper [OF assms] in simp)
  then have "of_int (rne (x / 2 powi quantum x)) \<le> (2 ^ 53 :: rat)"
    by (metis of_int_le_iff of_int_numeral of_int_power)
  then show ?thesis
    using assms two_powi_add [of 53 "quantum x"] by (simp add: fl_def)
qed

lemma fl_lower_pow:
  assumes "0 < x" and "- 1074 < quantum x"
  shows "2 powi (52 + quantum x) \<le> fl x"
proof -
  have "2 ^ 52 \<le> rne (x / 2 powi quantum x)"
    by (rule of_int_le_rne) (use scaled_lower [OF assms] in simp)
  then have "(2 ^ 52 :: rat) \<le> of_int (rne (x / 2 powi quantum x))"
    by (metis of_int_le_iff of_int_numeral of_int_power)
  then show ?thesis
    using assms two_powi_add [of 52 "quantum x"] by (simp add: fl_def)
qed

lemma fl_mono_pos:
  assumes "0 < x" and "x \<le> y"
  shows "fl x \<le> fl y"
proof (cases "quantum x = quantum y")
  case True
  have "x / 2 powi quantum y \<le> y / 2 powi quantum y"
    using assms by (simp add: divide_right_mono less_imp_le)
  then have "rne (x / 2 powi quantum y) \<le> rne (y / 2 powi quantum y)"
    by (rule rne_mono)
  then show ?thesis
    using assms True by (simp add: fl_def mult_right_mono less_imp_le)
next
  case False
  then have q: "quantum x < quantum y"
    using quantum_mono [OF assms] by simp
  have n: "- 1074 < quantum y"
    using q by (simp add: quantum_def)
  have "fl x \<le> 2 powi (53 + quantum x)"
    by (rule fl_upper_pow [OF assms(1)])
  also have "\<dots> \<le> 2 powi (52 + quantum y)"
    by (rule two_powi_mono) (use q in simp)
  also have "\<dots> \<le> fl y"
    using assms by (intro fl_lower_pow n) simp
  finally show ?thesis .
qed

lemma fl_mono:
  assumes "x \<le> y"
  shows "fl x \<le> fl y"
proof -
  consider "0 < x" | "x \<le> 0" "0 \<le> y" | "y < 0"
    by linarith
  then show ?thesis
  proof cases
    case 1
    then show ?thesis using assms by (rule fl_mono_pos)
  next
    case 2
    then have "0 \<le> fl (- x)" "0 \<le> fl y"
      by (auto intro: fl_nonneg)
    then show ?thesis by (simp add: fl_minus)
  next
    case 3
    then have "fl (- y) \<le> fl (- x)"
      using assms by (intro fl_mono_pos) simp_all
    then show ?thesis by (simp add: fl_minus)
  qed
qed

subsection \<open>Representable numbers are fixed points\<close>

lemma representable_minus: "representable (- x) = representable x"
proof -
  have "representable (- y)" if r: "representable y" for y
  proof -
    obtain m q where "y = of_int m * 2 powi q" "\<bar>m\<bar> \<le> 2 ^ 53" "- 1074 \<le> q"
      using r unfolding representable_def by blast
    then have "- y = of_int (- m) * 2 powi q" "\<bar>- m\<bar> \<le> 2 ^ 53" "- 1074 \<le> q"
      by simp_all
    then show ?thesis unfolding representable_def by blast
  qed
  from this [of x] this [of "- x"] show ?thesis by auto
qed

lemma representable_of_int: "\<bar>k\<bar> \<le> 2 ^ 53 \<Longrightarrow> representable (of_int k)"
  unfolding representable_def by (intro exI [of _ k] exI [of _ "0::int"]) simp

lemma fl_exact_pos:
  assumes "0 < m" and "m < 2 ^ 53" and "- 1074 \<le> q"
  shows "fl (of_int m * 2 powi q) = of_int m * 2 powi q"
proof -
  define x :: rat where "x = of_int m * 2 powi q"
  have x: "0 < x" using assms by (simp add: x_def)
  have m: "of_int m < (2::rat) ^ 53"
    using assms(2) by (metis of_int_less_iff of_int_numeral of_int_power)
  have "x < 2 ^ 53 * 2 powi q"
    using m by (simp add: x_def)
  also have "\<dots> = 2 powi (53 + q)"
    using two_powi_add [of 53 q] by simp
  finally have "binexp x < 53 + q"
    by (rule binexp_less [OF x])
  then have le: "quantum x \<le> q"
    using assms(3) x by (simp add: quantum_def)
  define d where "d = nat (q - quantum x)"
  have d: "q = int d + quantum x"
    using le by (simp add: d_def)
  have split: "x = of_int (m * 2 ^ d) * 2 powi quantum x"
    unfolding x_def by (subst d) (simp add: two_powi_add x_def)
  then have "x / 2 powi quantum x = of_int (m * 2 ^ d)"
    using two_powi_pos [of "quantum x"] by (metis less_irrefl nonzero_mult_div_cancel_right)
  then have "fl x = of_int (m * 2 ^ d) * 2 powi quantum x"
    using x by (simp only: fl_pos_eq rne_of_int)
  also have "\<dots> = x"
    by (rule split [symmetric])
  finally show ?thesis by (simp add: x_def)
qed

lemma fl_representable:
  assumes "representable x"
  shows "fl x = x"
proof -
  have pos: "fl y = y" if y: "representable y" "0 < y" for y
  proof -
    obtain m q where *: "y = of_int m * 2 powi q" "\<bar>m\<bar> \<le> 2 ^ 53" "- 1074 \<le> q"
      using y(1) unfolding representable_def by blast
    have m: "0 < m"
      using y(2) *(1) two_powi_pos [of q] by (auto simp: zero_less_mult_iff not_less)
    show ?thesis
    proof (cases "m = 2 ^ 53")
      case True
      have "y = of_int (2 ^ 52) * 2 powi (q + 1)"
        by (simp add: * True two_powi_add)
      then show ?thesis
        using fl_exact_pos [of "2 ^ 52" "q + 1"] *(3) by simp
    next
      case False
      then show ?thesis
        using fl_exact_pos [of m q] m * by simp
    qed
  qed
  consider "x = 0" | "0 < x" | "0 < - x" by linarith
  then show ?thesis
  proof cases
    case 3
    then show ?thesis
      using pos [of "- x"] assms by (simp add: fl_minus representable_minus)
  qed (use pos assms in auto)
qed

lemma fl_of_int: "\<bar>k\<bar> \<le> 2 ^ 53 \<Longrightarrow> fl (of_int k) = of_int k"
  by (rule fl_representable [OF representable_of_int])

lemma representable_fl: "representable (fl x)"
proof -
  have pos: "representable (fl y)" if "0 < y" for y
  proof -
    have "rne (y / 2 powi quantum y) \<le> 2 ^ 53"
      by (rule rne_le_of_int) (use scaled_upper [OF that] in simp)
    moreover have "0 \<le> rne (y / 2 powi quantum y)"
      by (rule of_int_le_rne) (use that in simp)
    moreover have "- 1074 \<le> quantum y"
      by (simp add: quantum_def)
    ultimately show ?thesis
      using that unfolding representable_def fl_pos_eq [OF that]
      by (metis abs_of_nonneg)
  qed
  consider "x = 0" | "0 < x" | "0 < - x" by linarith
  then show ?thesis
  proof cases
    case 1
    then show ?thesis using representable_of_int [of 0] by simp
  next
    case 3
    then show ?thesis
      using pos [of "- x"] by (simp add: fl_minus representable_minus)
  qed (rule pos)
qed

lemma fl_idem [simp]: "fl (fl x) = fl x"
  by (rule fl_representable [OF representable_fl])

text \<open>Rounding never crosses a representable number.\<close>

lemma fl_le_representable: "x \<le> b \<Longrightarrow> representable b \<Longrightarrow> fl x \<le> b"
  using fl_mono [of x b] by (simp add: fl_representable)

lemma representable_le_fl: "a \<le> x \<Longrightarrow> representable a \<Longrightarrow> a \<le> fl x"
  using fl_mono [of a x] by (simp add: fl_representable)

lemma fl_le_of_int: "x \<le> of_int k \<Longrightarrow> \<bar>k\<bar> \<le> 2 ^ 53 \<Longrightarrow> fl x \<le> of_int k"
  by (rule fl_le_representable [OF _ representable_of_int])

lemma of_int_le_fl: "of_int k \<le> x \<Longrightarrow> \<bar>k\<bar> \<le> 2 ^ 53 \<Longrightarrow> of_int k \<le> fl x"
  by (rule representable_le_fl [OF _ representable_of_int])

section \<open>The type float64\<close>

datatype f64 = NaN | NInf | Fin rat | PInf

text \<open>
  The total order of \<open>sort.Float64s\<close>: NaN before every other value. The comparison operators of
  the language are \<open>f64_lt\<close> and \<open>f64_le\<close> below; they are false when an operand is NaN.
\<close>

instantiation f64 :: linorder
begin

fun less_eq_f64 :: "f64 \<Rightarrow> f64 \<Rightarrow> bool" where
  "less_eq_f64 NaN b = True"
| "less_eq_f64 NInf b = (b \<noteq> NaN)"
| "less_eq_f64 (Fin x) b = (case b of Fin y \<Rightarrow> x \<le> y | PInf \<Rightarrow> True | _ \<Rightarrow> False)"
| "less_eq_f64 PInf b = (b = PInf)"

definition less_f64 :: "f64 \<Rightarrow> f64 \<Rightarrow> bool" where
  "less_f64 a b = (a \<le> b \<and> \<not> b \<le> a)"

instance
proof
  fix a b c :: f64
  show "a < b \<longleftrightarrow> a \<le> b \<and> \<not> b \<le> a"
    by (rule less_f64_def)
  show "a \<le> a" by (cases a) simp_all
  show "a \<le> b \<Longrightarrow> b \<le> c \<Longrightarrow> a \<le> c"
    by (cases a; cases b; cases c) simp_all
  show "a \<le> b \<Longrightarrow> b \<le> a \<Longrightarrow> a = b"
    by (cases a; cases b) simp_all
  show "a \<le> b \<or> b \<le> a"
    by (cases a; cases b) auto
qed

end

lemma less_Fin_iff [simp]: "Fin x < Fin y \<longleftrightarrow> x < y"
  by (auto simp: less_f64_def)

text \<open>The values a program can hold: the rounded rationals below \<open>2 ^ 1024\<close>.\<close>

fun is_f64 :: "f64 \<Rightarrow> bool" where
  "is_f64 (Fin x) = (fl x = x \<and> \<bar>x\<bar> < 2 ^ 1024)"
| "is_f64 _ = True"

fun is_finite :: "f64 \<Rightarrow> bool" where
  "is_finite (Fin x) = True"
| "is_finite _ = False"

definition f64_of :: "rat \<Rightarrow> f64" where
  "f64_of x = (let r = fl x in if 2 ^ 1024 \<le> r then PInf else if r \<le> - (2 ^ 1024) then NInf else Fin r)"

text \<open>\<open>float64(k)\<close> for an integer, and a constant of the source.\<close>

definition f64_of_int :: "int \<Rightarrow> f64" where
  "f64_of_int k = f64_of (of_int k)"

fun f64_lt :: "f64 \<Rightarrow> f64 \<Rightarrow> bool" where
  "f64_lt a b = (a \<noteq> NaN \<and> b \<noteq> NaN \<and> a < b)"

fun f64_le :: "f64 \<Rightarrow> f64 \<Rightarrow> bool" where
  "f64_le a b = (a \<noteq> NaN \<and> b \<noteq> NaN \<and> a \<le> b)"

fun f64_neg :: "f64 \<Rightarrow> f64" where
  "f64_neg NaN = NaN"
| "f64_neg NInf = PInf"
| "f64_neg PInf = NInf"
| "f64_neg (Fin x) = Fin (- x)"

fun f64_add :: "f64 \<Rightarrow> f64 \<Rightarrow> f64" where
  "f64_add (Fin x) (Fin y) = f64_of (x + y)"
| "f64_add NaN b = NaN"
| "f64_add a NaN = NaN"
| "f64_add PInf NInf = NaN"
| "f64_add NInf PInf = NaN"
| "f64_add PInf b = PInf"
| "f64_add NInf b = NInf"
| "f64_add a PInf = PInf"
| "f64_add a NInf = NInf"

definition f64_sub :: "f64 \<Rightarrow> f64 \<Rightarrow> f64" where
  "f64_sub a b = f64_add a (f64_neg b)"

text \<open>The sign of a value, \<open>0\<close> for the zero; used for products and quotients with infinities.\<close>

fun f64_sgn :: "f64 \<Rightarrow> int" where
  "f64_sgn (Fin x) = (if x = 0 then 0 else if x < 0 then - 1 else 1)"
| "f64_sgn PInf = 1"
| "f64_sgn NInf = - 1"
| "f64_sgn NaN = 0"

definition f64_inf :: "int \<Rightarrow> f64" where
  "f64_inf s = (if s = 0 then NaN else if s < 0 then NInf else PInf)"

definition f64_mul :: "f64 \<Rightarrow> f64 \<Rightarrow> f64" where
  "f64_mul a b =
     (if a = NaN \<or> b = NaN then NaN
      else case (a, b) of
        (Fin x, Fin y) \<Rightarrow> f64_of (x * y)
      | _ \<Rightarrow> f64_inf (f64_sgn a * f64_sgn b))"

definition f64_div :: "f64 \<Rightarrow> f64 \<Rightarrow> f64" where
  "f64_div a b =
     (if a = NaN \<or> b = NaN then NaN
      else case (a, b) of
        (Fin x, Fin y) \<Rightarrow> if y = 0 then f64_inf (f64_sgn a) else f64_of (x / y)
      | (Fin x, _) \<Rightarrow> Fin 0
      | (_, Fin y) \<Rightarrow> f64_inf (f64_sgn a * (if y < 0 then - 1 else 1))
      | _ \<Rightarrow> NaN)"

text \<open>
  \<open>math.Floor\<close>, \<open>math.Ceil\<close> and \<open>math.Round\<close> (half away from zero) are exact. The conversion
  \<open>int(x)\<close> truncates; a value that does not fit gives the smallest integer, as on amd64.
\<close>

fun f64_map_int :: "(rat \<Rightarrow> int) \<Rightarrow> f64 \<Rightarrow> f64" where
  "f64_map_int g (Fin x) = Fin (of_int (g x))"
| "f64_map_int g a = a"

definition round_away :: "rat \<Rightarrow> int" where
  "round_away x = (if 0 \<le> x then \<lfloor>x + 1/2\<rfloor> else - \<lfloor>- x + 1/2\<rfloor>)"

definition trunc_rat :: "rat \<Rightarrow> int" where
  "trunc_rat x = (if 0 \<le> x then \<lfloor>x\<rfloor> else - \<lfloor>- x\<rfloor>)"

definition f64_floor :: "f64 \<Rightarrow> f64" where "f64_floor = f64_map_int floor"
definition f64_ceil :: "f64 \<Rightarrow> f64" where "f64_ceil = f64_map_int ceiling"
definition f64_round :: "f64 \<Rightarrow> f64" where "f64_round = f64_map_int round_away"

fun f64_to_int :: "f64 \<Rightarrow> int" where
  "f64_to_int (Fin x) = (let k = trunc_rat x in if in_i64 k then k else - (2 ^ 63))"
| "f64_to_int _ = - (2 ^ 63)"

section \<open>Operations on small values\<close>

lemma pow53_less_pow1024: "(2::rat) ^ 53 < 2 ^ 1024"
  by (rule power_strict_increasing) simp_all

lemma f64_of_Fin: "\<bar>fl x\<bar> < 2 ^ 1024 \<Longrightarrow> f64_of x = Fin (fl x)"
  by (auto simp: f64_of_def Let_def abs_less_iff)

lemma of_int_pow53: "\<bar>k\<bar> \<le> 2 ^ 53 \<Longrightarrow> \<bar>of_int k :: rat\<bar> \<le> 2 ^ 53"
  by (metis of_int_abs of_int_le_iff of_int_numeral of_int_power)

lemma f64_of_between:
  assumes "of_int a \<le> x" and "x \<le> of_int b" and "\<bar>a\<bar> \<le> 2 ^ 53" and "\<bar>b\<bar> \<le> 2 ^ 53"
  shows "f64_of x = Fin (fl x) \<and> of_int a \<le> fl x \<and> fl x \<le> of_int b"
proof -
  have b: "of_int a \<le> fl x" "fl x \<le> of_int b"
    using assms by (auto intro: of_int_le_fl fl_le_of_int)
  have "\<bar>fl x\<bar> \<le> 2 ^ 53"
    using b of_int_pow53 [OF assms(3)] of_int_pow53 [OF assms(4)] by linarith
  then have "\<bar>fl x\<bar> < 2 ^ 1024"
    using pow53_less_pow1024 by (rule order_le_less_trans)
  then show ?thesis using b by (simp add: f64_of_Fin)
qed

lemma f64_of_int_exact: "\<bar>k\<bar> \<le> 2 ^ 53 \<Longrightarrow> f64_of_int k = Fin (of_int k)"
  using f64_of_between [of k "of_int k" k] by (simp add: f64_of_int_def fl_of_int)

lemma f64_mul_Fin: "f64_mul (Fin x) (Fin y) = f64_of (x * y)"
  by (simp add: f64_mul_def)

lemma f64_div_Fin: "y \<noteq> 0 \<Longrightarrow> f64_div (Fin x) (Fin y) = f64_of (x / y)"
  by (simp add: f64_div_def)

lemma f64_sub_Fin: "f64_sub (Fin x) (Fin y) = f64_of (x - y)"
  by (simp add: f64_sub_def)

lemma f64_to_int_floor:
  assumes "0 \<le> y" and "y \<le> of_int k" and "\<bar>k\<bar> \<le> 2 ^ 53"
  shows "f64_to_int (Fin y) = \<lfloor>y\<rfloor>" and "0 \<le> \<lfloor>y\<rfloor>" and "\<lfloor>y\<rfloor> \<le> k"
proof -
  show b: "0 \<le> \<lfloor>y\<rfloor>" "\<lfloor>y\<rfloor> \<le> k"
    using assms by (auto simp: floor_le_iff)
  then have "in_i64 \<lfloor>y\<rfloor>"
    using assms(3) by (rule in_i64_below_pow53)
  then show "f64_to_int (Fin y) = \<lfloor>y\<rfloor>"
    using assms(1) by (simp add: trunc_rat_def)
qed

text \<open>
  The index \<open>int(float64(n - 1) * p)\<close> of a percentile: for a fraction \<open>p\<close> between 0 and 1 it is a
  valid index of a list of \<open>n\<close> elements.
\<close>

definition scaled_index :: "int \<Rightarrow> f64 \<Rightarrow> int" where
  "scaled_index k p = f64_to_int (f64_mul (f64_of_int k) p)"

lemma scaled_index_bounds:
  assumes "0 \<le> k" and "k \<le> 2 ^ 53" and "0 \<le> x" and "x \<le> 1"
  shows "scaled_index k (Fin x) = \<lfloor>fl (of_int k * x)\<rfloor>"
    and "0 \<le> scaled_index k (Fin x)" and "scaled_index k (Fin x) \<le> k"
proof -
  have "0 \<le> of_int k * x" "of_int k * x \<le> of_int k"
    using assms by (simp_all add: mult_left_le)
  then have f: "f64_of (of_int k * x) = Fin (fl (of_int k * x))"
      "0 \<le> fl (of_int k * x)" "fl (of_int k * x) \<le> of_int k"
    using f64_of_between [of 0 "of_int k * x" k] assms by simp_all
  then have e: "scaled_index k (Fin x) = f64_to_int (Fin (fl (of_int k * x)))"
    using assms by (simp add: scaled_index_def f64_of_int_exact f64_mul_Fin)
  show "scaled_index k (Fin x) = \<lfloor>fl (of_int k * x)\<rfloor>"
    and "0 \<le> scaled_index k (Fin x)" and "scaled_index k (Fin x) \<le> k"
    unfolding e using f64_to_int_floor [OF f(2,3)] assms by simp_all
qed

text \<open>A decimal constant between 0 and 1 rounds into the same interval.\<close>

lemma f64_of_unit:
  assumes "0 \<le> x" and "x \<le> 1"
  shows "f64_of x = Fin (fl x)" and "0 \<le> fl x" and "fl x \<le> 1"
  using f64_of_between [of 0 x 1] assms by simp_all

end
