(* ===== verification/GoSort.thy ===== *)
theory GoSort
  imports Prelude
begin

text \<open>
  Sorting as the program uses it. \<open>exchange_sort\<close> is the double loop that \<open>percentileDuration\<close> in
  warmkit/fsm.go and \<open>medianInt64\<close> in benchmark/internal/report/report.go write out. The locale
  \<open>sorter\<close> is the contract its users rely on: the result is sorted and a permutation of the
  argument. Package \<open>sort\<close> of the standard library meets the same contract on totally ordered
  elements, and there is only one such function, so its model is \<open>sort\<close> of the HOL library.
\<close>

section \<open>The contract of a sorting routine\<close>

locale sorter =
  fixes srt :: "'a::linorder list \<Rightarrow> 'a list"
  assumes srt_mset: "mset (srt xs) = mset xs"
    and srt_sorted: "sorted (srt xs)"
begin

lemma srt_eq_sort: "srt xs = sort xs"
  by (rule properties_for_sort [symmetric]) (simp_all add: srt_mset srt_sorted)

lemma srt_length: "length (srt xs) = length xs"
  by (metis size_mset srt_mset)

lemma srt_set: "set (srt xs) = set xs"
  by (metis set_mset_mset srt_mset)

lemma srt_nth_in: "i < length xs \<Longrightarrow> srt xs ! i \<in> set xs"
  by (metis nth_mem srt_length srt_set)

lemma srt_nth_mono: "i \<le> j \<Longrightarrow> j < length xs \<Longrightarrow> srt xs ! i \<le> srt xs ! j"
  by (simp add: sorted_nth_mono srt_sorted srt_length)

text \<open>
  An order statistic: at least \<open>i + 1\<close> elements are at most the element of rank \<open>i\<close>, and at least
  \<open>length xs - i\<close> are at least it.
\<close>

lemma srt_rank_le:
  assumes "i < length xs"
  shows "i + 1 \<le> length (filter (\<lambda>x. x \<le> srt xs ! i) xs)"
proof -
  let ?P = "\<lambda>x. x \<le> srt xs ! i"
  have "\<forall>x \<in> set (take (Suc i) (srt xs)). ?P x"
  proof
    fix x assume "x \<in> set (take (Suc i) (srt xs))"
    then obtain k where "k < Suc i" "k < length xs" "x = srt xs ! k"
      by (auto simp: in_set_conv_nth srt_length)
    then show "?P x" using assms by (simp add: srt_nth_mono)
  qed
  then have "filter ?P (take (Suc i) (srt xs)) = take (Suc i) (srt xs)"
    by (simp add: filter_id_conv)
  then have "i + 1 \<le> length (filter ?P (take (Suc i) (srt xs) @ drop (Suc i) (srt xs)))"
    using assms by (simp add: srt_length del: append_take_drop_id)
  also have "\<dots> = size (filter_mset ?P (mset (srt xs)))"
    by (simp flip: mset_filter)
  also have "\<dots> = length (filter ?P xs)"
    by (simp add: srt_mset flip: mset_filter)
  finally show ?thesis .
qed

lemma srt_rank_ge:
  assumes "i < length xs"
  shows "length xs - i \<le> length (filter (\<lambda>x. srt xs ! i \<le> x) xs)"
proof -
  let ?P = "\<lambda>x. srt xs ! i \<le> x"
  have "\<forall>x \<in> set (drop i (srt xs)). ?P x"
  proof
    fix x assume "x \<in> set (drop i (srt xs))"
    then obtain k where "k < length xs - i" "x = srt xs ! (i + k)"
      by (auto simp: in_set_conv_nth srt_length)
    then show "?P x" by (simp add: srt_nth_mono less_diff_conv)
  qed
  then have "filter ?P (drop i (srt xs)) = drop i (srt xs)"
    by (simp add: filter_id_conv)
  then have "length xs - i \<le> length (filter ?P (take i (srt xs) @ drop i (srt xs)))"
    by (simp add: srt_length del: append_take_drop_id)
  also have "\<dots> = size (filter_mset ?P (mset (srt xs)))"
    by (simp flip: mset_filter)
  also have "\<dots> = length (filter ?P xs)"
    by (simp add: srt_mset flip: mset_filter)
  finally show ?thesis .
qed

end

section \<open>The exchange sort of the source\<close>

text \<open>\<open>a[i], a[j] = a[j], a[i]\<close>\<close>

definition swap :: "nat \<Rightarrow> nat \<Rightarrow> 'a list \<Rightarrow> 'a list" where
  "swap i j xs = xs[i := xs ! j, j := xs ! i]"

definition exch_step :: "nat \<Rightarrow> nat \<Rightarrow> 'a::linorder list \<Rightarrow> 'a list" where
  "exch_step i j xs = (if xs ! j < xs ! i then swap i j xs else xs)"

text \<open>\<open>for j := i + 1; j < len(a); j++\<close>\<close>

definition exch_inner :: "nat \<Rightarrow> 'a::linorder list \<Rightarrow> 'a list" where
  "exch_inner i xs = fold (exch_step i) [Suc i..<length xs] xs"

text \<open>\<open>for i := 0; i < len(a); i++\<close>\<close>

definition exchange_sort :: "'a::linorder list \<Rightarrow> 'a list" where
  "exchange_sort xs = fold exch_inner [0..<length xs] xs"

text \<open>What the inner loop has done after it has looked at the positions below \<open>m\<close>.\<close>

definition inner_done :: "nat \<Rightarrow> nat \<Rightarrow> 'a::linorder list \<Rightarrow> 'a list \<Rightarrow> bool" where
  "inner_done i m xs ys \<longleftrightarrow>
     mset ys = mset xs \<and> (\<forall>p < i. ys ! p = xs ! p) \<and>
     (\<forall>q. i \<le> q \<and> q < length xs \<longrightarrow> (\<exists>q'. i \<le> q' \<and> q' < length xs \<and> ys ! q = xs ! q')) \<and>
     (\<forall>k. i \<le> k \<and> k < m \<longrightarrow> ys ! i \<le> ys ! k)"

lemma inner_done_length: "inner_done i m xs ys \<Longrightarrow> length ys = length xs"
  unfolding inner_done_def by (metis size_mset)

lemma inner_done_step:
  assumes d: "inner_done i m xs ys" and im: "i < m" "m < length xs"
  shows "inner_done i (Suc m) xs (exch_step i m ys)"
proof (cases "ys ! m < ys ! i")
  case False
  then have "exch_step i m ys = ys" by (simp add: exch_step_def)
  moreover have "ys ! i \<le> ys ! m" using False by simp
  ultimately show ?thesis
    using d unfolding inner_done_def by (auto simp: less_Suc_eq)
next
  case True
  have len: "length ys = length xs" by (rule inner_done_length [OF d])
  define zs where "zs = swap i m ys"
  have eq: "exch_step i m ys = zs" using True by (simp add: exch_step_def zs_def)
  have at: "zs ! i = ys ! m" "zs ! m = ys ! i" "\<And>k. k \<noteq> i \<Longrightarrow> k \<noteq> m \<Longrightarrow> zs ! k = ys ! k"
    using im len by (simp_all add: zs_def swap_def nth_list_update)
  have "mset zs = mset xs"
    using d im len by (simp add: zs_def swap_def mset_swap_nth inner_done_def)
  moreover have "\<forall>p < i. zs ! p = xs ! p"
    using d im at(3) by (simp add: inner_done_def)
  moreover have "\<exists>q'. i \<le> q' \<and> q' < length xs \<and> zs ! q = xs ! q'" if "i \<le> q" "q < length xs" for q
  proof -
    have "\<exists>r. i \<le> r \<and> r < length xs \<and> zs ! q = ys ! r"
      using at im that by (metis less_imp_le order.refl order.strict_trans)
    then show ?thesis
      using d unfolding inner_done_def by metis
  qed
  moreover have "zs ! i \<le> zs ! k" if k: "i \<le> k" "k < Suc m" for k
  proof -
    have "ys ! i \<le> ys ! k" if "k < m"
      using d k that by (simp add: inner_done_def)
    then show ?thesis
      using True at k by (cases "k = i"; cases "k = m") auto
  qed
  ultimately show ?thesis
    unfolding eq inner_done_def by blast
qed

lemma inner_done_fold:
  "Suc i \<le> m \<Longrightarrow> m \<le> length xs \<Longrightarrow> inner_done i m xs (fold (exch_step i) [Suc i..<m] xs)"
proof (induction m rule: dec_induct)
  case base
  show ?case by (auto simp: inner_done_def less_Suc_eq)
next
  case (step m)
  then show ?case
    using inner_done_step [of i m xs "fold (exch_step i) [Suc i..<m] xs"] by simp
qed

lemma inner_done_exch_inner: "i < length xs \<Longrightarrow> inner_done i (length xs) xs (exch_inner i xs)"
  unfolding exch_inner_def by (rule inner_done_fold) simp_all

text \<open>
  The outer loop: the first \<open>i\<close> elements are sorted and none of them exceeds a later one.
\<close>

definition outer_done :: "nat \<Rightarrow> 'a::linorder list \<Rightarrow> 'a list \<Rightarrow> bool" where
  "outer_done i xs ys \<longleftrightarrow>
     mset ys = mset xs \<and> (\<forall>p q. p < i \<and> p \<le> q \<and> q < length xs \<longrightarrow> ys ! p \<le> ys ! q)"

lemma outer_done_step:
  assumes o: "outer_done i xs ys" and i: "i < length xs"
  shows "outer_done (Suc i) xs (exch_inner i ys)"
proof -
  have len: "length ys = length xs"
    using o unfolding outer_done_def by (metis size_mset)
  have d: "inner_done i (length xs) ys (exch_inner i ys)"
    using inner_done_exch_inner [of i ys] i len by simp
  have "exch_inner i ys ! p \<le> exch_inner i ys ! q"
    if pq: "p < Suc i" "p \<le> q" "q < length xs" for p q
  proof (cases "p = i")
    case True
    then show ?thesis using d pq by (simp add: inner_done_def)
  next
    case False
    then have p: "p < i" "exch_inner i ys ! p = ys ! p"
      using pq d by (simp_all add: inner_done_def)
    have "\<exists>r. p \<le> r \<and> r < length xs \<and> exch_inner i ys ! q = ys ! r"
    proof (cases "q < i")
      case True
      then show ?thesis using d pq by (auto simp: inner_done_def)
    next
      case False
      then obtain r where "i \<le> r" "r < length ys" "exch_inner i ys ! q = ys ! r"
        using d pq len unfolding inner_done_def by (metis linorder_not_less)
      then show ?thesis using p(1) len by (metis less_imp_le order_trans)
    qed
    then show ?thesis
      using o p unfolding outer_done_def by metis
  qed
  moreover have "mset (exch_inner i ys) = mset xs"
    using d o by (simp add: inner_done_def outer_done_def)
  ultimately show ?thesis
    unfolding outer_done_def by blast
qed

lemma outer_done_fold:
  "i \<le> length xs \<Longrightarrow> outer_done i xs (fold exch_inner [0..<i] xs)"
proof (induction i)
  case 0
  show ?case by (simp add: outer_done_def)
next
  case (Suc i)
  then show ?case
    using outer_done_step [of i xs "fold exch_inner [0..<i] xs"] by simp
qed

lemma outer_done_exchange_sort: "outer_done (length xs) xs (exchange_sort xs)"
  unfolding exchange_sort_def by (rule outer_done_fold) simp

interpretation exch: sorter exchange_sort
proof
  fix xs :: "'a::linorder list"
  have o: "outer_done (length xs) xs (exchange_sort xs)"
    by (rule outer_done_exchange_sort)
  then show m: "mset (exchange_sort xs) = mset xs"
    by (simp add: outer_done_def)
  have "length (exchange_sort xs) = length xs"
    using m by (metis size_mset)
  with o show "sorted (exchange_sort xs)"
    by (auto simp: sorted_iff_nth_mono outer_done_def)
qed

text \<open>The standard library's sort of a totally ordered element type.\<close>

interpretation std: sorter sort
  by unfold_locales simp_all

end
