(* ===== verification/GoStrings.thy ===== *)
theory GoStrings
  imports GoInt
begin

text \<open>
  Strings as byte lists, and what the program uses of packages \<open>strings\<close>, \<open>strconv\<close> and \<open>fmt\<close>:
  \<open>TrimSpace\<close>, \<open>Trim\<close>, \<open>Split\<close>, \<open>Join\<close>, \<open>Atoi\<close>, \<open>ParseInt\<close>, \<open>ParseBool\<close> and the verb \<open>%d\<close>.
\<close>

section \<open>Trimming\<close>

definition starts :: "string \<Rightarrow> string \<Rightarrow> bool" where
  "starts p s \<longleftrightarrow> take (length p) s = p"

text \<open>The UTF-8 encodings of the code points for which \<open>unicode.IsSpace\<close> holds.\<close>

definition byte :: "nat \<Rightarrow> char" where
  "byte n = char_of n"

definition space_seqs :: "string list" where
  "space_seqs =
     [[byte 9], [byte 10], [byte 11], [byte 12], [byte 13], [byte 32],
      [byte 194, byte 133], [byte 194, byte 160], [byte 225, byte 154, byte 128],
      [byte 226, byte 128, byte 128], [byte 226, byte 128, byte 129],
      [byte 226, byte 128, byte 130], [byte 226, byte 128, byte 131],
      [byte 226, byte 128, byte 132], [byte 226, byte 128, byte 133],
      [byte 226, byte 128, byte 134], [byte 226, byte 128, byte 135],
      [byte 226, byte 128, byte 136], [byte 226, byte 128, byte 137],
      [byte 226, byte 128, byte 138], [byte 226, byte 128, byte 168],
      [byte 226, byte 128, byte 169], [byte 226, byte 128, byte 175],
      [byte 226, byte 129, byte 159], [byte 227, byte 128, byte 128]]"

text \<open>Remove the given non-empty patterns from the front for as long as one matches.\<close>

fun strip :: "string list \<Rightarrow> string \<Rightarrow> string" where
  "strip ps [] = []"
| "strip ps (c # cs) =
     (case find (\<lambda>p. starts p (c # cs)) ps of
        None \<Rightarrow> c # cs
      | Some p \<Rightarrow> strip ps (drop (length p - 1) cs))"

definition TrimSpace :: "string \<Rightarrow> string" where
  "TrimSpace s = rev (strip (map rev space_seqs) (rev (strip space_seqs s)))"

text \<open>\<open>strings.Trim(s, "/")\<close>\<close>

definition TrimSlash :: "string \<Rightarrow> string" where
  "TrimSlash s = rev (dropWhile (\<lambda>c. c = CHR ''/'') (rev (dropWhile (\<lambda>c. c = CHR ''/'') s)))"

lemma strip_None: "strip ps s = [] \<or> find (\<lambda>p. starts p (strip ps s)) ps = None"
  by (induction ps s rule: strip.induct) (auto split: option.splits)

lemma strip_fix: "find (\<lambda>p. starts p s) ps = None \<Longrightarrow> strip ps s = s"
  by (cases s) simp_all

lemma strip_idem [simp]: "strip ps (strip ps s) = strip ps s"
  using strip_None [of ps s] by (auto intro: strip_fix)

lemma strip_suffix: "\<exists>pre. s = pre @ strip ps s"
proof (induction ps s rule: strip.induct)
  case (2 ps c cs)
  show ?case
  proof (cases "find (\<lambda>p. starts p (c # cs)) ps")
    case (Some p)
    then obtain pre where "drop (length p - 1) cs = pre @ strip ps (drop (length p - 1) cs)"
      using 2 by blast
    then have "c # cs = (c # take (length p - 1) cs @ pre) @ strip ps (drop (length p - 1) cs)"
      by (metis append_Cons append_assoc append_take_drop_id)
    then have "\<exists>pre. c # cs = pre @ strip ps (drop (length p - 1) cs)"
      by (rule exI)
    then show ?thesis by (simp only: strip.simps Some option.case)
  qed simp
qed simp

lemma starts_prefix: "starts p s \<Longrightarrow> starts p (s @ t)"
proof -
  assume a: "starts p s"
  then have "length p \<le> length s"
    unfolding starts_def by (metis length_take min.cobounded1 min_def nle_le)
  with a show ?thesis by (simp add: starts_def)
qed

lemma find_None_mono: "(\<And>x. Q x \<Longrightarrow> P x) \<Longrightarrow> find P xs = None \<Longrightarrow> find Q xs = None"
  by (auto simp: find_None_iff)

text \<open>The result of \<open>TrimSpace\<close> starts and ends with no space, so trimming twice changes nothing.\<close>

lemma TrimSpace_left: "TrimSpace s = [] \<or> find (\<lambda>p. starts p (TrimSpace s)) space_seqs = None"
proof -
  define u where "u = strip space_seqs s"
  obtain pre where "rev u = pre @ strip (map rev space_seqs) (rev u)"
    using strip_suffix by blast
  then have u: "u = TrimSpace s @ rev pre"
    unfolding TrimSpace_def u_def by (metis rev_append rev_rev_ident)
  have "u = [] \<or> find (\<lambda>p. starts p u) space_seqs = None"
    unfolding u_def by (rule strip_None)
  then show ?thesis
  proof
    assume "find (\<lambda>p. starts p u) space_seqs = None"
    then have "find (\<lambda>p. starts p (TrimSpace s)) space_seqs = None"
      by (rule find_None_mono [rotated]) (subst u, rule starts_prefix)
    then show ?thesis ..
  qed (use u in simp)
qed

lemma TrimSpace_idem: "TrimSpace (TrimSpace s) = TrimSpace s"
proof -
  have "strip space_seqs (TrimSpace s) = TrimSpace s"
    using TrimSpace_left [of s] by (auto intro: strip_fix)
  then show ?thesis
    unfolding TrimSpace_def [of "TrimSpace s"] by (simp add: TrimSpace_def)
qed

text \<open>A string whose first and last byte are printable ASCII is not trimmed.\<close>

definition printable :: "char \<Rightarrow> bool" where
  "printable c \<longleftrightarrow> (let n = of_char c :: nat in 33 \<le> n \<and> n \<le> 126)"

lemma space_seqs_ends:
  "\<forall>p \<in> set space_seqs. p \<noteq> [] \<and> \<not> printable (hd p) \<and> \<not> printable (last p)"
  by (simp add: space_seqs_def byte_def printable_def)

lemma find_space_printable:
  "printable c \<Longrightarrow> find (\<lambda>p. starts p (c # s)) space_seqs = None"
  "printable c \<Longrightarrow> find (\<lambda>p. starts p (c # s)) (map rev space_seqs) = None"
proof -
  have "hd p = c" if "starts p (c # s)" "p \<noteq> []" for p
    using that by (cases p) (auto simp: starts_def)
  then show "printable c \<Longrightarrow> find (\<lambda>p. starts p (c # s)) space_seqs = None"
    and "printable c \<Longrightarrow> find (\<lambda>p. starts p (c # s)) (map rev space_seqs) = None"
    using space_seqs_ends by (auto simp: find_None_iff) (metis hd_rev rev_is_Nil_conv)
qed

lemma TrimSpace_printable:
  assumes "s \<noteq> []" and "printable (hd s)" and "printable (last s)"
  shows "TrimSpace s = s"
proof -
  obtain c cs where s: "s = c # cs" using assms(1) by (cases s) auto
  obtain d ds where r: "rev s = d # ds" using assms(1) by (cases "rev s") auto
  have "printable c" "printable d"
    using assms s r by (auto simp: hd_rev [symmetric])
  then have "strip space_seqs s = s" "strip (map rev space_seqs) (rev s) = rev s"
    unfolding r by (auto simp: s find_space_printable intro!: strip_fix)
  then show ?thesis by (simp add: TrimSpace_def)
qed

section \<open>Splitting and joining\<close>

text \<open>\<open>strings.Split(s, sep)\<close> for a one-byte separator, and \<open>strings.Join\<close>.\<close>

fun Split :: "char \<Rightarrow> string \<Rightarrow> string list" where
  "Split sep [] = [[]]"
| "Split sep (c # cs) =
     (if c = sep then [] # Split sep cs
      else case Split sep cs of [] \<Rightarrow> [[c]] | p # ps \<Rightarrow> (c # p) # ps)"

fun Join :: "string \<Rightarrow> string list \<Rightarrow> string" where
  "Join sep [] = []"
| "Join sep [p] = p"
| "Join sep (p # q # ps) = p @ sep @ Join sep (q # ps)"

lemma Split_nonempty [simp]: "Split sep s \<noteq> []"
  by (induction s) (auto split: list.splits)

lemma Split_no_sep: "p \<in> set (Split sep s) \<Longrightarrow> sep \<notin> set p"
  by (induction s arbitrary: p) (auto split: list.splits if_splits)

lemma Join_Split: "Join [sep] (Split sep s) = s"
proof (induction s)
  case (Cons c cs)
  obtain p ps where "Split sep cs = p # ps"
    by (cases "Split sep cs") auto
  with Cons show ?case by (cases ps) auto
qed simp

lemma Split_prefix: "sep \<notin> set p \<Longrightarrow> Split sep (p @ sep # s) = p # Split sep s"
  by (induction p) auto

lemma Split_single: "sep \<notin> set p \<Longrightarrow> Split sep p = [p]"
  by (induction p) auto

lemma Split_Join:
  "ps \<noteq> [] \<Longrightarrow> (\<forall>p \<in> set ps. sep \<notin> set p) \<Longrightarrow> Split sep (Join [sep] ps) = ps"
proof (induction "[sep]" ps rule: Join.induct)
  case (3 p q ps)
  then show ?case by (simp add: Split_prefix)
qed (auto simp: Split_single)

section \<open>Integers in text\<close>

datatype num_error = ErrSyntax | ErrRange

definition digit_of :: "char \<Rightarrow> int option" where
  "digit_of c = (let n = of_char c in if 48 \<le> n \<and> n \<le> 57 then Some (int n - 48) else None)"

text \<open>
  The digit loop of \<open>strconv.ParseUint\<close> in base 10: a byte that is no digit is a syntax error, and
  the loop stops with a range error as soon as the value passes the largest \<open>uint64\<close>.
\<close>

fun parse_digits :: "int \<Rightarrow> string \<Rightarrow> num_error + int" where
  "parse_digits acc [] = Inr acc"
| "parse_digits acc (c # cs) =
     (case digit_of c of
        None \<Rightarrow> Inl ErrSyntax
      | Some d \<Rightarrow> if 2 ^ 64 \<le> acc * 10 + d then Inl ErrRange else parse_digits (acc * 10 + d) cs)"

definition parse_uint :: "string \<Rightarrow> num_error + int" where
  "parse_uint s = (if s = [] then Inl ErrSyntax else parse_digits 0 s)"

text \<open>\<open>strconv.Atoi(s)\<close> and \<open>strconv.ParseInt(s, 10, 64)\<close>\<close>

definition sign_split :: "string \<Rightarrow> bool \<times> string" where
  "sign_split s = (case s of
      c # cs \<Rightarrow> if c = CHR ''-'' then (True, cs) else if c = CHR ''+'' then (False, cs) else (False, s)
    | [] \<Rightarrow> (False, s))"

definition parse_int :: "string \<Rightarrow> num_error + int" where
  "parse_int s =
     (if s = [] then Inl ErrSyntax
      else case sign_split s of (neg, ds) \<Rightarrow>
        res_bind (parse_uint ds) (\<lambda>un.
          if \<not> neg \<and> 2 ^ 63 \<le> un then Inl ErrRange
          else if neg \<and> 2 ^ 63 < un then Inl ErrRange
          else Inr (if neg then - un else un)))"

text \<open>\<open>strconv.ParseBool\<close>\<close>

definition parse_bool :: "string \<Rightarrow> num_error + bool" where
  "parse_bool s =
     (if s \<in> {''1'', ''t'', ''T'', ''true'', ''TRUE'', ''True''} then Inr True
      else if s \<in> {''0'', ''f'', ''F'', ''false'', ''FALSE'', ''False''} then Inr False
      else Inl ErrSyntax)"

text \<open>The verb \<open>%d\<close>: decimal digits with a minus sign for negative numbers.\<close>

definition digit_char :: "nat \<Rightarrow> char" where
  "digit_char d = char_of (48 + d)"

fun show_nat :: "nat \<Rightarrow> string" where
  "show_nat n = (if n < 10 then [digit_char n] else show_nat (n div 10) @ [digit_char (n mod 10)])"

declare show_nat.simps [simp del]

definition show_int :: "int \<Rightarrow> string" where
  "show_int k = (if k < 0 then CHR ''-'' # show_nat (nat (- k)) else show_nat (nat k))"

lemma digit_of_digit_char [simp]: "d < 10 \<Longrightarrow> digit_of (digit_char d) = Some (int d)"
  by (simp add: digit_of_def digit_char_def)

lemma digit_of_sign [simp]: "digit_of (CHR ''-'') = None" "digit_of (CHR ''+'') = None"
  by (simp_all add: digit_of_def)

lemma digit_char_not_sign: "d < 10 \<Longrightarrow> digit_char d \<noteq> CHR ''-'' \<and> digit_char d \<noteq> CHR ''+''"
  by (metis digit_of_digit_char digit_of_sign option.distinct(1))

text \<open>Reading back what \<open>%d\<close> printed.\<close>

lemma parse_digits_append:
  "parse_digits acc (xs @ ys) = res_bind (parse_digits acc xs) (\<lambda>a. parse_digits a ys)"
  by (induction acc xs rule: parse_digits.induct) (auto split: option.splits)

lemma parse_digits_show_nat: "int n < 2 ^ 64 \<Longrightarrow> parse_digits 0 (show_nat n) = Inr (int n)"
proof (induction n rule: show_nat.induct)
  case (1 n)
  show ?case
  proof (cases "n < 10")
    case True
    then show ?thesis by (simp add: show_nat.simps [of n])
  next
    case False
    then have "parse_digits 0 (show_nat (n div 10)) = Inr (int (n div 10))"
      using 1 by simp
    moreover have "int (n div 10) * 10 + int (n mod 10) = int n"
      by (metis div_mult_mod_eq of_nat_add of_nat_mult of_nat_numeral)
    ultimately show ?thesis
      using False 1 by (simp add: show_nat.simps [of n] parse_digits_append)
  qed
qed

lemma show_nat_head: "\<exists>d ds. show_nat n = digit_char d # ds \<and> d < 10"
proof (induction n rule: show_nat.induct)
  case (1 n)
  then show ?case
    by (cases "n < 10") (auto simp: show_nat.simps [of n])
qed

lemma parse_int_show_int: "in_i64 k \<Longrightarrow> parse_int (show_int k) = Inr k"
proof -
  assume k: "in_i64 k"
  obtain d ds where h: "show_nat (nat \<bar>k\<bar>) = digit_char d # ds" "d < 10"
    using show_nat_head by blast
  have p: "parse_uint (show_nat (nat \<bar>k\<bar>)) = Inr \<bar>k\<bar>"
    using parse_digits_show_nat [of "nat \<bar>k\<bar>"] h k by (auto simp: parse_uint_def in_i64_def)
  show ?thesis
  proof (cases "k < 0")
    case True
    then have "sign_split (show_int k) = (True, show_nat (nat \<bar>k\<bar>))" "show_int k \<noteq> []"
      by (simp_all add: show_int_def sign_split_def)
    then show ?thesis
      using p k True by (simp add: parse_int_def in_i64_def)
  next
    case False
    then have "sign_split (show_int k) = (False, show_nat (nat \<bar>k\<bar>))" "show_int k \<noteq> []"
      using h digit_char_not_sign [OF h(2)] by (simp_all add: show_int_def sign_split_def)
    then show ?thesis
      using p k False by (simp add: parse_int_def in_i64_def)
  qed
qed

lemma parse_int_range: "parse_int s = Inr k \<Longrightarrow> in_i64 k"
proof -
  have nonneg: "0 \<le> acc \<Longrightarrow> parse_digits acc ds = Inr un \<Longrightarrow> 0 \<le> un" for acc ds un
    by (induction acc ds rule: parse_digits.induct)
      (auto simp: digit_of_def Let_def split: option.splits if_splits)
  then have "parse_uint ds = Inr un \<Longrightarrow> 0 \<le> un" for ds un
    by (auto simp: parse_uint_def split: if_splits)
  moreover assume "parse_int s = Inr k"
  ultimately show ?thesis
    by (auto simp: parse_int_def res_bind_Inr_iff in_i64_def split: if_splits prod.splits) force+
qed

lemma printable_digit_char: "d < 10 \<Longrightarrow> printable (digit_char d)"
  by (simp add: printable_def digit_char_def)

lemma last_show_nat: "printable (last (show_nat n))"
  by (induction n rule: show_nat.induct)
    (simp add: show_nat.simps [where n = n for n :: nat] printable_digit_char)

lemma TrimSpace_show_int: "TrimSpace (show_int k) = show_int k"
proof -
  obtain d ds where h: "show_nat (nat \<bar>k\<bar>) = digit_char d # ds" "d < 10"
    using show_nat_head by blast
  have "show_nat (nat \<bar>k\<bar>) \<noteq> []" using h by simp
  moreover have "printable (hd (show_int k))"
    using h by (auto simp: show_int_def printable_def printable_digit_char [unfolded printable_def])
  ultimately show ?thesis
    using last_show_nat [of "nat \<bar>k\<bar>"] by (intro TrimSpace_printable) (auto simp: show_int_def)
qed

end
