(* ===== verification/Fsm.thy ===== *)
theory Fsm
  imports Float64 GoSort GoStrings
begin

text \<open>
  warmkit/types.go and warmkit/fsm.go: the data that the services exchange, the lifecycle automaton
  of a warming instance, and the window of shadow request latencies. Locks make every method
  atomic, so a method is one function on the state.
\<close>

section \<open>The data of warmkit/types.go\<close>

text \<open>\<open>State\<close> is a string type; a record read from ZooKeeper may hold a string that is no constant.\<close>

datatype State =
    StateStarting | StateRegistered | StateWarming | StateReady | StateActive | StateFailed
  | StateOther string

fun state_string :: "State \<Rightarrow> string" where
  "state_string StateStarting = ''Starting''"
| "state_string StateRegistered = ''Registered''"
| "state_string StateWarming = ''Warming''"
| "state_string StateReady = ''Ready''"
| "state_string StateActive = ''Active''"
| "state_string StateFailed = ''Failed''"
| "state_string (StateOther s) = s"

record WorkloadProfile =
  wp_Seed :: int
  wp_Samples :: int

record MetricsSnapshot =
  ms_State :: State
  ms_ShadowCount :: int
  ms_ShadowLatencyP95 :: int
  ms_ReadyAfter :: int

record MirrorConfig =
  mc_Enabled :: bool
  mc_Ratio :: f64
  mc_TargetInstanceID :: string
  mc_ActiveInstanceID :: string
  mc_SessionID :: string
  mc_UpdatedAtUnixMilli :: int

record InstanceRecord =
  ir_Addr :: string
  ir_State :: State
  ir_Role :: string
  ir_StartedAt :: int

definition HeaderShadow :: string where "HeaderShadow = ''X-Warmup-Shadow''"
definition ShadowValue :: string where "ShadowValue = ''1''"

text \<open>The zero value of a \<open>MirrorConfig\<close>.\<close>

definition empty_mirror :: MirrorConfig where
  "empty_mirror = \<lparr>mc_Enabled = False, mc_Ratio = Fin 0, mc_TargetInstanceID = [],
     mc_ActiveInstanceID = [], mc_SessionID = [], mc_UpdatedAtUnixMilli = 0\<rparr>"

section \<open>The lifecycle automaton\<close>

record FSM =
  fsm_state :: State

definition NewFSM :: FSM where
  "NewFSM = \<lparr>fsm_state = StateStarting\<rparr>"

fun validTransition :: "State \<Rightarrow> State \<Rightarrow> bool" where
  "validTransition StateStarting to = (to = StateRegistered \<or> to = StateFailed)"
| "validTransition StateRegistered to = (to = StateWarming \<or> to = StateFailed)"
| "validTransition StateWarming to = (to = StateReady \<or> to = StateFailed)"
| "validTransition StateReady to = (to = StateActive \<or> to = StateFailed)"
| "validTransition StateActive to = False"
| "validTransition StateFailed to = False"
| "validTransition (StateOther s) to = False"

datatype fsm_error = ErrInvalidTransition State State

fun fsm_error_text :: "fsm_error \<Rightarrow> string" where
  "fsm_error_text (ErrInvalidTransition from to) =
     ''invalid transition: '' @ state_string from @ '' -> '' @ state_string to"

definition Transition :: "State \<Rightarrow> FSM \<Rightarrow> fsm_error option \<times> FSM" where
  "Transition next f =
     (if \<not> validTransition (fsm_state f) next
      then (Some (ErrInvalidTransition (fsm_state f) next), f)
      else (None, f\<lparr>fsm_state := next\<rparr>))"

definition Force :: "State \<Rightarrow> FSM \<Rightarrow> FSM" where
  "Force next f = f\<lparr>fsm_state := next\<rparr>"

lemma fsm_state_Transition:
  "fsm_state (snd (Transition next f)) =
     (if validTransition (fsm_state f) next then next else fsm_state f)"
  by (simp add: Transition_def)

lemma Transition_fst: "fst (Transition next f) = None \<longleftrightarrow> validTransition (fsm_state f) next"
  by (simp add: Transition_def)

lemma fsm_state_Force [simp]: "fsm_state (Force next f) = next"
  by (simp add: Force_def)

text \<open>The transitions accepted, in order, when callers request a list of states.\<close>

fun accepted :: "FSM \<Rightarrow> State list \<Rightarrow> State list" where
  "accepted f [] = []"
| "accepted f (t # ts) =
     (case Transition t f of
        (None, f') \<Rightarrow> t # accepted f' ts
      | (Some e, f') \<Rightarrow> accepted f' ts)"

text \<open>The documented lifecycle, as the list of states after \<open>Starting\<close>.\<close>

definition lifecycle :: "State list" where
  "lifecycle = [StateRegistered, StateWarming, StateReady, StateActive]"

fun remaining :: "State \<Rightarrow> State list" where
  "remaining StateStarting = lifecycle"
| "remaining StateRegistered = [StateWarming, StateReady, StateActive]"
| "remaining StateWarming = [StateReady, StateActive]"
| "remaining StateReady = [StateActive]"
| "remaining s = []"

lemma validTransition_remaining:
  "validTransition s t \<longleftrightarrow>
     (\<exists>rest. remaining s = t # rest \<and> remaining t = rest) \<or> (remaining s \<noteq> [] \<and> t = StateFailed)"
  by (cases s) (auto simp: lifecycle_def)

lemma accepted_remaining:
  "\<exists>k \<le> length (remaining (fsm_state f)).
     accepted f ts = take k (remaining (fsm_state f)) \<or>
     (k < length (remaining (fsm_state f)) \<and>
      accepted f ts = take k (remaining (fsm_state f)) @ [StateFailed])"
proof (induction ts arbitrary: f)
  case Nil
  show ?case by (intro exI [of _ 0]) simp
next
  case (Cons t ts)
  show ?case
  proof (cases "validTransition (fsm_state f) t")
    case False
    then show ?thesis using Cons [of f] by (simp add: Transition_def)
  next
    case True
    define g where "g = f\<lparr>fsm_state := t\<rparr>"
    have acc: "accepted f (t # ts) = t # accepted g ts" and st: "fsm_state g = t"
      using True by (simp_all add: Transition_def g_def)
    from True consider (next_state) rest where "remaining (fsm_state f) = t # rest" "remaining t = rest"
      | (failed) "remaining (fsm_state f) \<noteq> []" "t = StateFailed"
      by (auto simp: validTransition_remaining)
    then show ?thesis
    proof cases
      case next_state
      obtain k where "k \<le> length rest"
        "accepted g ts = take k rest \<or> k < length rest \<and> accepted g ts = take k rest @ [StateFailed]"
        using Cons [of g] next_state(2) st by auto
      then show ?thesis
        unfolding acc by (intro exI [of _ "Suc k"]) (auto simp: next_state(1))
    next
      case failed
      then have "accepted g ts = []" using Cons [of g] st by auto
      then show ?thesis
        unfolding acc using failed by (intro exI [of _ 0]) simp
    qed
  qed
qed

text \<open>
  C23: whatever states callers request and in whatever order, the states a new automaton enters are
  a prefix of \<open>Registered, Warming, Ready, Active\<close>, possibly ended by \<open>Failed\<close> before \<open>Active\<close> is
  reached. In particular no instance is \<open>Ready\<close> without having been \<open>Registered\<close> and then
  \<open>Warming\<close>, and every run makes at most four transitions.
\<close>

theorem fsm_lifecycle:
  "\<exists>k \<le> 4. accepted NewFSM ts = take k lifecycle \<or>
     (k < 4 \<and> accepted NewFSM ts = take k lifecycle @ [StateFailed])"
proof -
  have "remaining (fsm_state NewFSM) = lifecycle" "length lifecycle = 4"
    by (simp_all add: NewFSM_def lifecycle_def)
  then show ?thesis
    using accepted_remaining [of NewFSM ts] by (simp only:)
qed

section \<open>Shadow request metrics\<close>

record ShadowMetrics =
  sm_count :: int
  sm_latencies :: "int list"
  sm_maxKeep :: int

definition NewShadowMetrics :: "int \<Rightarrow> ShadowMetrics" where
  "NewShadowMetrics maxKeep = \<lparr>sm_count = 0, sm_latencies = [], sm_maxKeep = maxKeep\<rparr>"

text \<open>
  \<open>Record\<close> counts the request and keeps the newest \<open>maxKeep\<close> latencies. The slice expression
  panics when its lower bound is past the length, which a negative \<open>maxKeep\<close> makes it be; the
  counter and the appended latency are then already stored.
\<close>

definition Record :: "int \<Rightarrow> ShadowMetrics \<Rightarrow> go_panic option \<times> ShadowMetrics" where
  "Record d m =
     (let m1 = m\<lparr>sm_count := wrap64 (sm_count m + 1), sm_latencies := sm_latencies m @ [d]\<rparr>;
          n = int (length (sm_latencies m1));
          low = wrap64 (n - sm_maxKeep m1)
      in if sm_maxKeep m1 < n
         then if low < 0 \<or> n < low then (Some PanicSliceBounds, m1)
              else (None, m1\<lparr>sm_latencies := drop (nat low) (sm_latencies m1)\<rparr>)
         else (None, m1))"

definition Count :: "ShadowMetrics \<Rightarrow> int" where
  "Count m = sm_count m"

text \<open>\<open>percentileDuration\<close> sorts its argument, a copy made by the caller, and indexes it.\<close>

definition percentileDuration :: "int list \<Rightarrow> f64 \<Rightarrow> go_panic + int" where
  "percentileDuration xs p =
     (if xs = [] then Inr 0
      else let sorted = exchange_sort xs;
               idx = scaled_index (int (length xs) - 1) p;
               idx = (if idx < 0 then 0 else idx)
           in if int (length sorted) \<le> idx then Inl PanicIndex else Inr (sorted ! nat idx))"

definition p95 :: f64 where
  "p95 = f64_of (95 / 100)"

definition P95Ns :: "ShadowMetrics \<Rightarrow> go_panic + int" where
  "P95Ns m = (if sm_latencies m = [] then Inr 0 else percentileDuration (sm_latencies m) p95)"

text \<open>A run of \<open>Record\<close> calls on a new window; a panic ends the request, not the process.\<close>

definition record_all :: "int list \<Rightarrow> ShadowMetrics \<Rightarrow> ShadowMetrics" where
  "record_all ds m = fold (\<lambda>d m. snd (Record d m)) ds m"

definition window :: "int \<Rightarrow> int list \<Rightarrow> int list" where
  "window keep ds = drop (length ds - nat keep) ds"

lemma window_snoc:
  assumes "0 \<le> keep"
  shows "window keep (ds @ [d]) =
    (let w = window keep ds @ [d] in if keep < int (length w) then drop (length w - nat keep) w else w)"
proof (cases "nat keep \<le> length ds")
  case True
  then show ?thesis using assms by (simp add: window_def Let_def Suc_diff_le)
next
  case False
  then show ?thesis using assms by (simp add: window_def Let_def nat_le_iff)
qed

lemma Record_nonneg:
  assumes "0 \<le> sm_maxKeep m" and "sm_latencies m = window (sm_maxKeep m) ds"
    and "sm_maxKeep m < 2 ^ 62" and "int (length (sm_latencies m)) < 2 ^ 62"
  shows "Record d m = (None, m\<lparr>sm_count := wrap64 (sm_count m + 1),
           sm_latencies := window (sm_maxKeep m) (ds @ [d])\<rparr>)"
proof -
  let ?n = "int (length (sm_latencies m @ [d]))"
  have r: "in_i64 (?n - sm_maxKeep m)"
    using assms unfolding in_i64_def by simp
  show ?thesis
    using assms r by (simp add: Record_def window_snoc Let_def nat_diff_distrib' nat_add_distrib)
qed

lemma record_all_window:
  assumes "0 \<le> keep" and "keep < 2 ^ 62"
  shows "int (length ds) < 2 ^ 62 \<Longrightarrow>
    record_all ds (NewShadowMetrics keep) =
      \<lparr>sm_count = int (length ds), sm_latencies = window keep ds, sm_maxKeep = keep\<rparr>"
proof (induction ds rule: rev_induct)
  case Nil
  show ?case by (simp add: record_all_def NewShadowMetrics_def window_def)
next
  case (snoc d ds)
  define m where "m = record_all ds (NewShadowMetrics keep)"
  have m: "m = \<lparr>sm_count = int (length ds), sm_latencies = window keep ds, sm_maxKeep = keep\<rparr>"
    unfolding m_def using snoc by simp
  have len: "int (length (window keep ds)) < 2 ^ 62"
    using snoc.prems by (simp add: window_def)
  have r: "Record d m = (None, m\<lparr>sm_count := wrap64 (sm_count m + 1),
      sm_latencies := window (sm_maxKeep m) (ds @ [d])\<rparr>)"
    by (rule Record_nonneg) (use m assms len in simp_all)
  have "in_i64 (int (length ds) + 1)"
    using snoc.prems by (simp add: in_i64_def)
  moreover have "record_all (ds @ [d]) (NewShadowMetrics keep) = snd (Record d m)"
    by (simp add: record_all_def m_def)
  ultimately show ?case
    using r m by (simp add: add.commute)
qed

text \<open>\<open>percentileDuration\<close> never panics and returns an order statistic of its argument.\<close>

lemma percentileDuration_rank:
  assumes "xs \<noteq> []" and "int (length xs) \<le> 2 ^ 53" and "0 \<le> x" and "x \<le> 1"
  defines "i \<equiv> nat (scaled_index (int (length xs) - 1) (Fin x))"
  shows "i < length xs" and "percentileDuration xs (Fin x) = Inr (sort xs ! i)"
proof -
  have n: "0 \<le> int (length xs) - 1" "int (length xs) - 1 \<le> 2 ^ 53"
    using assms(1,2) by (cases xs; simp)+
  have b: "0 \<le> scaled_index (int (length xs) - 1) (Fin x)"
    "scaled_index (int (length xs) - 1) (Fin x) \<le> int (length xs) - 1"
    using scaled_index_bounds [OF n assms(3,4)] by simp_all
  then show i: "i < length xs"
    unfolding i_def by linarith
  show "percentileDuration xs (Fin x) = Inr (sort xs ! i)"
    using assms(1) b by (simp add: percentileDuration_def exch.srt_eq_sort i_def Let_def)
qed

lemma p95_Fin: "p95 = Fin (fl (95 / 100))" "0 \<le> fl (95 / 100)" "fl (95 / 100) \<le> 1"
  using f64_of_unit [of "95 / 100"] by (simp_all add: p95_def)

text \<open>
  C24: after any sequence of \<open>Record\<close> calls on a new \<open>ShadowMetrics\<close> with a positive \<open>maxKeep\<close>, the
  count is the number of calls, the window holds exactly the newest \<open>maxKeep\<close> latencies in order,
  and \<open>P95Ns\<close> returns, without an index panic, the element of rank \<open>i = int(float64(n-1) * 0.95)\<close>
  of the window: at least \<open>i + 1\<close> latencies are at most it and at least \<open>n - i\<close> are at least it.
\<close>

theorem shadow_window_p95:
  assumes "0 < keep" and "keep \<le> 2 ^ 53" and "ds \<noteq> []" and "int (length ds) < 2 ^ 62"
  shows "\<exists>x i. let m = record_all ds (NewShadowMetrics keep); w = sm_latencies m; n = length w in
    Count m = int (length ds) \<and> w = drop (length ds - nat keep) ds \<and>
    i = nat (scaled_index (int n - 1) p95) \<and> i < n \<and> P95Ns m = Inr x \<and> x \<in> set w \<and>
    i + 1 \<le> length (filter (\<lambda>y. y \<le> x) w) \<and> n - i \<le> length (filter (\<lambda>y. x \<le> y) w)"
proof -
  define w where "w = window keep ds"
  define i where "i = nat (scaled_index (int (length w) - 1) p95)"
  have m: "record_all ds (NewShadowMetrics keep) =
      \<lparr>sm_count = int (length ds), sm_latencies = w, sm_maxKeep = keep\<rparr>"
    unfolding w_def using assms by (intro record_all_window) simp_all
  have "0 < nat keep" "0 < length ds" "nat keep \<le> 2 ^ 53"
    using assms by simp_all
  then have "length ds - nat keep < length ds"
    by (intro diff_less)
  then have ne: "w \<noteq> []"
    by (simp add: w_def window_def)
  have "length w \<le> nat keep"
    by (simp add: w_def window_def)
  then have len: "int (length w) \<le> 2 ^ 53"
    using assms(1,2) by linarith
  have i: "i < length w" and p: "percentileDuration w p95 = Inr (sort w ! i)"
    using percentileDuration_rank [OF ne len p95_Fin(2,3)] by (simp_all add: i_def p95_Fin(1))
  have lat: "sm_latencies (record_all ds (NewShadowMetrics keep)) = w"
    by (simp add: m)
  have cnt: "Count (record_all ds (NewShadowMetrics keep)) = int (length ds)"
    by (simp add: m Count_def)
  have w: "w = drop (length ds - nat keep) ds"
    by (simp add: w_def window_def)
  have res: "P95Ns (record_all ds (NewShadowMetrics keep)) = Inr (sort w ! i)"
    using ne p by (simp add: m P95Ns_def)
  note facts = cnt w i_def i res std.srt_nth_in [OF i] std.srt_rank_le [OF i] std.srt_rank_ge [OF i]
  show ?thesis
    unfolding Let_def lat
    by (intro exI [of _ "sort w ! i"] exI [of _ i] conjI) (fact facts)+
qed

theorem shadow_window_p95_witness:
  "(\<exists>x i. let m = record_all [5, 1, 9] (NewShadowMetrics 2); w = sm_latencies m; n = length w in
    Count m = 3 \<and> w = [1, 9] \<and>
    i = nat (scaled_index (int n - 1) p95) \<and> i < n \<and> P95Ns m = Inr x \<and> x \<in> set w \<and>
    i + 1 \<le> length (filter (\<lambda>y. y \<le> x) w) \<and> n - i \<le> length (filter (\<lambda>y. x \<le> y) w)) \<and>
   (0::int) < 2 \<and> (2::int) \<le> 2 ^ 53"
  using shadow_window_p95 [of 2 "[5, 1, 9]"] by simp

text \<open>
  A negative \<open>maxKeep\<close> is accepted by the configuration and makes every recorded request panic,
  after the counter has been raised.
\<close>

lemma Record_negative_keep:
  assumes "sm_maxKeep m < 0" and "- (2 ^ 62) < sm_maxKeep m" and "int (length (sm_latencies m)) < 2 ^ 62"
  shows "fst (Record d m) = Some PanicSliceBounds"
proof -
  have "in_i64 (int (length (sm_latencies m)) + 1 - sm_maxKeep m)"
    using assms by (simp add: in_i64_def)
  then show ?thesis
    using assms by (simp add: Record_def Let_def add.commute)
qed

end
