(* ===== verification/Registry.thy ===== *)
theory Registry
  imports Fsm
begin

text \<open>
  warmkit/registry.go. The Go interface \<open>Registry\<close> is the record \<open>registry_ops\<close> of its methods over
  a store, with its contract as the locale \<open>registry_contract\<close>. It has two implementations: the
  in-memory one, on which the contract is interpreted, and the ZooKeeper one, whose client library
  and JSON encoding are parameters (\<open>zk_conn\<close>, \<open>codec\<close>) with their documented behaviour as
  predicates (\<open>zk_reliable\<close>, \<open>codec_ok\<close>).
\<close>

section \<open>The interface\<close>

datatype zk_error = ErrNodeExists | ErrNoNode | ErrBadVersion | ErrZkOther

datatype reg_error = RegZk zk_error | RegJson | InstanceNotFound

record 's registry_ops =
  rg_RegisterInstance :: "string \<Rightarrow> string \<Rightarrow> InstanceRecord \<Rightarrow> 's \<Rightarrow> reg_error option \<times> 's"
  rg_UpdateInstanceState :: "string \<Rightarrow> string \<Rightarrow> State \<Rightarrow> 's \<Rightarrow> reg_error option \<times> 's"
  rg_WatchMirror :: "string \<Rightarrow> 's \<Rightarrow> reg_error option"
  rg_Close :: "'s \<Rightarrow> reg_error option \<times> 's"

text \<open>A lifecycle state of the program's own, not a foreign string.\<close>

fun named_state :: "State \<Rightarrow> bool" where
  "named_state (StateOther s) = False"
| "named_state s = True"

text \<open>
  What a client relies on while the store answers: registering stores the record, updating changes
  the state field of a record that is present and reports an error for one that is absent, and no
  operation touches another instance. \<open>look\<close> reads the store, \<open>live\<close> is its invariant, \<open>good\<close> the
  names and \<open>plain\<close> the records that the store can hold.
\<close>

locale registry_contract =
  fixes ops :: "'s registry_ops"
    and look :: "'s \<Rightarrow> string \<Rightarrow> string \<Rightarrow> InstanceRecord option"
    and live :: "'s \<Rightarrow> bool"
    and good :: "string \<Rightarrow> bool"
    and plain :: "InstanceRecord \<Rightarrow> bool"
  assumes register: "live s \<Longrightarrow> good svc \<Longrightarrow> good iid \<Longrightarrow> plain rec \<Longrightarrow>
      \<exists>s'. rg_RegisterInstance ops svc iid rec s = (None, s') \<and> live s' \<and> look s' svc iid = Some rec \<and>
        (\<forall>a b. good a \<longrightarrow> good b \<longrightarrow> (a, b) \<noteq> (svc, iid) \<longrightarrow> look s' a b = look s a b)"
    and update: "live s \<Longrightarrow> good svc \<Longrightarrow> good iid \<Longrightarrow> look s svc iid = Some rec \<Longrightarrow> plain rec \<Longrightarrow>
      named_state st \<Longrightarrow>
      \<exists>s'. rg_UpdateInstanceState ops svc iid st s = (None, s') \<and> live s' \<and>
        look s' svc iid = Some (rec\<lparr>ir_State := st\<rparr>) \<and>
        (\<forall>a b. good a \<longrightarrow> good b \<longrightarrow> (a, b) \<noteq> (svc, iid) \<longrightarrow> look s' a b = look s a b)"
    and update_absent: "live s \<Longrightarrow> good svc \<Longrightarrow> good iid \<Longrightarrow> look s svc iid = None \<Longrightarrow>
      \<exists>e. rg_UpdateInstanceState ops svc iid st s = (Some e, s)"
    and watch_ok: "live s \<Longrightarrow> rg_WatchMirror ops svc s = None"
    and plain_state: "plain rec \<Longrightarrow> named_state st \<Longrightarrow> plain (rec\<lparr>ir_State := st\<rparr>)"
begin

lemma registerE:
  assumes "live s" "good svc" "good iid" "plain rec"
  obtains s' where "rg_RegisterInstance ops svc iid rec s = (None, s')" "live s'" "look s' svc iid = Some rec"
  using register [OF assms] by blast

lemma updateE:
  assumes "live s" "good svc" "good iid" "look s svc iid = Some rec" "plain rec" "named_state st"
  obtains s' where "rg_UpdateInstanceState ops svc iid st s = (None, s')" "live s'"
    "look s' svc iid = Some (rec\<lparr>ir_State := st\<rparr>)" "plain (rec\<lparr>ir_State := st\<rparr>)"
  using update [OF assms] plain_state [OF assms(5,6)] by blast

text \<open>The last update wins, whatever was stored before.\<close>

lemma update_twice:
  assumes "live s" "good svc" "good iid" "look s svc iid = Some rec" "plain rec"
    "named_state st" "named_state st'"
  shows "\<exists>s1 s2. rg_UpdateInstanceState ops svc iid st s = (None, s1) \<and>
    rg_UpdateInstanceState ops svc iid st' s1 = (None, s2) \<and>
    look s2 svc iid = Some (rec\<lparr>ir_State := st'\<rparr>)"
proof -
  obtain s1 where s1: "rg_UpdateInstanceState ops svc iid st s = (None, s1)" "live s1"
    "look s1 svc iid = Some (rec\<lparr>ir_State := st\<rparr>)" "plain (rec\<lparr>ir_State := st\<rparr>)"
    by (rule updateE [OF assms(1-6)])
  obtain s2 where "rg_UpdateInstanceState ops svc iid st' s1 = (None, s2)"
    "look s2 svc iid = Some (rec\<lparr>ir_State := st, ir_State := st'\<rparr>)"
    by (rule updateE [OF s1(2) assms(2,3) s1(3,4) assms(7)])
  then show ?thesis using s1(1) by auto
qed

end

section \<open>The in-memory registry\<close>

record MemoryRegistry =
  mr_instances :: "string \<rightharpoonup> InstanceRecord"
  mr_mirror :: MirrorConfig
  mr_watchCh :: "MirrorConfig list"   \<comment> \<open>buffered channel, oldest first\<close>

definition chan_cap :: nat where "chan_cap = 8"

definition NewMemoryRegistry :: MemoryRegistry where
  "NewMemoryRegistry = \<lparr>mr_instances = Map.empty, mr_mirror = empty_mirror, mr_watchCh = []\<rparr>"

definition mr_key :: "string \<Rightarrow> string \<Rightarrow> string" where
  "mr_key service iid = service @ ''/'' @ iid"

definition mr_RegisterInstance ::
  "string \<Rightarrow> string \<Rightarrow> InstanceRecord \<Rightarrow> MemoryRegistry \<Rightarrow> reg_error option \<times> MemoryRegistry" where
  "mr_RegisterInstance service instanceID rec m =
     (None, m\<lparr>mr_instances := (mr_instances m)(mr_key service instanceID \<mapsto> rec)\<rparr>)"

definition mr_UpdateInstanceState ::
  "string \<Rightarrow> string \<Rightarrow> State \<Rightarrow> MemoryRegistry \<Rightarrow> reg_error option \<times> MemoryRegistry" where
  "mr_UpdateInstanceState service instanceID state m =
     (let k = mr_key service instanceID
      in case mr_instances m k of
           None \<Rightarrow> (Some InstanceNotFound, m)
         | Some rec \<Rightarrow> (None, m\<lparr>mr_instances := (mr_instances m)(k \<mapsto> rec\<lparr>ir_State := state\<rparr>)\<rparr>))"

text \<open>
  \<open>SetMirror\<close> stores the configuration under the lock and then, outside it, offers it to the watch
  channel without blocking.
\<close>

definition mr_store :: "MirrorConfig \<Rightarrow> MemoryRegistry \<Rightarrow> MemoryRegistry" where
  "mr_store cfg m = m\<lparr>mr_mirror := cfg\<rparr>"

definition mr_offer :: "MirrorConfig \<Rightarrow> MemoryRegistry \<Rightarrow> MemoryRegistry" where
  "mr_offer cfg m =
     (if length (mr_watchCh m) < chan_cap then m\<lparr>mr_watchCh := mr_watchCh m @ [cfg]\<rparr> else m)"

definition mr_SetMirror :: "MirrorConfig \<Rightarrow> MemoryRegistry \<Rightarrow> MemoryRegistry" where
  "mr_SetMirror cfg m = mr_offer cfg (mr_store cfg m)"

definition memory_ops :: "MemoryRegistry registry_ops" where
  "memory_ops = \<lparr>rg_RegisterInstance = mr_RegisterInstance,
     rg_UpdateInstanceState = mr_UpdateInstanceState,
     rg_WatchMirror = (\<lambda>service m. None), rg_Close = (\<lambda>m. (None, m))\<rparr>"

definition no_slash :: "string \<Rightarrow> bool" where
  "no_slash s \<longleftrightarrow> CHR ''/'' \<notin> set s"

declare in_i64_def [wf_simps] no_slash_def [wf_simps]

lemma mr_key_inject:
  assumes "no_slash a" and "no_slash c"
  shows "mr_key a b = mr_key c d \<longleftrightarrow> a = c \<and> b = d"
proof
  assume eq: "mr_key a b = mr_key c d"
  then have "Split (CHR ''/'') (mr_key a b) = Split (CHR ''/'') (mr_key c d)"
    by simp
  then have "a = c"
    using assms by (simp add: mr_key_def Split_prefix no_slash_def)
  then show "a = c \<and> b = d"
    using eq by (simp add: mr_key_def)
qed simp

lemmas memory_defs = memory_ops_def mr_RegisterInstance_def mr_UpdateInstanceState_def Let_def

interpretation mem: registry_contract memory_ops "\<lambda>m svc iid. mr_instances m (mr_key svc iid)"
  "\<lambda>_. True" no_slash "\<lambda>_. True"
  by unfold_locales (auto simp: memory_defs mr_key_inject)

subsection \<open>The forwarding goroutine of WatchMirror\<close>

text \<open>
  \<open>WatchMirror\<close> of the in-memory registry starts a goroutine that sends the stored configuration
  and then forwards the watch channel to its own buffered channel. Its control points are reading
  the stored configuration, sending, receiving, and returned. Each event lets one party take one
  atomic action: the goroutine, its consumer, a caller of \<open>SetMirror\<close> (its store or its offer), or
  a cancelled context; a blocked action changes nothing.
\<close>

datatype mw_pc = MwRead | MwSend MirrorConfig | MwRecv | MwDone

record mem_watch =
  mw_reg :: MemoryRegistry
  mw_pc :: mw_pc
  mw_out :: "MirrorConfig list"
  mw_received :: "MirrorConfig list"    \<comment> \<open>history: what the consumer has taken\<close>
  mw_offered :: "MirrorConfig list"     \<comment> \<open>history: the first read and the accepted offers\<close>

datatype mw_event = MwGo | MwConsume | MwCancel | MwStore MirrorConfig | MwOffer MirrorConfig

definition mw_start :: "MemoryRegistry \<Rightarrow> mem_watch" where
  "mw_start m = \<lparr>mw_reg = m, mw_pc = MwRead, mw_out = [], mw_received = [],
     mw_offered = mr_watchCh m\<rparr>"

fun mw_step :: "mw_event \<Rightarrow> mem_watch \<Rightarrow> mem_watch" where
  "mw_step MwGo w =
     (case mw_pc w of
        MwRead \<Rightarrow> w\<lparr>mw_pc := MwSend (mr_mirror (mw_reg w)),
                    mw_offered := mr_mirror (mw_reg w) # mw_offered w\<rparr>
      | MwSend c \<Rightarrow> if length (mw_out w) < chan_cap
                   then w\<lparr>mw_out := mw_out w @ [c], mw_pc := MwRecv\<rparr> else w
      | MwRecv \<Rightarrow> (case mr_watchCh (mw_reg w) of
            [] \<Rightarrow> w
          | c # cs \<Rightarrow> w\<lparr>mw_reg := (mw_reg w)\<lparr>mr_watchCh := cs\<rparr>, mw_pc := MwSend c\<rparr>)
      | MwDone \<Rightarrow> w)"
| "mw_step MwConsume w =
     (case mw_out w of
        [] \<Rightarrow> w
      | c # cs \<Rightarrow> w\<lparr>mw_out := cs, mw_received := mw_received w @ [c]\<rparr>)"
| "mw_step MwCancel w = (if mw_pc w = MwRead then w else w\<lparr>mw_pc := MwDone\<rparr>)"
| "mw_step (MwStore cfg) w = w\<lparr>mw_reg := mr_store cfg (mw_reg w)\<rparr>"
| "mw_step (MwOffer cfg) w =
     w\<lparr>mw_reg := mr_offer cfg (mw_reg w),
       mw_offered := mw_offered w @
         (if length (mr_watchCh (mw_reg w)) < chan_cap then [cfg] else [])\<rparr>"

fun mw_held :: "mw_pc \<Rightarrow> MirrorConfig list" where
  "mw_held (MwSend c) = [c]"
| "mw_held pc = []"

definition mw_inv :: "mem_watch \<Rightarrow> bool" where
  "mw_inv w \<longleftrightarrow>
     length (mw_out w) \<le> chan_cap \<and> length (mr_watchCh (mw_reg w)) \<le> chan_cap \<and>
     (mw_pc w \<noteq> MwDone \<longrightarrow>
        mw_received w @ mw_out w @ mw_held (mw_pc w) @ mr_watchCh (mw_reg w) = mw_offered w) \<and>
     (\<exists>rest. mw_received w @ mw_out w @ rest = mw_offered w)"

lemma mw_inv_start: "length (mr_watchCh m) \<le> chan_cap \<Longrightarrow> mw_inv (mw_start m)"
  by (simp add: mw_inv_def mw_start_def)

lemma mw_inv_go:
  assumes "mw_inv w" "mw_pc w = MwRead \<longrightarrow> mw_received w = [] \<and> mw_out w = []"
  shows "mw_inv (mw_step MwGo w)"
proof (cases "mw_pc w")
  case MwRead
  then show ?thesis using assms by (auto simp: mw_inv_def)
next
  case (MwSend c)
  then show ?thesis using assms by (force simp: mw_inv_def)
next
  case MwRecv
  then show ?thesis using assms by (force simp: mw_inv_def split: list.splits)
next
  case MwDone
  then show ?thesis using assms by simp
qed

text \<open>Before the first read nothing has been sent.\<close>

definition mw_good :: "mem_watch \<Rightarrow> bool" where
  "mw_good w \<longleftrightarrow> mw_inv w \<and> (mw_pc w = MwRead \<longrightarrow> mw_received w = [] \<and> mw_out w = [])"

lemma mw_good_step: "mw_good w \<Longrightarrow> mw_good (mw_step e w)"
proof (cases e)
  case MwGo
  assume "mw_good w"
  then show ?thesis
    unfolding MwGo using mw_inv_go [of w]
    by (auto simp: mw_good_def split: mw_pc.splits list.splits)
next
  case MwConsume
  assume "mw_good w"
  then show ?thesis
    by (auto simp: MwConsume mw_good_def mw_inv_def split: list.splits)
next
  case MwCancel
  assume "mw_good w"
  then show ?thesis
    by (auto simp: MwCancel mw_good_def mw_inv_def)
next
  case (MwStore cfg)
  assume "mw_good w"
  then show ?thesis
    by (simp add: MwStore mw_good_def mw_inv_def mr_store_def)
next
  case (MwOffer cfg)
  assume "mw_good w"
  then show ?thesis
    by (auto simp: MwOffer mw_good_def mw_inv_def mr_offer_def) (metis append_assoc)+
qed

interpretation watch: step_invariant mw_step mw_good
  by unfold_locales (rule mw_good_step)



end
