(* ===== verification/ZkRegistry.thy ===== *)
theory ZkRegistry
  imports Registry
begin

text \<open>
  The ZooKeeper registry of warmkit/registry.go. The client library is a record of its operations
  on an abstract session state \<open>'z\<close>; node contents are an abstract type \<open>'b\<close> that only the JSON
  codec reads. \<open>zk_reliable\<close> and \<open>codec_ok\<close> state the documented behaviour of a connected session
  and of \<open>encoding/json\<close>; under them the operations meet the registry contract and the mirror
  configuration survives a write and a read.
\<close>

section \<open>The client library and the codec as parameters\<close>

record ('z, 'b) zk_conn =
  zk_exists :: "string \<Rightarrow> 'z \<Rightarrow> zk_error + bool"
  zk_get :: "string \<Rightarrow> 'z \<Rightarrow> zk_error + ('b \<times> int)"
  zk_create :: "string \<Rightarrow> 'b \<Rightarrow> bool \<Rightarrow> 'z \<Rightarrow> zk_error option \<times> 'z"
  zk_set :: "string \<Rightarrow> 'b \<Rightarrow> int \<Rightarrow> 'z \<Rightarrow> zk_error option \<times> 'z"
  zk_close :: "'z \<Rightarrow> 'z"

record 'b codec =
  cd_nil :: 'b
  cd_is_empty :: "'b \<Rightarrow> bool"
  cd_enc_inst :: "InstanceRecord \<Rightarrow> 'b option"
  cd_dec_inst :: "'b \<Rightarrow> InstanceRecord option"
  cd_enc_mirror :: "MirrorConfig \<Rightarrow> 'b option"
  cd_dec_mirror :: "'b \<Rightarrow> MirrorConfig \<times> bool"   \<comment> \<open>the value as far as decoded, and success\<close>

section \<open>Operations\<close>

text \<open>The loop of \<open>ensurePath\<close> over the path components, with the path built so far.\<close>

fun ensure_parts :: "('z, 'b) zk_conn \<Rightarrow> 'b codec \<Rightarrow> string \<Rightarrow> string list \<Rightarrow> 'z \<Rightarrow> zk_error option \<times> 'z" where
  "ensure_parts c j cur [] z = (None, z)"
| "ensure_parts c j cur (p # ps) z =
     (let cur = cur @ ''/'' @ p
      in case zk_exists c cur z of
           Inl e \<Rightarrow> (Some e, z)
         | Inr True \<Rightarrow> ensure_parts c j cur ps z
         | Inr False \<Rightarrow>
             (case zk_create c cur (cd_nil j) False z of
                (None, z') \<Rightarrow> ensure_parts c j cur ps z'
              | (Some e, z') \<Rightarrow> if e = ErrNodeExists then ensure_parts c j cur ps z' else (Some e, z')))"

definition ensurePath :: "('z, 'b) zk_conn \<Rightarrow> 'b codec \<Rightarrow> string \<Rightarrow> 'z \<Rightarrow> zk_error option \<times> 'z" where
  "ensurePath c j path z = ensure_parts c j [] (Split (CHR ''/'') (TrimSlash path)) z"

definition zk_RegisterInstance :: "('z, 'b) zk_conn \<Rightarrow> 'b codec \<Rightarrow>
    string \<Rightarrow> string \<Rightarrow> InstanceRecord \<Rightarrow> 'z \<Rightarrow> reg_error option \<times> 'z" where
  "zk_RegisterInstance c j service instanceID rec z =
     (let base = ''/services/'' @ service @ ''/instances''
      in case ensurePath c j base z of
           (Some e, z1) \<Rightarrow> (Some (RegZk e), z1)
         | (None, z1) \<Rightarrow>
             (let path = base @ ''/'' @ instanceID
              in case cd_enc_inst j rec of
                   None \<Rightarrow> (Some RegJson, z1)
                 | Some b \<Rightarrow>
                     (case zk_create c path b True z1 of
                        (None, z2) \<Rightarrow> (None, z2)
                      | (Some e, z2) \<Rightarrow>
                          if e = ErrNodeExists
                          then (case zk_set c path b (- 1) z2 of
                                  (None, z3) \<Rightarrow> (None, z3)
                                | (Some e', z3) \<Rightarrow> (Some (RegZk e'), z3))
                          else (Some (RegZk e), z2))))"

definition instance_path :: "string \<Rightarrow> string \<Rightarrow> string" where
  "instance_path service instanceID = ''/services/'' @ service @ ''/instances/'' @ instanceID"

definition zk_UpdateInstanceState :: "('z, 'b) zk_conn \<Rightarrow> 'b codec \<Rightarrow>
    string \<Rightarrow> string \<Rightarrow> State \<Rightarrow> 'z \<Rightarrow> reg_error option \<times> 'z" where
  "zk_UpdateInstanceState c j service instanceID state z =
     (let path = instance_path service instanceID
      in case zk_get c path z of
           Inl e \<Rightarrow> (Some (RegZk e), z)
         | Inr (b, version) \<Rightarrow>
             (case cd_dec_inst j b of
                None \<Rightarrow> (Some RegJson, z)
              | Some rec \<Rightarrow>
                  (case cd_enc_inst j (rec\<lparr>ir_State := state\<rparr>) of
                     None \<Rightarrow> (Some RegJson, z)
                   | Some nb \<Rightarrow>
                       (case zk_set c path nb version z of
                          (None, z') \<Rightarrow> (None, z')
                        | (Some e, z') \<Rightarrow> (Some (RegZk e), z')))))"

text \<open>
  \<open>WatchMirror\<close> returns a channel and no error; its goroutine turns each successful \<open>GetW\<close> into one
  configuration, and after a failed one sleeps and tries again. The bytes are decoded with the
  decoding error ignored, and empty contents are the zero value.
\<close>

definition watch_decode :: "'b codec \<Rightarrow> 'b \<Rightarrow> MirrorConfig" where
  "watch_decode j b = (if cd_is_empty j b then empty_mirror else fst (cd_dec_mirror j b))"

fun zk_watch_stream :: "'b codec \<Rightarrow> (zk_error + 'b) list \<Rightarrow> MirrorConfig list" where
  "zk_watch_stream j [] = []"
| "zk_watch_stream j (Inl e # rs) = zk_watch_stream j rs"
| "zk_watch_stream j (Inr b # rs) = watch_decode j b # zk_watch_stream j rs"

definition zk_ops :: "('z, 'b) zk_conn \<Rightarrow> 'b codec \<Rightarrow> 'z registry_ops" where
  "zk_ops c j = \<lparr>rg_RegisterInstance = zk_RegisterInstance c j,
     rg_UpdateInstanceState = zk_UpdateInstanceState c j,
     rg_WatchMirror = (\<lambda>service z. None), rg_Close = (\<lambda>z. (None, zk_close c z))\<rparr>"

text \<open>\<open>RegisterActive\<close> after a successful connection, which it closes when registering fails; \<open>now\<close> is \<open>time.Now().UnixMilli()\<close>.\<close>

definition RegisterActive :: "('z, 'b) zk_conn \<Rightarrow> 'b codec \<Rightarrow> int \<Rightarrow> string \<Rightarrow> string \<Rightarrow> string \<Rightarrow>
    'z \<Rightarrow> reg_error option \<times> 'z" where
  "RegisterActive c j now service instanceID addr z =
     (case zk_RegisterInstance c j service instanceID
         \<lparr>ir_Addr = addr, ir_State = StateActive, ir_Role = ''active'', ir_StartedAt = now\<rparr> z of
        (None, z1) \<Rightarrow> (None, z1)
      | (Some e, z1) \<Rightarrow> (Some e, zk_close c z1))"

definition mirror_path :: "string \<Rightarrow> string" where
  "mirror_path service = ''/config/'' @ service @ ''/mirror''"

definition WriteMirrorConfig :: "('z, 'b) zk_conn \<Rightarrow> 'b codec \<Rightarrow> int \<Rightarrow> string \<Rightarrow> MirrorConfig \<Rightarrow>
    'z \<Rightarrow> reg_error option \<times> 'z" where
  "WriteMirrorConfig c j now service cfg z =
     (case ensurePath c j (''/config/'' @ service) z of
        (Some e, z1) \<Rightarrow> (Some (RegZk e), z1)
      | (None, z1) \<Rightarrow>
          (case cd_enc_mirror j (cfg\<lparr>mc_UpdatedAtUnixMilli := now\<rparr>) of
             None \<Rightarrow> (Some RegJson, z1)
           | Some b \<Rightarrow>
               (case zk_exists c (mirror_path service) z1 of
                  Inl e \<Rightarrow> (Some (RegZk e), z1)
                | Inr False \<Rightarrow>
                    (case zk_create c (mirror_path service) b False z1 of
                       (None, z2) \<Rightarrow> (None, z2)
                     | (Some e, z2) \<Rightarrow> (Some (RegZk e), z2))
                | Inr True \<Rightarrow>
                    (case zk_set c (mirror_path service) b (- 1) z1 of
                       (None, z2) \<Rightarrow> (None, z2)
                     | (Some e, z2) \<Rightarrow> (Some (RegZk e), z2)))))"

definition ReadMirrorConfig :: "('z, 'b) zk_conn \<Rightarrow> 'b codec \<Rightarrow> string \<Rightarrow> 'z \<Rightarrow>
    MirrorConfig \<times> reg_error option" where
  "ReadMirrorConfig c j service z =
     (case zk_get c (mirror_path service) z of
        Inl e \<Rightarrow> (empty_mirror, Some (RegZk e))
      | Inr (b, version) \<Rightarrow>
          if cd_is_empty j b then (empty_mirror, None)
          else (case cd_dec_mirror j b of (cfg, ok) \<Rightarrow> (cfg, if ok then None else Some RegJson)))"

section \<open>Documented behaviour of the parameters\<close>

record 'b znode =
  zn_data :: 'b
  zn_version :: int
  zn_ephemeral :: bool

text \<open>Path components that ZooKeeper accepts, and the path they make.\<close>

definition part_ok :: "string \<Rightarrow> bool" where
  "part_ok p \<longleftrightarrow> p \<noteq> [] \<and> no_slash p \<and> p \<noteq> ''.'' \<and> p \<noteq> ''..''"

definition parts_ok :: "string list \<Rightarrow> bool" where
  "parts_ok ps \<longleftrightarrow> ps \<noteq> [] \<and> list_all part_ok ps"

definition path_of :: "string list \<Rightarrow> string" where
  "path_of ps = concat (map (\<lambda>p. ''/'' @ p) ps)"

text \<open>
  A connected session: \<open>view\<close> is the tree of nodes by their path components. A node is created once,
  under an existing parent that is not ephemeral; a write needs the node and its version or \<open>-1\<close>.
\<close>

definition zk_reliable :: "('z, 'b) zk_conn \<Rightarrow> ('z \<Rightarrow> string list \<Rightarrow> 'b znode option) \<Rightarrow> ('z \<Rightarrow> bool) \<Rightarrow> bool" where
  "zk_reliable c view alive \<longleftrightarrow>
     (\<forall>z ps. alive z \<longrightarrow> parts_ok ps \<longrightarrow>
        zk_exists c (path_of ps) z = Inr (view z ps \<noteq> None) \<and>
        zk_get c (path_of ps) z =
          (case view z ps of None \<Rightarrow> Inl ErrNoNode | Some n \<Rightarrow> Inr (zn_data n, zn_version n)) \<and>
        (\<forall>b eph. view z ps \<noteq> None \<longrightarrow> zk_create c (path_of ps) b eph z = (Some ErrNodeExists, z)) \<and>
        (\<forall>b eph. view z ps = None \<longrightarrow>
           (butlast ps = [] \<or> (\<exists>n. view z (butlast ps) = Some n \<and> \<not> zn_ephemeral n)) \<longrightarrow>
           (\<exists>z'. zk_create c (path_of ps) b eph z = (None, z') \<and> alive z' \<and>
              view z' = (view z)(ps \<mapsto> \<lparr>zn_data = b, zn_version = 0, zn_ephemeral = eph\<rparr>))) \<and>
        (\<forall>b v. view z ps = None \<longrightarrow> zk_set c (path_of ps) b v z = (Some ErrNoNode, z)) \<and>
        (\<forall>b v n. view z ps = Some n \<longrightarrow> (v = - 1 \<or> v = zn_version n) \<longrightarrow>
           (\<exists>z'. zk_set c (path_of ps) b v z = (None, z') \<and> alive z' \<and>
              view z' = (view z)(ps \<mapsto> n\<lparr>zn_data := b, zn_version := zn_version n + 1\<rparr>))))"

text \<open>ASCII text, which JSON strings carry unchanged.\<close>

definition ascii :: "string \<Rightarrow> bool" where
  "ascii s \<longleftrightarrow> list_all (\<lambda>ch. (of_char ch :: nat) < 128) s"

definition plain_inst :: "InstanceRecord \<Rightarrow> bool" where
  "plain_inst r \<longleftrightarrow> ascii (ir_Addr r) \<and> named_state (ir_State r) \<and> ascii (ir_Role r) \<and>
     in_i64 (ir_StartedAt r)"

declare part_ok_def [wf_simps] ascii_def [wf_simps] plain_inst_def [wf_simps]

definition plain_mirror :: "MirrorConfig \<Rightarrow> bool" where
  "plain_mirror m \<longleftrightarrow> is_finite (mc_Ratio m) \<and> is_f64 (mc_Ratio m) \<and> ascii (mc_TargetInstanceID m) \<and>
     ascii (mc_ActiveInstanceID m) \<and> ascii (mc_SessionID m) \<and> in_i64 (mc_UpdatedAtUnixMilli m)"

text \<open>
  \<open>json.Unmarshal\<close> reads back what \<open>json.Marshal\<close> wrote, and a number that is not finite cannot be
  marshalled.
\<close>

definition codec_ok :: "'b codec \<Rightarrow> bool" where
  "codec_ok j \<longleftrightarrow>
     (\<forall>r. plain_inst r \<longrightarrow> (\<exists>b. cd_enc_inst j r = Some b \<and> \<not> cd_is_empty j b \<and> cd_dec_inst j b = Some r)) \<and>
     (\<forall>m. plain_mirror m \<longrightarrow>
        (\<exists>b. cd_enc_mirror j m = Some b \<and> \<not> cd_is_empty j b \<and> cd_dec_mirror j b = (m, True))) \<and>
     (\<forall>m. \<not> is_finite (mc_Ratio m) \<longrightarrow> cd_enc_mirror j m = None)"

section \<open>Paths\<close>

lemma path_of_Join: "ps \<noteq> [] \<Longrightarrow> path_of ps = ''/'' @ Join ''/'' ps"
  by (induction "''/''" ps rule: Join.induct) (simp_all add: path_of_def)

lemma path_of_append: "path_of (ps @ qs) = path_of ps @ path_of qs"
  by (simp add: path_of_def)

lemma parts_ok_snoc: "parts_ok (ps @ [p]) \<longleftrightarrow> part_ok p \<and> (ps = [] \<or> parts_ok ps)"
  by (auto simp: parts_ok_def)

lemma part_ok_edges:
  assumes "part_ok p"
  shows "\<exists>x xs. p = x # xs \<and> x \<noteq> CHR ''/''" and "\<exists>x xs. p = xs @ [x] \<and> x \<noteq> CHR ''/''"
  using assms by (cases p, auto simp: wf_simps) (cases p rule: rev_cases, auto)

lemma TrimSlash_edges:
  assumes "x \<noteq> CHR ''/''" and "y \<noteq> CHR ''/''" and "x # xs = ys @ [y]"
  shows "TrimSlash (CHR ''/'' # x # xs) = x # xs"
proof -
  have left: "dropWhile (\<lambda>c. c = CHR ''/'') (CHR ''/'' # x # xs) = x # xs"
    using assms(1) by simp
  show ?thesis
    unfolding TrimSlash_def left unfolding assms(3) using assms(2) by simp
qed

lemma Join_edges:
  assumes "parts_ok ps"
  shows "\<exists>x xs. Join ''/'' ps = x # xs \<and> x \<noteq> CHR ''/''"
    and "\<exists>y ys. Join ''/'' ps = ys @ [y] \<and> y \<noteq> CHR ''/''"
proof -
  have "ps \<noteq> []" "list_all part_ok ps"
    using assms by (simp_all add: parts_ok_def)
  then show "\<exists>x xs. Join ''/'' ps = x # xs \<and> x \<noteq> CHR ''/''"
    by (induction "''/''" ps rule: Join.induct) (auto dest: part_ok_edges(1))
  from \<open>ps \<noteq> []\<close> \<open>list_all part_ok ps\<close> show "\<exists>y ys. Join ''/'' ps = ys @ [y] \<and> y \<noteq> CHR ''/''"
  proof (induction "''/''" ps rule: Join.induct)
    case (2 p)
    then show ?case using part_ok_edges(2) [of p] by auto
  next
    case (3 p q ps)
    then obtain y ys where "Join ''/'' (q # ps) = ys @ [y]" "y \<noteq> CHR ''/''"
      by auto
    then have "Join ''/'' (p # q # ps) = (p @ ''/'' @ ys) @ [y]"
      by simp
    then show ?case using \<open>y \<noteq> CHR ''/''\<close> by blast
  qed simp
qed

lemma Split_path_of:
  assumes "parts_ok ps"
  shows "Split (CHR ''/'') (TrimSlash (path_of ps)) = ps"
proof -
  obtain x xs where x: "Join ''/'' ps = x # xs" "x \<noteq> CHR ''/''"
    using Join_edges(1) [OF assms] by blast
  obtain y ys where y: "Join ''/'' ps = ys @ [y]" "y \<noteq> CHR ''/''"
    using Join_edges(2) [OF assms] by blast
  have ps: "ps \<noteq> []" "\<forall>p \<in> set ps. CHR ''/'' \<notin> set p"
    using assms by (auto simp: parts_ok_def wf_simps list_all_iff)
  have "TrimSlash (path_of ps) = Join ''/'' ps"
    using x y TrimSlash_edges [of x y xs ys] by (simp add: path_of_Join [OF ps(1)])
  then show ?thesis
    using Split_Join [OF ps] by simp
qed

lemma path_of_inject: "parts_ok ps \<Longrightarrow> parts_ok qs \<Longrightarrow> path_of ps = path_of qs \<longleftrightarrow> ps = qs"
  by (metis Split_path_of)

lemma static_parts_ok [simp]:
  "part_ok ''services''" "part_ok ''instances''" "part_ok ''config''" "part_ok ''mirror''"
  by (simp_all add: wf_simps)

lemma instance_path_of: "instance_path svc iid = path_of [''services'', svc, ''instances'', iid]"
  by (simp add: instance_path_def path_of_def)

lemma mirror_path_of: "mirror_path svc = path_of [''config'', svc, ''mirror'']"
  by (simp add: mirror_path_def path_of_def)

section \<open>ensurePath\<close>

text \<open>The directories of the tree, the paths of at most three components, are persistent.\<close>

definition zk_live :: "('z \<Rightarrow> string list \<Rightarrow> 'b znode option) \<Rightarrow> ('z \<Rightarrow> bool) \<Rightarrow> 'z \<Rightarrow> bool" where
  "zk_live view alive z \<longleftrightarrow> alive z \<and>
     (\<forall>ps n. length ps \<le> 3 \<longrightarrow> view z ps = Some n \<longrightarrow> \<not> zn_ephemeral n)"

text \<open>A step that only adds nodes on the way to a path.\<close>

definition grows :: "string list \<Rightarrow> (string list \<Rightarrow> 'b znode option) \<Rightarrow> (string list \<Rightarrow> 'b znode option) \<Rightarrow> bool" where
  "grows qs v v' \<longleftrightarrow> (\<forall>ps n. v ps = Some n \<longrightarrow> v' ps = Some n) \<and>
     (\<forall>ps. take (length ps) qs \<noteq> ps \<longrightarrow> v' ps = v ps)"

lemma grows_refl [simp]: "grows qs v v"
  by (simp add: grows_def)

lemma grows_trans: "grows qs u v \<Longrightarrow> grows qs v w \<Longrightarrow> grows qs u w"
  by (simp add: grows_def)

lemma grows_new: "v ps = None \<Longrightarrow> take (length ps) qs = ps \<Longrightarrow> grows qs v (v(ps \<mapsto> n))"
  by (auto simp: grows_def)

lemma grows_long:
  assumes "grows qs v v'" "length qs < length ps"
  shows "v' ps = v ps"
proof -
  have "take (length ps) qs = qs" "qs \<noteq> ps"
    using assms(2) by auto
  then show ?thesis using assms(1) by (simp add: grows_def)
qed

lemma grows_head:
  assumes "grows qs v v'" "ps \<noteq> []" "hd ps \<noteq> hd qs"
  shows "v' ps = v ps"
proof -
  have "take (length ps) qs \<noteq> ps"
    using assms(2,3) by (cases ps; cases qs) auto
  then show ?thesis using assms(1) by (simp add: grows_def)
qed

lemma zk_reliableD:
  assumes "zk_reliable c view alive" "alive z" "parts_ok ps"
  shows "zk_exists c (path_of ps) z = Inr (view z ps \<noteq> None)"
    and "zk_get c (path_of ps) z =
          (case view z ps of None \<Rightarrow> Inl ErrNoNode | Some n \<Rightarrow> Inr (zn_data n, zn_version n))"
    and "view z ps \<noteq> None \<Longrightarrow> zk_create c (path_of ps) b eph z = (Some ErrNodeExists, z)"
    and "view z ps = None \<Longrightarrow>
           butlast ps = [] \<or> (\<exists>n. view z (butlast ps) = Some n \<and> \<not> zn_ephemeral n) \<Longrightarrow>
           \<exists>z'. zk_create c (path_of ps) b eph z = (None, z') \<and> alive z' \<and>
              view z' = (view z)(ps \<mapsto> \<lparr>zn_data = b, zn_version = 0, zn_ephemeral = eph\<rparr>)"
    and "view z ps = Some n \<Longrightarrow> v = - 1 \<or> v = zn_version n \<Longrightarrow>
           \<exists>z'. zk_set c (path_of ps) b v z = (None, z') \<and> alive z' \<and>
              view z' = (view z)(ps \<mapsto> n\<lparr>zn_data := b, zn_version := zn_version n + 1\<rparr>)"
proof -
  note at = assms(1) [unfolded zk_reliable_def, rule_format, OF assms(2,3)]
  show "zk_exists c (path_of ps) z = Inr (view z ps \<noteq> None)"
    using at by (elim conjE)
  show "zk_get c (path_of ps) z =
          (case view z ps of None \<Rightarrow> Inl ErrNoNode | Some n \<Rightarrow> Inr (zn_data n, zn_version n))"
    using at by (elim conjE)
  show "zk_create c (path_of ps) b eph z = (Some ErrNodeExists, z)" if "view z ps \<noteq> None"
    using at that by (elim conjE) (erule allE, erule allE, erule impE)
  show "\<exists>z'. zk_create c (path_of ps) b eph z = (None, z') \<and> alive z' \<and>
              view z' = (view z)(ps \<mapsto> \<lparr>zn_data = b, zn_version = 0, zn_ephemeral = eph\<rparr>)"
    if "view z ps = None" "butlast ps = [] \<or> (\<exists>n. view z (butlast ps) = Some n \<and> \<not> zn_ephemeral n)"
    using at that by (elim conjE) simp
  show "\<exists>z'. zk_set c (path_of ps) b v z = (None, z') \<and> alive z' \<and>
              view z' = (view z)(ps \<mapsto> n\<lparr>zn_data := b, zn_version := zn_version n + 1\<rparr>)"
    if "view z ps = Some n" "v = - 1 \<or> v = zn_version n"
  proof -
    have "\<forall>b v n. view z ps = Some n \<longrightarrow> (v = - 1 \<or> v = zn_version n) \<longrightarrow>
           (\<exists>z'. zk_set c (path_of ps) b v z = (None, z') \<and> alive z' \<and>
              view z' = (view z)(ps \<mapsto> n\<lparr>zn_data := b, zn_version := zn_version n + 1\<rparr>))"
      using at by (elim conjE)
    then show ?thesis using that by blast
  qed
qed

lemma zk_live_update:
  assumes "zk_live view alive z" "alive z'" "view z' = (view z)(ps \<mapsto> n)"
    "length ps \<le> 3 \<longrightarrow> \<not> zn_ephemeral n"
  shows "zk_live view alive z'"
  using assms unfolding zk_live_def by auto

lemma zk_live_dir:
  assumes "zk_live view alive z" "view z ps \<noteq> None" "length ps \<le> 3"
  shows "\<exists>n. view z ps = Some n \<and> \<not> zn_ephemeral n"
proof -
  obtain n where "view z ps = Some n" using assms(2) by auto
  then show ?thesis using assms(1,3) by (auto simp: zk_live_def)
qed

text \<open>On a reliable session \<open>ensurePath\<close> succeeds, and all it does is add missing directories.\<close>

lemma ensure_parts_ok:
  assumes "zk_reliable c view alive"
  shows "zk_live view alive z \<Longrightarrow> list_all part_ok (pre @ ps) \<Longrightarrow> length (pre @ ps) \<le> 3 \<Longrightarrow>
    pre = [] \<or> view z pre \<noteq> None \<Longrightarrow>
    \<exists>z'. ensure_parts c j (path_of pre) ps z = (None, z') \<and> zk_live view alive z' \<and>
      grows (pre @ ps) (view z) (view z') \<and> (pre @ ps = [] \<or> view z' (pre @ ps) \<noteq> None)"
proof (induction ps arbitrary: pre z)
  case Nil
  then show ?case by auto
next
  case (Cons p ps)
  let ?q = "pre @ [p]"
  have q: "path_of pre @ ''/'' @ p = path_of ?q"
    by (simp add: path_of_append) (simp add: path_of_def)
  have ok: "parts_ok ?q" and al: "alive z" and len: "length ?q \<le> 3"
    using Cons.prems by (auto simp: parts_ok_def zk_live_def)
  note zk = zk_reliableD [OF assms al ok]
  have go: "\<exists>z'. ensure_parts c j (path_of ?q) ps z1 = (None, z') \<and> zk_live view alive z' \<and>
      grows (pre @ p # ps) (view z1) (view z') \<and> view z' (pre @ p # ps) \<noteq> None"
    if "zk_live view alive z1" "view z1 ?q \<noteq> None" for z1
    using Cons.IH [of z1 ?q] that Cons.prems by simp
  show ?case
  proof (cases "view z ?q = None")
    case False
    then show ?thesis using go [of z] Cons.prems zk(1) q by simp
  next
    case True
    have parent: "butlast ?q = [] \<or> (\<exists>n. view z (butlast ?q) = Some n \<and> \<not> zn_ephemeral n)"
    proof (cases "pre = []")
      case False
      then obtain n where "view z pre = Some n" using Cons.prems(4) by auto
      moreover have "length pre \<le> 3" using Cons.prems(3) by simp
      ultimately show ?thesis using Cons.prems(1) by (auto simp: zk_live_def)
    qed simp
    obtain z1 where z1: "zk_create c (path_of ?q) (cd_nil j) False z = (None, z1)" "alive z1"
      "view z1 = (view z)(?q \<mapsto> \<lparr>zn_data = cd_nil j, zn_version = 0, zn_ephemeral = False\<rparr>)"
      using zk(4) [OF True parent] by blast
    have "zk_live view alive z1"
      by (rule zk_live_update [OF Cons.prems(1) z1(2,3)]) simp
    then obtain z' where z': "ensure_parts c j (path_of ?q) ps z1 = (None, z')" "zk_live view alive z'"
      "grows (pre @ p # ps) (view z1) (view z')" "view z' (pre @ p # ps) \<noteq> None"
      using go [of z1] z1(3) by auto
    have "grows (pre @ p # ps) (view z) (view z1)"
      using True by (simp add: z1(3) grows_new)
    then have "grows (pre @ p # ps) (view z) (view z')"
      using z'(3) by (rule grows_trans)
    then show ?thesis using z' z1(1) True zk(1) q by simp
  qed
qed

lemma ensurePath_ok:
  assumes "zk_reliable c view alive" "zk_live view alive z" "parts_ok ps" "length ps \<le> 3"
  obtains z' where "ensurePath c j (path_of ps) z = (None, z')" "zk_live view alive z'"
    "grows ps (view z) (view z')" "view z' ps \<noteq> None"
proof -
  have "path_of [] = []" "ps \<noteq> []" "list_all part_ok ps"
    using assms(3) by (simp_all add: path_of_def parts_ok_def)
  then show ?thesis
    using ensure_parts_ok [OF assms(1,2), of "[]" ps j] assms(4) that
    by (auto simp: ensurePath_def Split_path_of [OF assms(3)])
qed

section \<open>The contract holds on a reliable session\<close>

definition zk_look :: "('z \<Rightarrow> string list \<Rightarrow> 'b znode option) \<Rightarrow> 'b codec \<Rightarrow> 'z \<Rightarrow> string \<Rightarrow> string \<Rightarrow>
    InstanceRecord option" where
  "zk_look view j z svc iid =
     (case view z [''services'', svc, ''instances'', iid] of
        None \<Rightarrow> None
      | Some n \<Rightarrow> cd_dec_inst j (zn_data n))"

text \<open>The part of the tree that the coordinator writes, which no registry operation touches\<close>

definition config_view :: "('z \<Rightarrow> string list \<Rightarrow> 'b znode option) \<Rightarrow> 'z \<Rightarrow> string list \<Rightarrow> 'b znode option" where
  "config_view view z ps = (if ps \<noteq> [] \<and> hd ps = ''config'' then view z ps else None)"

lemma parts_ok_instance: "part_ok svc \<Longrightarrow> part_ok iid \<Longrightarrow> parts_ok [''services'', svc, ''instances'', iid]"
  by (simp add: parts_ok_def)

lemma zk_register_ok:
  assumes rel: "zk_reliable c view alive" and cd: "codec_ok j" and live: "zk_live view alive z"
    and svc: "part_ok svc" and iid: "part_ok iid" and plain: "plain_inst rec"
  shows "\<exists>z'. zk_RegisterInstance c j svc iid rec z = (None, z') \<and> zk_live view alive z' \<and>
    zk_look view j z' svc iid = Some rec \<and>
    (\<forall>a b. (a, b) \<noteq> (svc, iid) \<longrightarrow> zk_look view j z' a b = zk_look view j z a b) \<and>
    config_view view z' = config_view view z"
proof -
  let ?dir = "[''services'', svc, ''instances'']" and ?ps = "[''services'', svc, ''instances'', iid]"
  have dir: "parts_ok ?dir" "length ?dir \<le> 3"
    using svc by (simp_all add: parts_ok_def)
  obtain z1 where z1: "ensurePath c j (path_of ?dir) z = (None, z1)" "zk_live view alive z1"
      "grows ?dir (view z) (view z1)" "view z1 ?dir \<noteq> None"
    by (rule ensurePath_ok [OF rel live dir])
  have al: "alive z1"
    using z1(2) by (simp add: zk_live_def)
  have same: "view z1 [''services'', a, ''instances'', b] = view z [''services'', a, ''instances'', b]" for a b
    using z1(3) by (simp add: grows_def)
  obtain b where b: "cd_enc_inst j rec = Some b" "cd_dec_inst j b = Some rec"
    using cd plain by (auto simp: codec_ok_def)
  note zk = zk_reliableD [OF rel al parts_ok_instance [OF svc iid]]
  have base: "''/services/'' @ svc @ ''/instances'' = path_of ?dir"
    "path_of ?dir @ ''/'' @ iid = path_of ?ps"
    by (simp_all add: path_of_def)
  have stored: "\<exists>z2. zk_RegisterInstance c j svc iid rec z = (None, z2) \<and> alive z2 \<and>
      (\<exists>n. view z2 = (view z1)(?ps \<mapsto> n) \<and> zn_data n = b)"
  proof (cases "view z1 ?ps")
    case None
    have "\<exists>n. view z1 ?dir = Some n \<and> \<not> zn_ephemeral n"
      using zk_live_dir [of view alive z1 ?dir] z1(2,4) dir(2) by simp
    then obtain z2 where "zk_create c (path_of ?ps) b True z1 = (None, z2)" "alive z2"
      "view z2 = (view z1)(?ps \<mapsto> \<lparr>zn_data = b, zn_version = 0, zn_ephemeral = True\<rparr>)"
      using zk(4) [of b True] None by auto
    then show ?thesis
      using z1(1) b(1) unfolding zk_RegisterInstance_def Let_def base by auto
  next
    case (Some n)
    then obtain z2 where "zk_set c (path_of ?ps) b (- 1) z1 = (None, z2)" "alive z2"
      "view z2 = (view z1)(?ps \<mapsto> n\<lparr>zn_data := b, zn_version := zn_version n + 1\<rparr>)"
      using zk(5) [of n "- 1" b] by auto
    then show ?thesis
      using z1(1) b(1) zk(3) [of b True] Some unfolding zk_RegisterInstance_def Let_def base by auto
  qed
  then obtain z2 n where z2: "zk_RegisterInstance c j svc iid rec z = (None, z2)" "alive z2"
    "view z2 = (view z1)(?ps \<mapsto> n)" "zn_data n = b"
    by blast
  have "zk_live view alive z2"
    by (rule zk_live_update [OF z1(2) z2(2,3)]) simp
  moreover have "config_view view z2 = config_view view z"
  proof
    fix ps
    show "config_view view z2 ps = config_view view z ps"
      using grows_head [OF z1(3), of ps] by (auto simp: config_view_def z2(3))
  qed
  ultimately show ?thesis
    using z2 b(2) same by (auto simp: zk_look_def)
qed

lemma zk_update_ok:
  assumes rel: "zk_reliable c view alive" and cd: "codec_ok j" and live: "zk_live view alive z"
    and svc: "part_ok svc" and iid: "part_ok iid" and look: "zk_look view j z svc iid = Some rec"
    and plain: "plain_inst rec" and st: "named_state st"
  shows "\<exists>z'. zk_UpdateInstanceState c j svc iid st z = (None, z') \<and> zk_live view alive z' \<and>
    zk_look view j z' svc iid = Some (rec\<lparr>ir_State := st\<rparr>) \<and>
    (\<forall>a b. (a, b) \<noteq> (svc, iid) \<longrightarrow> zk_look view j z' a b = zk_look view j z a b) \<and>
    config_view view z' = config_view view z"
proof -
  let ?ps = "[''services'', svc, ''instances'', iid]"
  obtain n where n: "view z ?ps = Some n" "cd_dec_inst j (zn_data n) = Some rec"
    using look by (auto simp: zk_look_def split: option.splits)
  have al: "alive z" using live by (simp add: zk_live_def)
  have "plain_inst (rec\<lparr>ir_State := st\<rparr>)"
    using plain st by (simp add: plain_inst_def)
  then obtain b where b: "cd_enc_inst j (rec\<lparr>ir_State := st\<rparr>) = Some b"
      "cd_dec_inst j b = Some (rec\<lparr>ir_State := st\<rparr>)"
    using cd by (auto simp: codec_ok_def)
  note zk = zk_reliableD [OF rel al parts_ok_instance [OF svc iid]]
  obtain z' where z': "zk_set c (path_of ?ps) b (zn_version n) z = (None, z')" "alive z'"
      "view z' = (view z)(?ps \<mapsto> n\<lparr>zn_data := b, zn_version := zn_version n + 1\<rparr>)"
    using zk(5) [OF n(1), of "zn_version n" b] by blast
  have "zk_live view alive z'"
    by (rule zk_live_update [OF live z'(2,3)]) simp
  moreover have "zk_UpdateInstanceState c j svc iid st z = (None, z')"
    using zk(2) n b(1) z'(1) by (simp add: zk_UpdateInstanceState_def Let_def instance_path_of)
  moreover have "config_view view z' = config_view view z"
    using z'(3) by (auto simp: config_view_def)
  ultimately show ?thesis
    using z'(3) b(2) by (auto simp: zk_look_def)
qed

lemma zk_update_absent:
  assumes rel: "zk_reliable c view alive" and live: "zk_live view alive z"
    and svc: "part_ok svc" and iid: "part_ok iid" and look: "zk_look view j z svc iid = None"
  shows "\<exists>e. zk_UpdateInstanceState c j svc iid st z = (Some e, z)"
proof -
  have "alive z" using live by (simp add: zk_live_def)
  then show ?thesis
    using zk_reliableD(2) [OF rel _ parts_ok_instance [OF svc iid]] look
    by (auto simp: zk_UpdateInstanceState_def Let_def instance_path_of zk_look_def split: option.splits)
qed

lemma zk_contract_keeping:
  assumes "zk_reliable c view alive" and "codec_ok j"
  shows "registry_contract (zk_ops c j) (zk_look view j) (\<lambda>z. zk_live view alive z \<and> Q (config_view view z)) part_ok plain_inst"
proof
  fix s svc iid rec
  assume "zk_live view alive s \<and> Q (config_view view s)" "part_ok svc" "part_ok iid" "plain_inst rec"
  with zk_register_ok [OF assms, of s svc iid rec]
  show "\<exists>s'. rg_RegisterInstance (zk_ops c j) svc iid rec s = (None, s') \<and>
      (zk_live view alive s' \<and> Q (config_view view s')) \<and> zk_look view j s' svc iid = Some rec \<and>
      (\<forall>a b. part_ok a \<longrightarrow> part_ok b \<longrightarrow> (a, b) \<noteq> (svc, iid) \<longrightarrow> zk_look view j s' a b = zk_look view j s a b)"
    by (simp add: zk_ops_def) metis
next
  fix s svc iid rec st
  assume "zk_live view alive s \<and> Q (config_view view s)" "part_ok svc" "part_ok iid" "zk_look view j s svc iid = Some rec"
    "plain_inst rec" "named_state st"
  with zk_update_ok [OF assms, of s svc iid rec st]
  show "\<exists>s'. rg_UpdateInstanceState (zk_ops c j) svc iid st s = (None, s') \<and>
      (zk_live view alive s' \<and> Q (config_view view s')) \<and> zk_look view j s' svc iid = Some (rec\<lparr>ir_State := st\<rparr>) \<and>
      (\<forall>a b. part_ok a \<longrightarrow> part_ok b \<longrightarrow> (a, b) \<noteq> (svc, iid) \<longrightarrow> zk_look view j s' a b = zk_look view j s a b)"
    by (simp add: zk_ops_def) metis
next
  fix s svc iid st
  assume "zk_live view alive s \<and> Q (config_view view s)" "part_ok svc" "part_ok iid" "zk_look view j s svc iid = None"
  then show "\<exists>e. rg_UpdateInstanceState (zk_ops c j) svc iid st s = (Some e, s)"
    using zk_update_absent [OF assms(1), of s svc iid j st] by (simp add: zk_ops_def)
qed (simp_all add: plain_inst_def zk_ops_def)

lemma zk_registry_contract:
  assumes "zk_reliable c view alive" and "codec_ok j"
  shows "registry_contract (zk_ops c j) (zk_look view j) (zk_live view alive) part_ok plain_inst"
  using zk_contract_keeping [OF assms, of "\<lambda>v. True"] by simp

section \<open>The mirror configuration\<close>

text \<open>The three stages of \<open>WriteMirrorConfig\<close> on a reliable session.\<close>

lemma mirror_dir:
  assumes "zk_reliable c view alive" "zk_live view alive z" "part_ok svc"
  obtains z1 n where "ensurePath c j (''/config/'' @ svc) z = (None, z1)" "zk_live view alive z1"
    "grows [''config'', svc] (view z) (view z1)" "view z1 [''config'', svc] = Some n" "\<not> zn_ephemeral n"
proof -
  have dir: "parts_ok [''config'', svc]" "length [''config'', svc] \<le> 3"
    using assms(3) by (simp_all add: parts_ok_def)
  obtain z1 where z1: "ensurePath c j (path_of [''config'', svc]) z = (None, z1)" "zk_live view alive z1"
      "grows [''config'', svc] (view z) (view z1)" "view z1 [''config'', svc] \<noteq> None"
    by (rule ensurePath_ok [OF assms(1,2) dir])
  have "path_of [''config'', svc] = ''/config/'' @ svc" "length [''config'', svc] = 2"
    by (simp_all add: path_of_def)
  then show ?thesis
    using that z1 zk_live_dir [of view alive z1 "[''config'', svc]"] dir(2)
    by (auto simp: numeral_2_eq_2)
qed

lemma mirror_parts_ok: "part_ok svc \<Longrightarrow> parts_ok [''config'', svc, ''mirror'']"
  by (simp add: parts_ok_def)

lemma mirror_stored:
  assumes rel: "zk_reliable c view alive" and live: "zk_live view alive z" and svc: "part_ok svc"
    and enc: "cd_enc_mirror j (cfg\<lparr>mc_UpdatedAtUnixMilli := now\<rparr>) = Some b"
  shows "\<exists>z' n. WriteMirrorConfig c j now svc cfg z = (None, z') \<and> zk_live view alive z' \<and>
    view z' [''config'', svc, ''mirror''] = Some n \<and> zn_data n = b \<and>
    (\<forall>ps. 3 < length ps \<longrightarrow> view z' ps = view z ps)"
proof -
  let ?ps = "[''config'', svc, ''mirror'']"
  obtain z1 d where z1: "ensurePath c j (''/config/'' @ svc) z = (None, z1)" "zk_live view alive z1"
      "grows [''config'', svc] (view z) (view z1)" "view z1 [''config'', svc] = Some d" "\<not> zn_ephemeral d"
    by (rule mirror_dir [OF rel live svc])
  have al: "alive z1"
    using z1(2) by (simp add: zk_live_def)
  note zk = zk_reliableD [OF rel al mirror_parts_ok [OF svc]]
  have "\<exists>z2 n. WriteMirrorConfig c j now svc cfg z = (None, z2) \<and> alive z2 \<and>
      view z2 = (view z1)(?ps \<mapsto> n) \<and> zn_data n = b \<and> \<not> zn_ephemeral n"
  proof (cases "view z1 ?ps")
    case None
    then obtain z2 where "zk_create c (path_of ?ps) b False z1 = (None, z2)" "alive z2"
      "view z2 = (view z1)(?ps \<mapsto> \<lparr>zn_data = b, zn_version = 0, zn_ephemeral = False\<rparr>)"
      using zk(4) [of b False] z1(4,5) by auto
    then show ?thesis
      using z1(1) enc zk(1) None by (auto simp: WriteMirrorConfig_def mirror_path_of)
  next
    case (Some n)
    then obtain z2 where "zk_set c (path_of ?ps) b (- 1) z1 = (None, z2)" "alive z2"
      "view z2 = (view z1)(?ps \<mapsto> n\<lparr>zn_data := b, zn_version := zn_version n + 1\<rparr>)"
      using zk(5) [of n "- 1" b] by auto
    moreover have "\<not> zn_ephemeral n"
      using zk_live_dir [of view alive z1 ?ps] z1(2) Some by simp
    ultimately show ?thesis
      using z1(1) enc zk(1) Some by (auto simp: WriteMirrorConfig_def mirror_path_of)
  qed
  then obtain z2 n where z2: "WriteMirrorConfig c j now svc cfg z = (None, z2)" "alive z2"
      "view z2 = (view z1)(?ps \<mapsto> n)" "zn_data n = b" "\<not> zn_ephemeral n"
    by blast
  have "zk_live view alive z2"
    by (rule zk_live_update [OF z1(2) z2(2,3)]) (simp add: z2(5))
  moreover have "view z2 ps = view z ps" if "3 < length ps" for ps
    using grows_long [OF z1(3), of ps] that by (auto simp: z2(3))
  ultimately show ?thesis using z2 by auto
qed

lemma read_mirror_view:
  assumes "zk_reliable c view alive" "zk_live view alive z" "part_ok svc"
  shows "ReadMirrorConfig c j svc z =
    (case view z [''config'', svc, ''mirror''] of
       None \<Rightarrow> (empty_mirror, Some (RegZk ErrNoNode))
     | Some n \<Rightarrow> if cd_is_empty j (zn_data n) then (empty_mirror, None)
                 else (fst (cd_dec_mirror j (zn_data n)),
                       if snd (cd_dec_mirror j (zn_data n)) then None else Some RegJson))"
proof -
  have "alive z" using assms(2) by (simp add: zk_live_def)
  then show ?thesis
    using zk_reliableD(2) [OF assms(1) _ mirror_parts_ok [OF assms(3)], of z]
    by (auto simp: ReadMirrorConfig_def mirror_path_of split: option.splits prod.splits)
qed

text \<open>A write of a marshallable configuration is read back; every write keeps the session's invariant.\<close>

lemma mirror_write_read:
  assumes rel: "zk_reliable c view alive" and cd: "codec_ok j" and live: "zk_live view alive z"
    and svc: "part_ok svc" and plain: "plain_mirror (cfg\<lparr>mc_UpdatedAtUnixMilli := now\<rparr>)"
  obtains z' b v where "WriteMirrorConfig c j now svc cfg z = (None, z')" "zk_live view alive z'"
    "ReadMirrorConfig c j svc z' = (cfg\<lparr>mc_UpdatedAtUnixMilli := now\<rparr>, None)"
    "zk_get c (mirror_path svc) z' = Inr (b, v)" "watch_decode j b = cfg\<lparr>mc_UpdatedAtUnixMilli := now\<rparr>"
proof -
  let ?m = "cfg\<lparr>mc_UpdatedAtUnixMilli := now\<rparr>"
  obtain b where b: "cd_enc_mirror j ?m = Some b" "\<not> cd_is_empty j b" "cd_dec_mirror j b = (?m, True)"
    using cd plain by (auto simp: codec_ok_def)
  obtain z' n where z': "WriteMirrorConfig c j now svc cfg z = (None, z')" "zk_live view alive z'"
      "view z' [''config'', svc, ''mirror''] = Some n" "zn_data n = b"
    using mirror_stored [OF rel live svc b(1)] by blast
  have "alive z'" using z'(2) by (simp add: zk_live_def)
  then have "zk_get c (mirror_path svc) z' = Inr (b, zn_version n)"
    using zk_reliableD(2) [OF rel _ mirror_parts_ok [OF svc], of z'] z'(3,4)
    by (simp add: mirror_path_of)
  moreover have "ReadMirrorConfig c j svc z' = (?m, None)"
    using z'(3,4) b by (simp add: read_mirror_view [OF rel z'(2) svc])
  ultimately show ?thesis
    using that z'(1,2) b(2,3) by (simp add: watch_decode_def)
qed

lemma mirror_write_live:
  assumes rel: "zk_reliable c view alive" and live: "zk_live view alive z" and svc: "part_ok svc"
  shows "zk_live view alive (snd (WriteMirrorConfig c j now svc cfg z))"
    and "zk_look view j (snd (WriteMirrorConfig c j now svc cfg z)) = zk_look view j z"
proof -
  have "zk_live view alive (snd (WriteMirrorConfig c j now svc cfg z)) \<and>
      (\<forall>ps. 3 < length ps \<longrightarrow> view (snd (WriteMirrorConfig c j now svc cfg z)) ps = view z ps)"
  proof (cases "cd_enc_mirror j (cfg\<lparr>mc_UpdatedAtUnixMilli := now\<rparr>)")
    case None
    obtain z1 d where "ensurePath c j (''/config/'' @ svc) z = (None, z1)" "zk_live view alive z1"
      "grows [''config'', svc] (view z) (view z1)"
      by (rule mirror_dir [OF rel live svc])
    then show ?thesis using None grows_long [of "[''config'', svc]" "view z" "view z1"] by (simp add: WriteMirrorConfig_def)
  next
    case (Some b)
    then show ?thesis using mirror_stored [OF rel live svc Some] by auto
  qed
  then show "zk_live view alive (snd (WriteMirrorConfig c j now svc cfg z))"
    "zk_look view j (snd (WriteMirrorConfig c j now svc cfg z)) = zk_look view j z"
    by (simp_all add: zk_look_def fun_eq_iff)
qed

text \<open>A configuration that cannot be marshalled is refused.\<close>

lemma mirror_write_refused:
  assumes "zk_reliable c view alive" "codec_ok j" "zk_live view alive z" "part_ok svc" "\<not> is_finite (mc_Ratio cfg)"
  obtains z1 where "WriteMirrorConfig c j now svc cfg z = (Some RegJson, z1)"
    "ReadMirrorConfig c j svc z1 = ReadMirrorConfig c j svc z"
proof -
  obtain z1 d where z1: "ensurePath c j (''/config/'' @ svc) z = (None, z1)" "zk_live view alive z1"
      "grows [''config'', svc] (view z) (view z1)" "view z1 [''config'', svc] = Some d"
    by (rule mirror_dir [OF assms(1,3,4)])
  have "view z1 [''config'', svc, ''mirror''] = view z [''config'', svc, ''mirror'']"
    using z1(3) by (simp add: grows_def)
  then have "ReadMirrorConfig c j svc z1 = ReadMirrorConfig c j svc z"
    by (simp add: read_mirror_view [OF assms(1) z1(2) assms(4)] read_mirror_view [OF assms(1,3,4)])
  moreover have "WriteMirrorConfig c j now svc cfg z = (Some RegJson, z1)"
    using assms(2,5) z1(1) by (simp add: WriteMirrorConfig_def codec_ok_def)
  ultimately show thesis using that by blast
qed

section \<open>A store to evaluate on\<close>

text \<open>
  A session on one tree of nodes, and a codec that keeps values as they are: an instance of the
  hypotheses, used by the witnesses.
\<close>

definition path_parts :: "string \<Rightarrow> string list" where
  "path_parts path = Split (CHR ''/'') (TrimSlash path)"

definition tree_conn :: "(string list \<rightharpoonup> 'b znode, 'b) zk_conn" where
  "tree_conn = \<lparr>
     zk_exists = (\<lambda>path z. Inr (z (path_parts path) \<noteq> None)),
     zk_get = (\<lambda>path z. case z (path_parts path) of
        None \<Rightarrow> Inl ErrNoNode | Some n \<Rightarrow> Inr (zn_data n, zn_version n)),
     zk_create = (\<lambda>path b eph z. let ps = path_parts path in
        if z ps \<noteq> None then (Some ErrNodeExists, z)
        else if butlast ps = [] \<or> (case z (butlast ps) of None \<Rightarrow> False | Some n \<Rightarrow> \<not> zn_ephemeral n)
        then (None, z(ps \<mapsto> \<lparr>zn_data = b, zn_version = 0, zn_ephemeral = eph\<rparr>))
        else (Some ErrNoNode, z)),
     zk_set = (\<lambda>path b v z. let ps = path_parts path in
        case z ps of
          None \<Rightarrow> (Some ErrNoNode, z)
        | Some n \<Rightarrow> if v = - 1 \<or> v = zn_version n
                    then (None, z(ps \<mapsto> n\<lparr>zn_data := b, zn_version := zn_version n + 1\<rparr>))
                    else (Some ErrBadVersion, z)),
     zk_close = (\<lambda>z ps. case z ps of
        None \<Rightarrow> None | Some n \<Rightarrow> if zn_ephemeral n then None else Some n)\<rparr>"

definition plain_codec :: "(InstanceRecord + MirrorConfig) option codec" where
  "plain_codec = \<lparr>cd_nil = None, cd_is_empty = (\<lambda>b. b = None),
     cd_enc_inst = (\<lambda>r. Some (Some (Inl r))),
     cd_dec_inst = (\<lambda>b. case b of Some (Inl r) \<Rightarrow> Some r | _ \<Rightarrow> None),
     cd_enc_mirror = (\<lambda>m. if is_finite (mc_Ratio m) then Some (Some (Inr m)) else None),
     cd_dec_mirror = (\<lambda>b. case b of Some (Inr m) \<Rightarrow> (m, True) | _ \<Rightarrow> (empty_mirror, False))\<rparr>"

lemma tree_reliable: "zk_reliable tree_conn (\<lambda>z. z) (\<lambda>_. True)"
  by (auto simp: zk_reliable_def tree_conn_def path_parts_def Split_path_of Let_def split: option.splits)

lemma plain_codec_ok: "codec_ok plain_codec"
  by (auto simp: codec_ok_def plain_codec_def plain_mirror_def)

lemma tree_empty_live: "zk_live (\<lambda>z. z) (\<lambda>_. True) Map.empty"
  by (simp add: zk_live_def)

interpretation tree: registry_contract "zk_ops tree_conn plain_codec" "zk_look (\<lambda>z. z) plain_codec"
  "zk_live (\<lambda>z. z) (\<lambda>_. True)" part_ok plain_inst
  by (rule zk_registry_contract [OF tree_reliable plain_codec_ok])

section \<open>Properties\<close>

text \<open>
  C18: on a reliable session, registering an instance and then updating its state leaves exactly the
  registered record with the new state in the store, whether or not the node existed before, and no
  other instance is touched.
\<close>

theorem zk_register_then_update:
  assumes "zk_reliable c view alive" and "codec_ok j" and "zk_live view alive z"
    and "part_ok svc" and "part_ok iid" and "plain_inst rec" and "named_state st"
  shows "\<exists>z1 z2. zk_RegisterInstance c j svc iid rec z = (None, z1) \<and>
    zk_UpdateInstanceState c j svc iid st z1 = (None, z2) \<and> zk_live view alive z2 \<and>
    zk_look view j z2 svc iid = Some (rec\<lparr>ir_State := st\<rparr>) \<and>
    (\<forall>a b. (a, b) \<noteq> (svc, iid) \<longrightarrow> zk_look view j z2 a b = zk_look view j z a b)"
proof -
  obtain z1 where z1: "zk_RegisterInstance c j svc iid rec z = (None, z1)" "zk_live view alive z1"
      "zk_look view j z1 svc iid = Some rec"
      "\<forall>a b. (a, b) \<noteq> (svc, iid) \<longrightarrow> zk_look view j z1 a b = zk_look view j z a b"
    using zk_register_ok [OF assms(1-6)] by blast
  show ?thesis
    using zk_update_ok [OF assms(1,2) z1(2) assms(4,5) z1(3) assms(6,7)] z1 by auto
qed

theorem zk_register_then_update_witness:
  "\<exists>z1 z2. zk_RegisterInstance tree_conn plain_codec ''svc'' ''i1''
      \<lparr>ir_Addr = ''a:1'', ir_State = StateStarting, ir_Role = ''warmup'', ir_StartedAt = 5\<rparr> Map.empty = (None, z1) \<and>
    zk_UpdateInstanceState tree_conn plain_codec ''svc'' ''i1'' StateReady z1 = (None, z2) \<and>
    zk_look (\<lambda>z. z) plain_codec z2 ''svc'' ''i1'' =
      Some \<lparr>ir_Addr = ''a:1'', ir_State = StateReady, ir_Role = ''warmup'', ir_StartedAt = 5\<rparr>"
proof -
  have "part_ok ''svc''" "part_ok ''i1''" "named_state StateReady"
    "plain_inst \<lparr>ir_Addr = ''a:1'', ir_State = StateStarting, ir_Role = ''warmup'', ir_StartedAt = 5\<rparr>"
    by (simp_all add: wf_simps)
  from zk_register_then_update [OF tree_reliable plain_codec_ok tree_empty_live this(1,2,4,3)]
  show ?thesis by auto
qed

text \<open>
  C17: a mirror configuration that is written is read back unchanged except for its time stamp, both
  by \<open>ReadMirrorConfig\<close> and by a watcher that decodes the node's contents; this includes the first
  write, which creates the directories and the node. A configuration whose ratio is not a finite
  number is refused, and reading gives what it gave before.
\<close>

theorem mirror_config_roundtrip:
  assumes "zk_reliable c view alive" and "codec_ok j" and "zk_live view alive z" and "part_ok svc"
    and "in_i64 now" and "plain_mirror (cfg\<lparr>mc_UpdatedAtUnixMilli := now\<rparr>) \<or> \<not> is_finite (mc_Ratio cfg)"
  shows "\<exists>z'. if is_finite (mc_Ratio cfg)
    then WriteMirrorConfig c j now svc cfg z = (None, z') \<and> zk_live view alive z' \<and>
      ReadMirrorConfig c j svc z' = (cfg\<lparr>mc_UpdatedAtUnixMilli := now\<rparr>, None) \<and>
      (\<exists>b v. zk_get c (mirror_path svc) z' = Inr (b, v) \<and>
        watch_decode j b = cfg\<lparr>mc_UpdatedAtUnixMilli := now\<rparr>)
    else WriteMirrorConfig c j now svc cfg z = (Some RegJson, z') \<and>
      ReadMirrorConfig c j svc z' = ReadMirrorConfig c j svc z"
proof (cases "is_finite (mc_Ratio cfg)")
  case True
  then have plain: "plain_mirror (cfg\<lparr>mc_UpdatedAtUnixMilli := now\<rparr>)" using assms(6) by simp
  obtain z' b v where "WriteMirrorConfig c j now svc cfg z = (None, z')" "zk_live view alive z'"
    "ReadMirrorConfig c j svc z' = (cfg\<lparr>mc_UpdatedAtUnixMilli := now\<rparr>, None)"
    "zk_get c (mirror_path svc) z' = Inr (b, v)" "watch_decode j b = cfg\<lparr>mc_UpdatedAtUnixMilli := now\<rparr>"
    by (rule mirror_write_read [OF assms(1-4) plain])
  then show ?thesis using True by auto
next
  case False
  then show ?thesis
    using mirror_write_refused [OF assms(1-4), of cfg now] by auto
qed

theorem mirror_config_roundtrip_witness:
  "\<exists>z'. WriteMirrorConfig tree_conn plain_codec 7 ''svc''
      (empty_mirror\<lparr>mc_Enabled := True, mc_SessionID := ''s-1''\<rparr>) Map.empty = (None, z') \<and>
    ReadMirrorConfig tree_conn plain_codec ''svc'' z' =
      (empty_mirror\<lparr>mc_Enabled := True, mc_SessionID := ''s-1'', mc_UpdatedAtUnixMilli := 7\<rparr>, None)"
proof -
  let ?cfg = "empty_mirror\<lparr>mc_Enabled := True, mc_SessionID := ''s-1''\<rparr>"
  have "part_ok ''svc''" "in_i64 7" "is_finite (mc_Ratio ?cfg)"
    by (simp_all add: wf_simps empty_mirror_def)
  moreover have "plain_mirror (?cfg\<lparr>mc_UpdatedAtUnixMilli := 7\<rparr>) \<or> \<not> is_finite (mc_Ratio ?cfg)"
    by (simp add: plain_mirror_def empty_mirror_def wf_simps fl_of_int [of 0, simplified])
  ultimately show ?thesis
    using mirror_config_roundtrip [OF tree_reliable plain_codec_ok tree_empty_live, of "''svc''" 7 ?cfg]
    by auto
qed

end
