(* ===== verification/Watch.thy ===== *)
theory Watch
  imports ZkRegistry "HOL-Library.Sublist"
begin

text \<open>
  The two goroutines that follow the mirror node with one-shot ZooKeeper watches: \<open>WatchMirror\<close> of
  \<open>ZKRegistry\<close> in warmkit/registry.go, which feeds the engine, and \<open>watchMirror\<close> of
  cmd/mirror-proxy/main.go. Both are machines whose steps interleave with writers of the node. A
  watch set by \<open>GetW\<close> fires once, at the next change of the node; a \<open>GetW\<close> that fails sets none.
\<close>

section \<open>A node with a watch\<close>

datatype watch_status = NoWatch | Armed | Fired

definition trigger :: "watch_status \<Rightarrow> watch_status" where
  "trigger s = (if s = Armed then Fired else s)"

lemma trigger_simps [simp]: "trigger NoWatch = NoWatch" "trigger Armed = Fired" "trigger Fired = Fired"
  by (simp_all add: trigger_def)

section \<open>WatchMirror of the ZooKeeper registry\<close>

datatype zw_pc = ZwCheck | ZwGet | ZwSend MirrorConfig | ZwWait | ZwDone

record 'b zk_watch =
  zw_node :: "'b option"
  zw_watch :: watch_status
  zw_cancelled :: bool
  zw_pc :: zw_pc
  zw_out :: "MirrorConfig list"        \<comment> \<open>the returned channel, of capacity 1\<close>
  zw_received :: "MirrorConfig list"   \<comment> \<open>history: what the consumer has taken\<close>
  zw_contents :: "'b list"             \<comment> \<open>history: the contents the node has had\<close>

definition zw_cap :: nat where "zw_cap = 1"

definition zw_start :: "'b option \<Rightarrow> 'b zk_watch" where
  "zw_start n = \<lparr>zw_node = n, zw_watch = NoWatch, zw_cancelled = False, zw_pc = ZwCheck, zw_out = [],
     zw_received = [], zw_contents = (case n of None \<Rightarrow> [] | Some b \<Rightarrow> [b])\<rparr>"

datatype 'b zw_event = ZwGo | ZwQuit | ZwFail | ZwConsume | ZwCancel | ZwWrite 'b | ZwDelete

text \<open>
  \<open>ZwGo\<close> is the goroutine's next action, \<open>ZwQuit\<close> its choice of a cancelled context in a select,
  \<open>ZwFail\<close> a failing \<open>GetW\<close>; the others belong to the consumer, the caller and writers of the node.
\<close>

fun zw_step :: "'b codec \<Rightarrow> 'b zw_event \<Rightarrow> 'b zk_watch \<Rightarrow> 'b zk_watch" where
  "zw_step j ZwGo w =
     (case zw_pc w of
        ZwCheck \<Rightarrow> w\<lparr>zw_pc := (if zw_cancelled w then ZwDone else ZwGet)\<rparr>
      | ZwGet \<Rightarrow> (case zw_node w of
            None \<Rightarrow> w\<lparr>zw_pc := ZwCheck\<rparr>
          | Some b \<Rightarrow> w\<lparr>zw_watch := Armed, zw_pc := ZwSend (watch_decode j b)\<rparr>)
      | ZwSend c \<Rightarrow> if length (zw_out w) < zw_cap then w\<lparr>zw_out := zw_out w @ [c], zw_pc := ZwWait\<rparr> else w
      | ZwWait \<Rightarrow> if zw_watch w = Fired then w\<lparr>zw_watch := NoWatch, zw_pc := ZwCheck\<rparr> else w
      | ZwDone \<Rightarrow> w)"
| "zw_step j ZwQuit w =
     (case zw_pc w of
        ZwSend c \<Rightarrow> if zw_cancelled w then w\<lparr>zw_pc := ZwDone\<rparr> else w
      | ZwWait \<Rightarrow> if zw_cancelled w then w\<lparr>zw_pc := ZwDone\<rparr> else w
      | _ \<Rightarrow> w)"
| "zw_step j ZwFail w = (if zw_pc w = ZwGet then w\<lparr>zw_pc := ZwCheck\<rparr> else w)"
| "zw_step j ZwConsume w =
     (case zw_out w of [] \<Rightarrow> w | c # cs \<Rightarrow> w\<lparr>zw_out := cs, zw_received := zw_received w @ [c]\<rparr>)"
| "zw_step j ZwCancel w = w\<lparr>zw_cancelled := True\<rparr>"
| "zw_step j (ZwWrite b) w = w\<lparr>zw_node := Some b, zw_watch := trigger (zw_watch w),
     zw_contents := zw_contents w @ [b]\<rparr>"
| "zw_step j ZwDelete w = (if zw_node w = None then w
     else w\<lparr>zw_node := None, zw_watch := trigger (zw_watch w)\<rparr>)"

fun zw_held :: "zw_pc \<Rightarrow> MirrorConfig list" where
  "zw_held (ZwSend c) = [c]"
| "zw_held pc = []"

text \<open>Everything the goroutine has read, in order.\<close>

definition zw_read :: "'b zk_watch \<Rightarrow> MirrorConfig list" where
  "zw_read w = zw_received w @ zw_out w @ zw_held (zw_pc w)"

text \<open>
  While the watch is armed the node has not changed since the last read. Otherwise the present
  contents are new, and what was read is a subsequence of the earlier contents.
\<close>

definition zw_inv :: "'b codec \<Rightarrow> 'b zk_watch \<Rightarrow> bool" where
  "zw_inv j w \<longleftrightarrow>
     length (zw_out w) \<le> zw_cap \<and>
     (zw_pc w = ZwCheck \<or> zw_pc w = ZwGet \<longrightarrow> zw_watch w = NoWatch) \<and>
     (\<forall>c. zw_pc w = ZwSend c \<longrightarrow> zw_watch w \<noteq> NoWatch) \<and> (zw_pc w = ZwWait \<longrightarrow> zw_watch w \<noteq> NoWatch) \<and>
     subseq (zw_read w) (map (watch_decode j) (zw_contents w)) \<and>
     (case zw_node w of
        None \<Rightarrow> zw_watch w \<noteq> Armed
      | Some b \<Rightarrow> (\<exists>h. zw_contents w = h @ [b] \<and>
          (if zw_watch w = Armed
           then zw_pc w \<noteq> ZwDone \<longrightarrow> (\<exists>r. zw_read w = r @ [watch_decode j b])
           else subseq (zw_read w) (map (watch_decode j) h))))"

lemma zw_inv_start: "zw_inv j (zw_start n)"
  by (simp add: zw_inv_def zw_start_def zw_read_def zw_cap_def split: option.split)

lemma subseq_snoc: "subseq xs ys \<Longrightarrow> subseq (xs @ [z]) (ys @ [z])"
  by (rule list_emb_append_mono) simp_all

lemma subseq_later: "subseq xs ys \<Longrightarrow> subseq xs (ys @ zs)"
  using list_emb_append_mono [of "(=)" xs ys "[]" zs] by simp

lemma subseq_earlier: "subseq (xs @ zs) ys \<Longrightarrow> subseq xs ys"
  using subseq_later [of xs xs zs] subseq_order.trans by auto

lemma zw_inv_go:
  assumes "zw_inv j w"
  shows "zw_inv j (zw_step j ZwGo w)"
proof (cases "zw_pc w")
  case ZwCheck
  then show ?thesis using assms by (auto simp: zw_inv_def zw_read_def split: option.splits)
next
  case ZwGet
  show ?thesis
  proof (cases "zw_node w")
    case None
    then show ?thesis using ZwGet assms by (auto simp: zw_inv_def zw_read_def)
  next
    case (Some b)
    then obtain h where h: "zw_contents w = h @ [b]" "subseq (zw_read w) (map (watch_decode j) h)"
      using assms ZwGet by (auto simp: zw_inv_def)
    then show ?thesis
      using assms ZwGet Some subseq_snoc [OF h(2), of "watch_decode j b"]
      by (auto simp: zw_inv_def zw_read_def)
  qed
next
  case (ZwSend c)
  then show ?thesis using assms by (force simp: zw_inv_def zw_read_def split: option.splits)
next
  case ZwWait
  then show ?thesis using assms by (auto simp: zw_inv_def zw_read_def split: option.splits)
next
  case ZwDone
  then show ?thesis using assms by simp
qed

lemma zw_inv_quit:
  assumes "zw_inv j w"
  shows "zw_inv j (zw_step j ZwQuit w)"
proof (cases "zw_pc w")
  case (ZwSend c)
  then show ?thesis
    using assms subseq_earlier [of "zw_received w @ zw_out w" "[c]"]
    by (auto simp: zw_inv_def zw_read_def split: option.splits)
qed (use assms in \<open>auto simp: zw_inv_def zw_read_def split: option.splits\<close>)

lemma zw_inv_step: "zw_inv j w \<Longrightarrow> zw_inv j (zw_step j ev w)"
proof (cases ev)
  case ZwGo
  assume "zw_inv j w"
  then show ?thesis unfolding ZwGo by (rule zw_inv_go)
next
  case ZwQuit
  assume "zw_inv j w"
  then show ?thesis unfolding ZwQuit by (rule zw_inv_quit)
next
  case ZwConsume
  assume "zw_inv j w"
  then show ?thesis
    by (auto simp: ZwConsume zw_inv_def zw_read_def split: list.splits option.splits)
next
  case (ZwWrite b)
  assume "zw_inv j w"
  then show ?thesis
    by (auto simp: ZwWrite zw_inv_def zw_read_def trigger_def intro: subseq_later)
next
  case ZwDelete
  assume "zw_inv j w"
  then show ?thesis
    by (auto simp: ZwDelete zw_inv_def zw_read_def trigger_def split: option.splits)
qed (auto simp: zw_inv_def zw_read_def split: option.splits)

interpretation zw: step_invariant "zw_step j" "zw_inv j"
  by unfold_locales (rule zw_inv_step)

text \<open>
  C15: however writers, the consumer, connection failures and a cancellation interleave with the
  goroutine of \<open>ZKRegistry.WatchMirror\<close>, the consumer receives a subsequence of the node's contents
  in their order, the channel never exceeds its capacity, and no change is missed for good: when the
  goroutine waits with no event pending and the consumer has drained the channel, the last
  configuration it received is the decoded present content of the node.
\<close>

theorem zk_watch_current:
  fixes es :: "'b zw_event list" and j :: "'b codec" and n :: "'b option"
  defines "w \<equiv> fold (zw_step j) es (zw_start n)"
  shows "subseq (zw_received w) (map (watch_decode j) (zw_contents w)) \<and> length (zw_out w) \<le> 1 \<and>
    (zw_pc w = ZwWait \<and> zw_watch w \<noteq> Fired \<and> zw_out w = [] \<longrightarrow>
       (\<exists>b r. zw_node w = Some b \<and> zw_received w = r @ [watch_decode j b]))"
proof -
  have inv: "zw_inv j w"
    unfolding w_def by (rule zw.run_good) (rule zw_inv_start)
  then have "subseq (zw_received w) (map (watch_decode j) (zw_contents w))"
    using subseq_earlier by (auto simp: zw_inv_def zw_read_def)
  moreover have "\<exists>b r. zw_node w = Some b \<and> zw_received w = r @ [watch_decode j b]"
    if "zw_pc w = ZwWait \<and> zw_watch w \<noteq> Fired \<and> zw_out w = []"
  proof -
    have "zw_watch w = Armed"
      using inv that by (cases "zw_watch w") (auto simp: zw_inv_def)
    then show ?thesis
      using inv that by (auto simp: zw_inv_def zw_read_def split: option.splits)
  qed
  ultimately show ?thesis
    using inv by (auto simp: zw_inv_def zw_cap_def)
qed

theorem zk_watch_current_witness:
  "let w = fold (zw_step plain_codec) [ZwGo, ZwGo, ZwGo, ZwConsume, ZwWrite (Some (Inr empty_mirror)),
       ZwGo, ZwGo, ZwGo, ZwGo, ZwConsume] (zw_start (Some None))
   in zw_pc w = ZwWait \<and> zw_watch w \<noteq> Fired \<and> zw_out w = [] \<and>
      (\<exists>b r. zw_node w = Some b \<and> zw_received w = r @ [watch_decode plain_codec b])"
proof -
  let ?es = "[ZwGo, ZwGo, ZwGo, ZwConsume, ZwWrite (Some (Inr empty_mirror)), ZwGo, ZwGo, ZwGo, ZwGo, ZwConsume]"
  have "zw_pc (fold (zw_step plain_codec) ?es (zw_start (Some None))) = ZwWait \<and>
    zw_watch (fold (zw_step plain_codec) ?es (zw_start (Some None))) \<noteq> Fired \<and>
    zw_out (fold (zw_step plain_codec) ?es (zw_start (Some None))) = []"
    by (simp add: zw_start_def zw_cap_def)
  then show ?thesis
    using zk_watch_current [of plain_codec ?es "Some None"] unfolding Let_def by blast
qed

section \<open>watchMirror of the mirror proxy\<close>

text \<open>
  The proxy's goroutine reads the node with \<open>ReadMirrorConfig\<close>, stores the result, and then sets the
  watch with a second read, \<open>GetW\<close>, whose data it drops. \<open>read_decode\<close> is the tail of
  \<open>ReadMirrorConfig\<close>: the configuration, and whether there was no error.
\<close>

datatype pw_pc = PwCheck | PwRead | PwGetW | PwWait | PwDone

record 'b proxy_watch =
  pw_node :: "'b option"
  pw_watch :: watch_status
  pw_cancelled :: bool
  pw_pc :: pw_pc
  pw_cfg :: MirrorConfig      \<comment> \<open>the field \<open>cfg\<close> of the router\<close>

definition pw_start :: "'b option \<Rightarrow> 'b proxy_watch" where
  "pw_start n = \<lparr>pw_node = n, pw_watch = NoWatch, pw_cancelled = False, pw_pc = PwCheck, pw_cfg = empty_mirror\<rparr>"

definition read_decode :: "'b codec \<Rightarrow> 'b \<Rightarrow> MirrorConfig \<times> bool" where
  "read_decode j b = (if cd_is_empty j b then (empty_mirror, True) else cd_dec_mirror j b)"

datatype 'b pw_event = PwGo | PwQuit | PwFail | PwCancel | PwWrite 'b | PwDelete

fun pw_step :: "'b codec \<Rightarrow> 'b pw_event \<Rightarrow> 'b proxy_watch \<Rightarrow> 'b proxy_watch" where
  "pw_step j PwGo w =
     (case pw_pc w of
        PwCheck \<Rightarrow> w\<lparr>pw_pc := (if pw_cancelled w then PwDone else PwRead)\<rparr>
      | PwRead \<Rightarrow> (case pw_node w of
            None \<Rightarrow> w\<lparr>pw_pc := PwGetW\<rparr>
          | Some b \<Rightarrow> (case read_decode j b of
              (cfg, ok) \<Rightarrow> w\<lparr>pw_cfg := (if ok then cfg else pw_cfg w), pw_pc := PwGetW\<rparr>))
      | PwGetW \<Rightarrow> (case pw_node w of
            None \<Rightarrow> w\<lparr>pw_pc := PwCheck\<rparr>
          | Some b \<Rightarrow> w\<lparr>pw_watch := Armed, pw_pc := PwWait\<rparr>)
      | PwWait \<Rightarrow> if pw_watch w = Fired then w\<lparr>pw_watch := NoWatch, pw_pc := PwCheck\<rparr> else w
      | PwDone \<Rightarrow> w)"
| "pw_step j PwQuit w = (if pw_pc w = PwWait \<and> pw_cancelled w then w\<lparr>pw_pc := PwDone\<rparr> else w)"
| "pw_step j PwFail w =
     (case pw_pc w of
        PwRead \<Rightarrow> w\<lparr>pw_pc := PwGetW\<rparr>
      | PwGetW \<Rightarrow> w\<lparr>pw_pc := PwCheck\<rparr>
      | _ \<Rightarrow> w)"
| "pw_step j PwCancel w = w\<lparr>pw_cancelled := True\<rparr>"
| "pw_step j (PwWrite b) w = w\<lparr>pw_node := Some b, pw_watch := trigger (pw_watch w)\<rparr>"
| "pw_step j PwDelete w = (if pw_node w = None then w
     else w\<lparr>pw_node := None, pw_watch := trigger (pw_watch w)\<rparr>)"

lemma read_decode_ReadMirrorConfig:
  assumes "zk_reliable c view alive" "zk_live view alive z" "part_ok svc"
    and "view z [''config'', svc, ''mirror''] = Some n"
  shows "ReadMirrorConfig c j svc z =
    (case read_decode j (zn_data n) of (cfg, ok) \<Rightarrow> (cfg, if ok then None else Some RegJson))"
  using assms(4) by (simp add: read_mirror_view [OF assms(1-3)] read_decode_def split: prod.split)

lemma pw_waits_watched:
  "pw_pc w = PwWait \<longrightarrow> pw_watch w \<noteq> NoWatch \<Longrightarrow>
     pw_pc (pw_step j ev w) = PwWait \<longrightarrow> pw_watch (pw_step j ev w) \<noteq> NoWatch"
  by (cases ev) (auto simp: trigger_def split: pw_pc.splits option.splits prod.splits)

interpretation pw: step_invariant "pw_step j" "\<lambda>w. pw_pc w = PwWait \<longrightarrow> pw_watch w \<noteq> NoWatch"
  by unfold_locales (rule pw_waits_watched)

text \<open>
  C33: the proxy, unlike the registry's watcher, can keep a stale configuration: if a writer comes
  between its read and its \<open>GetW\<close>, it waits with the old configuration and no event pending, and
  stays there whatever else happens short of a change of the node, a cancellation apart. The next
  change cures it: three actions after any later write of a configuration that decodes, the proxy
  holds that configuration.
\<close>

theorem proxy_watch_stale:
  fixes j :: "'b codec"
  assumes "read_decode j old = (c0, True)" and "read_decode j new = (c1, True)" and "c0 \<noteq> c1"
  shows "\<exists>w. w = fold (pw_step j) [PwGo, PwGo, PwWrite new, PwGo] (pw_start (Some old)) \<and>
    pw_pc w = PwWait \<and> pw_node w = Some new \<and> pw_cfg w = c0 \<and>
    (\<forall>es. set es \<subseteq> {PwGo, PwFail} \<longrightarrow> fold (pw_step j) es w = w) \<and>
    (\<forall>es b c. let w' = fold (pw_step j) es w in
       pw_pc w' = PwWait \<and> \<not> pw_cancelled w' \<and> read_decode j b = (c, True) \<longrightarrow>
       pw_cfg (fold (pw_step j) [PwWrite b, PwGo, PwGo, PwGo] w') = c)"
proof -
  define w where "w = fold (pw_step j) [PwGo, PwGo, PwWrite new, PwGo] (pw_start (Some old))"
  have w: "w = \<lparr>pw_node = Some new, pw_watch = Armed, pw_cancelled = False, pw_pc = PwWait, pw_cfg = c0\<rparr>"
    using assms(1) by (simp add: w_def pw_start_def)
  have stuck: "fold (pw_step j) es w = w" if "set es \<subseteq> {PwGo, PwFail}" for es
    using that by (induction es) (auto simp: w)
  have cure: "pw_cfg (fold (pw_step j) [PwWrite b, PwGo, PwGo, PwGo] w') = c"
    if "w' = fold (pw_step j) es w" "pw_pc w' = PwWait" "\<not> pw_cancelled w'" "read_decode j b = (c, True)"
    for w' es b c
  proof -
    have "pw_watch w' \<noteq> NoWatch"
      using pw.run_good [of w j es] that(1,2) by (simp add: w)
    then have "trigger (pw_watch w') = Fired"
      by (cases "pw_watch w'") simp_all
    then show ?thesis using that(2-4) by simp
  qed
  show ?thesis
    unfolding Let_def
  proof (intro exI [of _ w] conjI allI impI)
    show "w = fold (pw_step j) [PwGo, PwGo, PwWrite new, PwGo] (pw_start (Some old))"
      by (rule w_def)
    show "pw_pc w = PwWait" "pw_node w = Some new" "pw_cfg w = c0"
      by (simp_all add: w)
    show "fold (pw_step j) es w = w" if "set es \<subseteq> {PwGo, PwFail}" for es
      by (rule stuck [OF that])
    show "pw_cfg (fold (pw_step j) [PwWrite b, PwGo, PwGo, PwGo] (fold (pw_step j) es w)) = c"
      if "pw_pc (fold (pw_step j) es w) = PwWait \<and> \<not> pw_cancelled (fold (pw_step j) es w) \<and>
        read_decode j b = (c, True)" for es b c
      using cure [OF refl] that by blast
  qed
qed

theorem proxy_watch_stale_witness:
  "\<exists>w. w = fold (pw_step plain_codec) [PwGo, PwGo, PwWrite (Some (Inr (empty_mirror\<lparr>mc_Enabled := True\<rparr>))), PwGo]
      (pw_start (Some None)) \<and>
    pw_pc w = PwWait \<and> pw_node w = Some (Some (Inr (empty_mirror\<lparr>mc_Enabled := True\<rparr>))) \<and> pw_cfg w = empty_mirror"
proof -
  have "read_decode plain_codec None = (empty_mirror, True)"
    "read_decode plain_codec (Some (Inr (empty_mirror\<lparr>mc_Enabled := True\<rparr>))) = (empty_mirror\<lparr>mc_Enabled := True\<rparr>, True)"
    "empty_mirror \<noteq> empty_mirror\<lparr>mc_Enabled := True\<rparr>"
    by (simp_all add: read_decode_def plain_codec_def empty_mirror_def)
  from proxy_watch_stale [OF this] show ?thesis by blast
qed

end
