(* ===== verification/Http.thy ===== *)
theory Http
  imports Registry
begin

text \<open>
  The part of \<open>net/http\<close> that the services use: a request with its header map, a response, the
  header operations, and \<open>IsShadowRequest\<close> of warmkit/registry.go. Header names are kept in their
  canonical form, in which all names of the program are written.
\<close>

type_synonym header = "string \<rightharpoonup> string list"

record http_request =
  rq_Method :: string
  rq_Path :: string
  rq_RawQuery :: string
  rq_Header :: header
  rq_Body :: string

record http_response =
  rs_Status :: int
  rs_Body :: string

definition header_Get :: "header \<Rightarrow> string \<Rightarrow> string" where
  "header_Get h k = (case h k of Some (v # vs) \<Rightarrow> v | _ \<Rightarrow> [])"

definition header_Set :: "string \<Rightarrow> string \<Rightarrow> header \<Rightarrow> header" where
  "header_Set k v h = h(k \<mapsto> [v])"

lemma header_Get_Set [simp]:
  "header_Get (header_Set k v h) k' = (if k = k' then v else header_Get h k')"
  by (simp add: header_Get_def header_Set_def)

definition MethodGet :: string where "MethodGet = ''GET''"
definition MethodPost :: string where "MethodPost = ''POST''"

abbreviation StatusOK :: int where "StatusOK \<equiv> 200"
abbreviation StatusBadRequest :: int where "StatusBadRequest \<equiv> 400"
abbreviation StatusForbidden :: int where "StatusForbidden \<equiv> 403"
abbreviation StatusNotFound :: int where "StatusNotFound \<equiv> 404"
abbreviation StatusMethodNotAllowed :: int where "StatusMethodNotAllowed \<equiv> 405"
abbreviation StatusInternalServerError :: int where "StatusInternalServerError \<equiv> 500"
abbreviation StatusServiceUnavailable :: int where "StatusServiceUnavailable \<equiv> 503"

definition IsShadowRequest :: "http_request \<Rightarrow> bool" where
  "IsShadowRequest r \<longleftrightarrow> header_Get (rq_Header r) HeaderShadow = ShadowValue"

end
