(* ===== verification/Engine.thy ===== *)
theory Engine
  imports Http ZkRegistry
begin

text \<open>
  warmkit/engine.go: the engine that drives an instance through its lifecycle. The engine is a
  record over the store \<open>'s\<close> of its registry; every handler is a function on it. What happens to a
  running engine is a list of events, one for each thing its goroutine or a caller can do: this
  theory takes a handler as one step, EngineConc takes its atomic actions one by one.
\<close>

section \<open>State and operations\<close>

record Config =
  cf_ServiceName :: string
  cf_InstanceID :: string
  cf_ListenAddr :: string
  cf_Role :: string
  cf_ReadyAfter :: int
  cf_WarmupTimeout :: int
  cf_ShadowMetricsKeep :: int

text \<open>
  The goroutine of \<open>Start\<close>: not started, started but before \<open>WatchMirror\<close>, in its select loop, or
  returned. Its timer is armed, has fired into its channel of capacity one, or is stopped and
  empty; stopping a timer that has fired leaves the value in the channel (Go 1.22).
\<close>

datatype watcher = WatchIdle | WatchSpawned | WatchLoop | WatchReturned

datatype warm_timer = TimerArmed | TimerFired | TimerOff

record 's engine =
  en_cfg :: Config
  en_reg :: 's
  en_fsm :: FSM
  en_shadow :: ShadowMetrics
  en_watcher :: watcher
  en_timer :: warm_timer

definition NewEngine :: "Config \<Rightarrow> 's \<Rightarrow> 's engine" where
  "NewEngine cfg reg = \<lparr>en_cfg = cfg, en_reg = reg, en_fsm = NewFSM,
     en_shadow = NewShadowMetrics (cf_ShadowMetricsKeep cfg), en_watcher = WatchIdle, en_timer = TimerOff\<rparr>"

definition en_State :: "'s engine \<Rightarrow> State" where
  "en_State e = fsm_state (en_fsm e)"

definition Snapshot :: "'s engine \<Rightarrow> go_panic + MetricsSnapshot" where
  "Snapshot e = res_bind (P95Ns (en_shadow e)) (\<lambda>p. Inr \<lparr>ms_State = en_State e,
     ms_ShadowCount = Count (en_shadow e), ms_ShadowLatencyP95 = p, ms_ReadyAfter = cf_ReadyAfter (en_cfg e)\<rparr>)"

text \<open>The two calls that the handlers make in a row, each with its error ignored.\<close>

definition e_transition :: "State \<Rightarrow> 's engine \<Rightarrow> 's engine" where
  "e_transition st e = e\<lparr>en_fsm := snd (Transition st (en_fsm e))\<rparr>"

definition e_publish :: "'s registry_ops \<Rightarrow> State \<Rightarrow> 's engine \<Rightarrow> 's engine" where
  "e_publish ops st e = e\<lparr>en_reg := snd (rg_UpdateInstanceState ops
     (cf_ServiceName (en_cfg e)) (cf_InstanceID (en_cfg e)) st (en_reg e))\<rparr>"

definition enter :: "'s registry_ops \<Rightarrow> State \<Rightarrow> 's engine \<Rightarrow> 's engine" where
  "enter ops st e = e_publish ops st (e_transition st e)"

datatype start_error = StartRegister reg_error | StartFsm fsm_error

definition Start :: "'s registry_ops \<Rightarrow> int \<Rightarrow> 's engine \<Rightarrow> start_error option \<times> 's engine" where
  "Start ops now e =
     (if cf_Role (en_cfg e) \<noteq> ''warmup'' then (None, e_transition StateActive e)
      else
        let rec = \<lparr>ir_Addr = cf_ListenAddr (en_cfg e), ir_State = StateRegistered,
                   ir_Role = cf_Role (en_cfg e), ir_StartedAt = now\<rparr>
        in case rg_RegisterInstance ops (cf_ServiceName (en_cfg e)) (cf_InstanceID (en_cfg e)) rec (en_reg e) of
             (Some err, reg) \<Rightarrow> (Some (StartRegister err), e\<lparr>en_reg := reg\<rparr>)
           | (None, reg) \<Rightarrow>
               (let e1 = e\<lparr>en_reg := reg\<rparr>
                in case Transition StateRegistered (en_fsm e1) of
                     (Some err, f) \<Rightarrow> (Some (StartFsm err), e1\<lparr>en_fsm := f\<rparr>)
                   | (None, f) \<Rightarrow>
                       (None, (e_publish ops StateRegistered (e1\<lparr>en_fsm := f\<rparr>))\<lparr>en_watcher := WatchSpawned\<rparr>)))"

definition handleMirrorConfig :: "'s registry_ops \<Rightarrow> MirrorConfig \<Rightarrow> 's engine \<Rightarrow> 's engine" where
  "handleMirrorConfig ops cfg e =
     (let me = cf_InstanceID (en_cfg e);
          e1 = (if mc_TargetInstanceID cfg = me \<and> mc_Enabled cfg \<and> f64_lt (Fin 0) (mc_Ratio cfg)
                then (if en_State e = StateRegistered then enter ops StateWarming e else e)
                else e);
          e2 = (if mc_ActiveInstanceID cfg = me \<and> en_State e1 = StateReady
                then enter ops StateActive e1 else e1)
      in if cf_ReadyAfter (en_cfg e2) \<le> Count (en_shadow e2) \<and> en_State e2 = StateWarming
         then enter ops StateReady e2 else e2)"

definition stop_timer :: "warm_timer \<Rightarrow> warm_timer" where
  "stop_timer t = (if t = TimerArmed then TimerOff else t)"

text \<open>\<open>runMirrorWatch\<close>: its start, then one iteration of its loop for each case of the select.\<close>

definition rmw_begin :: "'s registry_ops \<Rightarrow> 's engine \<Rightarrow> 's engine" where
  "rmw_begin ops e =
     (case rg_WatchMirror ops (cf_ServiceName (en_cfg e)) (en_reg e) of
        Some err \<Rightarrow> (e_transition StateFailed e)\<lparr>en_watcher := WatchReturned\<rparr>
      | None \<Rightarrow> e\<lparr>en_watcher := WatchLoop, en_timer := TimerArmed\<rparr>)"

definition rmw_mirror :: "'s registry_ops \<Rightarrow> MirrorConfig \<Rightarrow> 's engine \<Rightarrow> 's engine" where
  "rmw_mirror ops cfg e =
     (let e1 = handleMirrorConfig ops cfg e
      in if en_State e1 = StateReady then e1\<lparr>en_timer := stop_timer (en_timer e1)\<rparr> else e1)"

definition rmw_timeout :: "'s registry_ops \<Rightarrow> 's engine \<Rightarrow> 's engine" where
  "rmw_timeout ops e =
     (let e = e\<lparr>en_timer := TimerOff\<rparr>
      in if en_State e \<noteq> StateReady \<and> en_State e \<noteq> StateActive
         then (enter ops StateFailed e)\<lparr>en_watcher := WatchReturned\<rparr>
         else e)"

definition rmw_return :: "'s engine \<Rightarrow> 's engine" where
  "rmw_return e = e\<lparr>en_watcher := WatchReturned, en_timer := stop_timer (en_timer e)\<rparr>"

definition ResetBenchmark :: "'s registry_ops \<Rightarrow> 's engine \<Rightarrow> reg_error option \<times> 's engine" where
  "ResetBenchmark ops e =
     (if cf_Role (en_cfg e) \<noteq> ''warmup'' then (None, e)
      else
        let e1 = e\<lparr>en_shadow := NewShadowMetrics (cf_ShadowMetricsKeep (en_cfg e)),
                   en_fsm := Force StateRegistered (en_fsm e)\<rparr>
        in case rg_UpdateInstanceState ops (cf_ServiceName (en_cfg e)) (cf_InstanceID (en_cfg e))
                  StateRegistered (en_reg e1) of
             (r, reg) \<Rightarrow> (r, e1\<lparr>en_reg := reg\<rparr>))"

text \<open>
  \<open>Stop\<close> cancels the goroutine's context and waits for it or for its own context; \<open>in_time\<close> tells
  which of the two comes first.
\<close>

datatype stop_error = StopContext | StopClose reg_error

definition Stop :: "'s registry_ops \<Rightarrow> bool \<Rightarrow> 's engine \<Rightarrow> stop_error option \<times> 's engine" where
  "Stop ops in_time e =
     (if \<not> in_time then (Some StopContext, e)
      else let e1 = (if en_watcher e = WatchIdle then e else rmw_return e)
           in case rg_Close ops (en_reg e1) of
                (r, reg) \<Rightarrow> (map_option StopClose r, e1\<lparr>en_reg := reg\<rparr>))"

definition ReadinessHandler :: "'s engine \<Rightarrow> http_response" where
  "ReadinessHandler e =
     (let st = en_State e
      in if st = StateReady \<or> st = StateActive
         then \<lparr>rs_Status = StatusOK, rs_Body = ''ready''\<rparr>
         else \<lparr>rs_Status = StatusServiceUnavailable, rs_Body = state_string st\<rparr>)"

text \<open>
  \<open>ShadowMiddleware\<close> around the handler \<open>app\<close>, which takes \<open>d\<close> nanoseconds. The result is the
  response, or the panic that ends the request. \<open>http.Error\<close> adds a line feed.
\<close>

definition forbidden :: http_response where
  "forbidden = \<lparr>rs_Status = StatusForbidden, rs_Body = ''shadow mutations forbidden'' @ [CHR 0x0A]\<rparr>"

definition ShadowMiddleware :: "'s registry_ops \<Rightarrow> (http_request \<Rightarrow> http_response) \<Rightarrow> int \<Rightarrow>
    http_request \<Rightarrow> 's engine \<Rightarrow> (go_panic + http_response) \<times> 's engine" where
  "ShadowMiddleware ops app d r e =
     (if \<not> IsShadowRequest r then (Inr (app r), e)
      else if rq_Method r \<noteq> MethodGet then (Inr forbidden, e)
      else
        let e1 = (if en_State e = StateRegistered then enter ops StateWarming e else e);
            resp = app r
        in case Record d (en_shadow e1) of
             (Some p, sm) \<Rightarrow> (Inl p, e1\<lparr>en_shadow := sm\<rparr>)
           | (None, sm) \<Rightarrow>
               (let e2 = e1\<lparr>en_shadow := sm\<rparr>
                in (Inr resp,
                    if cf_ReadyAfter (en_cfg e2) \<le> Count (en_shadow e2) \<and> en_State e2 = StateWarming
                    then enter ops StateReady e2 else e2)))"

section \<open>Events\<close>

text \<open>An event that is not possible in the present state changes nothing.\<close>

datatype eng_event =
    EvBegin | EvMirror MirrorConfig | EvClosed | EvFire | EvTimeout | EvCtxDone
  | EvRequest http_request int | EvReset

fun engine_step :: "'s registry_ops \<Rightarrow> (http_request \<Rightarrow> http_response) \<Rightarrow> eng_event \<Rightarrow> 's engine \<Rightarrow> 's engine" where
  "engine_step ops app EvBegin e = (if en_watcher e = WatchSpawned then rmw_begin ops e else e)"
| "engine_step ops app (EvMirror cfg) e = (if en_watcher e = WatchLoop then rmw_mirror ops cfg e else e)"
| "engine_step ops app EvClosed e = (if en_watcher e = WatchLoop then rmw_return e else e)"
| "engine_step ops app EvFire e = (if en_timer e = TimerArmed then e\<lparr>en_timer := TimerFired\<rparr> else e)"
| "engine_step ops app EvTimeout e =
     (if en_watcher e = WatchLoop \<and> en_timer e = TimerFired then rmw_timeout ops e else e)"
| "engine_step ops app EvCtxDone e = (if en_watcher e = WatchLoop then rmw_return e else e)"
| "engine_step ops app (EvRequest r d) e = snd (ShadowMiddleware ops app d r e)"
| "engine_step ops app EvReset e = snd (ResetBenchmark ops e)"

section \<open>Readiness\<close>

lemma enter_simps [simp]:
  "en_cfg (enter ops st e) = en_cfg e" "en_shadow (enter ops st e) = en_shadow e"
  "en_watcher (enter ops st e) = en_watcher e" "en_timer (enter ops st e) = en_timer e"
  "en_State (enter ops st e) = (if validTransition (en_State e) st then st else en_State e)"
  by (simp_all add: enter_def e_publish_def e_transition_def en_State_def fsm_state_Transition)

lemma en_State_updates [simp]:
  "en_State (e\<lparr>en_reg := s\<rparr>) = en_State e" "en_State (e\<lparr>en_shadow := sm\<rparr>) = en_State e"
  "en_State (e\<lparr>en_watcher := w\<rparr>) = en_State e" "en_State (e\<lparr>en_timer := t\<rparr>) = en_State e"
  by (simp_all add: en_State_def)

lemma en_State_fsm [simp]:
  "en_State (e\<lparr>en_fsm := f\<rparr>) = fsm_state f"
  "en_State (e_transition st e) = (if validTransition (en_State e) st then st else en_State e)"
  by (simp_all add: en_State_def e_transition_def fsm_state_Transition)

definition en_count :: "'s engine \<Rightarrow> int" where
  "en_count e = Count (en_shadow e)"

lemma en_count_updates [simp]:
  "en_count (e\<lparr>en_reg := s\<rparr>) = en_count e" "en_count (e\<lparr>en_fsm := f\<rparr>) = en_count e"
  "en_count (e\<lparr>en_watcher := w\<rparr>) = en_count e" "en_count (e\<lparr>en_timer := t\<rparr>) = en_count e"
  "en_count (e\<lparr>en_shadow := sm\<rparr>) = Count sm" "en_count (enter ops st e) = en_count e"
  "en_count (e_transition st e) = en_count e"
  by (simp_all add: en_count_def e_transition_def)

lemma Record_count: "Count (snd (Record d m)) = wrap64 (Count m + 1)"
  by (simp add: Record_def Count_def Let_def)

lemmas rmw_defs = rmw_begin_def rmw_mirror_def rmw_timeout_def rmw_return_def
lemmas handler_defs = handleMirrorConfig_def ShadowMiddleware_def ResetBenchmark_def rmw_defs Let_def

definition shadow_get :: "http_request \<Rightarrow> bool" where
  "shadow_get r \<longleftrightarrow> IsShadowRequest r \<and> rq_Method r = MethodGet"

text \<open>How many shadow GET requests arrived since the last reset, with \<open>n\<close> counted before.\<close>

fun shadow_gets :: "int \<Rightarrow> eng_event list \<Rightarrow> int" where
  "shadow_gets n [] = n"
| "shadow_gets n (EvReset # es) = shadow_gets 0 es"
| "shadow_gets n (EvRequest r d # es) = shadow_gets (if shadow_get r then n + 1 else n) es"
| "shadow_gets n (ev # es) = shadow_gets n es"

definition en_good :: "Config \<Rightarrow> 's engine \<Rightarrow> bool" where
  "en_good cfg e \<longleftrightarrow> en_cfg e = cfg \<and> cf_Role cfg = ''warmup'' \<and> 0 \<le> en_count e \<and>
     (en_State e = StateReady \<or> en_State e = StateActive \<longrightarrow> cf_ReadyAfter cfg \<le> en_count e)"

lemma handleMirrorConfig_keeps [simp]:
  "en_cfg (handleMirrorConfig ops cfg e) = en_cfg e" "en_shadow (handleMirrorConfig ops cfg e) = en_shadow e"
  "en_watcher (handleMirrorConfig ops cfg e) = en_watcher e" "en_timer (handleMirrorConfig ops cfg e) = en_timer e"
  "en_count (handleMirrorConfig ops cfg e) = en_count e"
  by (simp_all add: handleMirrorConfig_def Let_def)

lemma handleMirrorConfig_ready:
  assumes "en_State (handleMirrorConfig ops cfg e) = StateReady \<or> en_State (handleMirrorConfig ops cfg e) = StateActive"
  shows "en_State e = StateReady \<or> en_State e = StateActive \<or> cf_ReadyAfter (en_cfg e) \<le> en_count e"
  using assms by (auto simp: handleMirrorConfig_def Let_def en_count_def split: if_splits)

lemma serve_count:
  "en_count (snd (ShadowMiddleware ops app d r e)) = (if shadow_get r then wrap64 (en_count e + 1) else en_count e)"
proof (cases "shadow_get r")
  case True
  have "Count (snd (Record d m)) = wrap64 (Count m + 1)" for m
    by (rule Record_count)
  then show ?thesis
    using True by (auto simp: ShadowMiddleware_def Let_def shadow_get_def en_count_def
        split: prod.splits option.splits) (metis snd_conv)+
next
  case False
  then show ?thesis by (simp add: ShadowMiddleware_def shadow_get_def)
qed

lemma serve_cfg [simp]: "en_cfg (snd (ShadowMiddleware ops app d r e)) = en_cfg e"
  by (simp add: ShadowMiddleware_def Let_def split: prod.split option.split)

lemma serve_ready:
  assumes "en_State (snd (ShadowMiddleware ops app d r e)) = StateReady \<or>
    en_State (snd (ShadowMiddleware ops app d r e)) = StateActive"
  shows "en_State e = StateReady \<or> en_State e = StateActive \<or>
    cf_ReadyAfter (en_cfg e) \<le> en_count (snd (ShadowMiddleware ops app d r e))"
  using assms by (auto simp: ShadowMiddleware_def Let_def en_count_def split: prod.splits option.splits if_splits)

lemma step_cfg [simp]: "en_cfg (engine_step ops app ev e) = en_cfg e"
  by (cases ev) (auto simp: rmw_defs Let_def ResetBenchmark_def e_transition_def split: option.split prod.split)

lemma rmw_count [simp]:
  "en_count (rmw_begin ops e) = en_count e" "en_count (rmw_mirror ops cfg e) = en_count e"
  "en_count (rmw_timeout ops e) = en_count e" "en_count (rmw_return e) = en_count e"
  by (simp_all add: rmw_defs Let_def split: option.split)

lemma reset_count:
  "en_count (snd (ResetBenchmark ops e)) = (if cf_Role (en_cfg e) = ''warmup'' then 0 else en_count e)"
  by (simp add: ResetBenchmark_def Let_def NewShadowMetrics_def Count_def split: prod.split)

lemma step_count:
  assumes "cf_Role (en_cfg e) = ''warmup''"
  shows "en_count (engine_step ops app ev e) =
    (case ev of
       EvReset \<Rightarrow> 0
     | EvRequest r d \<Rightarrow> if shadow_get r then wrap64 (en_count e + 1) else en_count e
     | _ \<Rightarrow> en_count e)"
  using assms by (cases ev) (simp_all add: serve_count reset_count)

lemma step_ready:
  assumes "en_State (engine_step ops app ev e) = StateReady \<or> en_State (engine_step ops app ev e) = StateActive"
    and "cf_Role (en_cfg e) = ''warmup''"
  shows "(en_State e = StateReady \<or> en_State e = StateActive) \<and> ev \<noteq> EvReset \<or>
    cf_ReadyAfter (en_cfg e) \<le> en_count (engine_step ops app ev e)"
proof (cases ev)
  case (EvMirror cfg)
  then show ?thesis
    using assms(1) handleMirrorConfig_ready [of ops cfg e] EvMirror
    by (auto simp: rmw_mirror_def Let_def split: if_splits)
next
  case (EvRequest r d)
  then show ?thesis using assms(1) serve_ready [of ops app d r e] by auto
next
  case EvReset
  then show ?thesis
    using assms by (auto simp: ResetBenchmark_def Let_def split: prod.splits)
qed (use assms in \<open>auto simp: rmw_defs Let_def split: option.splits if_splits\<close>)

lemma en_good_step:
  assumes "en_good cfg e" and "en_count e < 2 ^ 63 - 1"
  shows "en_good cfg (engine_step ops app ev e)"
    and "en_count (engine_step ops app ev e) \<le> en_count e + 1"
proof -
  have inc: "wrap64 (en_count e + 1) = en_count e + 1"
    using assms by (intro wrap64_id) (simp add: en_good_def in_i64_def)
  note cnt = step_count [of e ops app ev]
  have mono: "ev \<noteq> EvReset \<Longrightarrow> en_count e \<le> en_count (engine_step ops app ev e)"
    using assms cnt inc by (auto simp: en_good_def split: eng_event.split)
  show "en_count (engine_step ops app ev e) \<le> en_count e + 1"
    using assms cnt inc by (auto simp: en_good_def split: eng_event.split)
  have "0 \<le> en_count (engine_step ops app ev e)"
    using assms cnt inc by (auto simp: en_good_def split: eng_event.split)
  moreover have "cf_ReadyAfter cfg \<le> en_count (engine_step ops app ev e)"
    if "en_State (engine_step ops app ev e) = StateReady \<or> en_State (engine_step ops app ev e) = StateActive"
    using step_ready [OF that] assms mono unfolding en_good_def by fastforce
  ultimately show "en_good cfg (engine_step ops app ev e)"
    using assms by (simp add: en_good_def)
qed

interpretation warm: counted_invariant "engine_step ops app" "en_good cfg" en_count "2 ^ 63 - 1"
  by unfold_locales (fact en_good_step)+

lemma Start_warmup:
  assumes "Start ops now (NewEngine cfg reg) = (None, e)" and "cf_Role cfg = ''warmup''"
  shows "en_cfg e = cfg" "en_State e = StateRegistered" "en_count e = 0" "en_watcher e = WatchSpawned"
    "en_shadow e = NewShadowMetrics (cf_ShadowMetricsKeep cfg)"
  using assms by (auto simp: Start_def Let_def NewEngine_def e_publish_def en_State_def Transition_def
      en_count_def NewFSM_def NewShadowMetrics_def Count_def split: prod.splits option.splits if_splits)

lemma en_good_start:
  assumes "Start ops now (NewEngine cfg reg) = (None, e)" and "cf_Role cfg = ''warmup''"
  shows "en_good cfg e"
  using Start_warmup [OF assms] assms(2) by (simp add: en_good_def)

lemma run_count:
  assumes "en_good cfg e"
  shows "en_count e + int (length es) \<le> 2 ^ 63 - 1 \<Longrightarrow>
    en_count (fold (engine_step ops app) es e) = shadow_gets (en_count e) es"
  using assms
proof (induction es arbitrary: e)
  case (Cons ev es)
  let ?e = "engine_step ops app ev e"
  have b: "en_count e < 2 ^ 63 - 1" using Cons.prems(1) by simp
  have g: "en_good cfg ?e" "en_count ?e \<le> en_count e + 1"
    using en_good_step [OF Cons.prems(2) b] by simp_all
  have inc: "wrap64 (en_count e + 1) = en_count e + 1"
    using Cons.prems b by (intro wrap64_id) (simp add: en_good_def in_i64_def)
  have "en_count (fold (engine_step ops app) es ?e) = shadow_gets (en_count ?e) es"
    using Cons.IH [OF _ g(1)] g(2) Cons.prems(1) by simp
  then show ?case
    using step_count [of e ops app ev] Cons.prems(2) inc
    by (cases ev) (simp_all add: en_good_def)
qed simp

text \<open>
  C7: an instance that answers its readiness probe with 200 has served at least \<open>ReadyAfter\<close> shadow
  GET requests since its start or its last benchmark reset. This holds after every history of mirror
  configurations, timer and context events, requests of every kind and resets, whatever the registry
  answers, and the counter it compares is exact.
\<close>

theorem ready_means_warmed:
  fixes app :: "http_request \<Rightarrow> http_response"
  assumes "cf_Role cfg = ''warmup''" and "Start ops now (NewEngine cfg reg) = (None, e0)"
    and "int (length es) < 2 ^ 63"
  defines "e \<equiv> fold (engine_step ops app) es e0"
  shows "Count (en_shadow e) = shadow_gets 0 es \<and>
    (rs_Status (ReadinessHandler e) = StatusOK \<longrightarrow> cf_ReadyAfter cfg \<le> shadow_gets 0 es)"
proof -
  have g: "en_good cfg e0" and z: "en_count e0 = 0"
    using en_good_start [OF assms(2,1)] Start_warmup(3) [OF assms(2,1)] by simp_all
  have len: "en_count e0 + int (length es) \<le> 2 ^ 63 - 1"
    using assms(3) z by simp
  have "en_good cfg e"
    unfolding e_def using warm.counted_run [OF g len] by simp
  moreover have "en_count e = shadow_gets 0 es"
    unfolding e_def using run_count [OF g len] z by simp
  ultimately show ?thesis
    by (auto simp: en_good_def en_count_def ReadinessHandler_def Let_def)
qed

definition sample_cfg :: Config where
  "sample_cfg = \<lparr>cf_ServiceName = ''svc'', cf_InstanceID = ''i1'', cf_ListenAddr = ''h:1'',
     cf_Role = ''warmup'', cf_ReadyAfter = 2, cf_WarmupTimeout = 5, cf_ShadowMetricsKeep = 10\<rparr>"

definition shadow_request :: http_request where
  "shadow_request = \<lparr>rq_Method = MethodGet, rq_Path = ''/'', rq_RawQuery = [],
     rq_Header = header_Set HeaderShadow ShadowValue Map.empty, rq_Body = []\<rparr>"

definition sample_app :: "http_request \<Rightarrow> http_response" where
  "sample_app r = \<lparr>rs_Status = StatusOK, rs_Body = rq_Path r\<rparr>"

lemma sample_shadow [simp]: "IsShadowRequest shadow_request" "rq_Method shadow_request = MethodGet"
  by (simp_all add: IsShadowRequest_def shadow_request_def)

lemmas engine_eval = Start_def NewEngine_def NewMemoryRegistry_def memory_defs e_publish_def e_transition_def
  enter_def Transition_def Force_def NewFSM_def NewShadowMetrics_def Record_def Count_def en_State_def
  ShadowMiddleware_def sample_cfg_def ReadinessHandler_def

theorem ready_means_warmed_witness:
  "\<exists>e0 e. Start memory_ops 1 (NewEngine sample_cfg NewMemoryRegistry) = (None, e0) \<and>
    e = fold (engine_step memory_ops sample_app)
      [EvBegin, EvRequest shadow_request 7, EvRequest shadow_request 8] e0 \<and>
    Count (en_shadow e) = 2 \<and> rs_Status (ReadinessHandler e) = StatusOK \<and> cf_ReadyAfter sample_cfg \<le> 2"
proof -
  define e0 where "e0 = snd (Start memory_ops 1 (NewEngine sample_cfg NewMemoryRegistry))"
  have role: "cf_Role sample_cfg = ''warmup''"
    by (simp add: sample_cfg_def)
  have start: "Start memory_ops 1 (NewEngine sample_cfg NewMemoryRegistry) = (None, e0)"
    by (simp add: e0_def engine_eval)
  let ?es = "[EvBegin, EvRequest shadow_request 7, EvRequest shadow_request 8]"
  have "Count (en_shadow (fold (engine_step memory_ops sample_app) ?es e0)) = 2"
    using ready_means_warmed [OF role start, of ?es sample_app] by (simp add: shadow_get_def)
  moreover have "rs_Status (ReadinessHandler (fold (engine_step memory_ops sample_app) ?es e0)) = StatusOK"
    by (simp add: e0_def engine_eval rmw_begin_def wrap64_def)
  moreover have "cf_ReadyAfter sample_cfg \<le> 2"
    by (simp add: sample_cfg_def)
  ultimately show ?thesis using start by blast
qed

section \<open>Progress\<close>

text \<open>With a window that cannot panic, a shadow GET is one step of the warm-up.\<close>

lemma Record_no_panic:
  assumes "0 \<le> sm_maxKeep m" "sm_maxKeep m < 2 ^ 62" "int (length (sm_latencies m)) < 2 ^ 62"
  shows "fst (Record d m) = None"
    and "sm_maxKeep (snd (Record d m)) = sm_maxKeep m"
    and "length (sm_latencies (snd (Record d m))) \<le> length (sm_latencies m) + 1"
proof -
  have "in_i64 (int (length (sm_latencies m)) + 1 - sm_maxKeep m)"
    using assms by (simp add: in_i64_def)
  then show "fst (Record d m) = None" "sm_maxKeep (snd (Record d m)) = sm_maxKeep m"
    using assms by (simp_all add: Record_def Let_def add.commute)
  show "length (sm_latencies (snd (Record d m))) \<le> length (sm_latencies m) + 1"
    by (auto simp: Record_def Let_def)
qed

definition progress_state :: "int \<Rightarrow> int \<Rightarrow> State" where
  "progress_state n k =
     (if k = 0 then StateRegistered else if k < n then StateWarming else StateReady)"

definition progress_inv :: "Config \<Rightarrow> nat \<Rightarrow> 's engine \<Rightarrow> bool" where
  "progress_inv cfg k e \<longleftrightarrow> en_cfg e = cfg \<and> en_count e = int k \<and>
     sm_maxKeep (en_shadow e) = cf_ShadowMetricsKeep cfg \<and> length (sm_latencies (en_shadow e)) \<le> k \<and>
     en_State e = progress_state (cf_ReadyAfter cfg) (int k)"

lemma progress_serve:
  assumes "progress_inv cfg k e" "shadow_get r" "0 \<le> cf_ShadowMetricsKeep cfg"
    "cf_ShadowMetricsKeep cfg < 2 ^ 62" "int k < 2 ^ 62"
  shows "progress_inv cfg (Suc k) (snd (ShadowMiddleware ops app d r e))"
    and "fst (ShadowMiddleware ops app d r e) = Inr (app r)"
proof -
  define e1 where "e1 = (if en_State e = StateRegistered then enter ops StateWarming e else e)"
  have e1: "en_cfg e1 = cfg" "en_shadow e1 = en_shadow e"
    "en_State e1 = (if int k < cf_ReadyAfter cfg \<or> k = 0 then StateWarming else StateReady)"
    using assms(1) by (auto simp: e1_def progress_inv_def progress_state_def)
  obtain sm where sm: "Record d (en_shadow e1) = (None, sm)"
      "sm_maxKeep sm = cf_ShadowMetricsKeep cfg" "length (sm_latencies sm) \<le> Suc k" "Count sm = int k + 1"
  proof
    have k: "int (length (sm_latencies (en_shadow e))) < 2 ^ 62"
      using assms(1,5) by (simp add: progress_inv_def)
    have keep: "0 \<le> sm_maxKeep (en_shadow e)" "sm_maxKeep (en_shadow e) < 2 ^ 62"
      using assms(1,3,4) by (simp_all add: progress_inv_def)
    have "wrap64 (int k + 1) = int k + 1"
      using assms(5) by (intro wrap64_id) (simp add: in_i64_def)
    then show "Count (snd (Record d (en_shadow e1))) = int k + 1"
      using assms(1) by (simp add: Record_count e1 progress_inv_def en_count_def)
    show "Record d (en_shadow e1) = (None, snd (Record d (en_shadow e1)))"
      using Record_no_panic(1) [OF keep k, of d] by (simp add: e1 prod_eq_iff)
    show "sm_maxKeep (snd (Record d (en_shadow e1))) = cf_ShadowMetricsKeep cfg"
      using Record_no_panic(2) [OF keep k, of d] assms(1) by (simp add: e1 progress_inv_def)
    show "length (sm_latencies (snd (Record d (en_shadow e1)))) \<le> Suc k"
      using Record_no_panic(3) [OF keep k, of d] assms(1) by (simp add: e1 progress_inv_def)
  qed
  have serve: "ShadowMiddleware ops app d r e = (Inr (app r),
      let e2 = e1\<lparr>en_shadow := sm\<rparr>
      in if cf_ReadyAfter cfg \<le> int k + 1 \<and> en_State e1 = StateWarming then enter ops StateReady e2 else e2)"
    using assms(2) sm(1,4) e1(1)
    by (simp add: ShadowMiddleware_def Let_def shadow_get_def flip: e1_def)
  show "fst (ShadowMiddleware ops app d r e) = Inr (app r)"
    by (simp add: serve)
  show "progress_inv cfg (Suc k) (snd (ShadowMiddleware ops app d r e))"
    unfolding serve using sm(2-4) e1
    by (auto simp: progress_inv_def progress_state_def Let_def)
qed

lemma progress_run:
  assumes "progress_inv cfg 0 e0" and "0 \<le> cf_ShadowMetricsKeep cfg" and "cf_ShadowMetricsKeep cfg < 2 ^ 62"
  shows "int (length rs) < 2 ^ 62 \<Longrightarrow> \<forall>(r, d) \<in> set rs. shadow_get r \<Longrightarrow>
    progress_inv cfg (length rs) (fold (engine_step ops app) (map (\<lambda>(r, d). EvRequest r d) rs) e0)"
proof (induction rs rule: rev_induct)
  case (snoc rd rs)
  obtain r d where rd: "rd = (r, d)" by (cases rd)
  show ?case
    using progress_serve(1) [OF snoc.IH _ assms(2,3), of r] snoc.prems by (auto simp: rd)
qed (simp add: assms(1))

lemma progress_start:
  assumes "Start ops now (NewEngine cfg reg) = (None, e0)" and "cf_Role cfg = ''warmup''"
  shows "progress_inv cfg 0 e0"
  using Start_warmup [OF assms] by (simp add: progress_inv_def progress_state_def NewShadowMetrics_def)

text \<open>
  A warming instance makes progress: after its start and \<open>k\<close> shadow GET requests it is
  \<open>Registered\<close> for \<open>k = 0\<close>, \<open>Warming\<close> while \<open>k < ReadyAfter\<close> and \<open>Ready\<close> from then on (with
  \<open>ReadyAfter \<le> 1\<close>, from the first request on), every request was answered by the application, and
  the probe answers 200 exactly from the state \<open>Ready\<close> on.
\<close>

theorem warmup_progress:
  fixes app :: "http_request \<Rightarrow> http_response"
  assumes "cf_Role cfg = ''warmup''" and "Start ops now (NewEngine cfg reg) = (None, e0)"
    and "0 \<le> cf_ShadowMetricsKeep cfg" and "cf_ShadowMetricsKeep cfg < 2 ^ 62"
    and "\<forall>(r, d) \<in> set rs. shadow_get r" and "int (length rs) < 2 ^ 62"
  defines "e \<equiv> fold (engine_step ops app) (map (\<lambda>(r, d). EvRequest r d) rs) e0"
  shows "en_State e = progress_state (cf_ReadyAfter cfg) (int (length rs)) \<and>
    en_count e = int (length rs) \<and>
    (rs_Status (ReadinessHandler e) = StatusOK \<longleftrightarrow> rs \<noteq> [] \<and> cf_ReadyAfter cfg \<le> int (length rs)) \<and>
    (shadow_get r \<longrightarrow> fst (ShadowMiddleware ops app d r e) = Inr (app r))"
proof -
  have e: "progress_inv cfg (length rs) e"
    unfolding e_def by (rule progress_run [OF progress_start [OF assms(2,1)] assms(3,4,6,5)])
  then show ?thesis
    using progress_serve(2) [OF e _ assms(3,4,6)]
    by (auto simp: progress_inv_def ReadinessHandler_def Let_def progress_state_def)
qed

theorem warmup_progress_witness:
  "\<exists>e0. Start memory_ops 1 (NewEngine sample_cfg NewMemoryRegistry) = (None, e0) \<and>
    en_State (fold (engine_step memory_ops sample_app) [EvRequest shadow_request 7] e0) = StateWarming"
proof -
  define e0 where "e0 = snd (Start memory_ops 1 (NewEngine sample_cfg NewMemoryRegistry))"
  have start: "Start memory_ops 1 (NewEngine sample_cfg NewMemoryRegistry) = (None, e0)"
    by (simp add: e0_def engine_eval)
  show ?thesis
    using warmup_progress [of sample_cfg memory_ops 1 NewMemoryRegistry e0 "[(shadow_request, 7)]" sample_app]
      start by (simp add: sample_cfg_def progress_state_def shadow_get_def)
qed

section \<open>Lifecycle\<close>

lemma handleMirrorConfig_lifecycle:
  "validTransition\<^sup>*\<^sup>* (en_State e) (en_State (handleMirrorConfig ops cfg e))"
proof -
  have step: "validTransition s t \<Longrightarrow> validTransition\<^sup>*\<^sup>* s t" for s t
    by (rule r_into_rtranclp)
  have "validTransition\<^sup>*\<^sup>* StateRegistered StateReady"
    by (rule converse_rtranclp_into_rtranclp [of _ _ StateWarming]) (simp_all add: step)
  then show ?thesis
    by (auto simp: handleMirrorConfig_def Let_def step split: if_splits)
qed

lemma serve_lifecycle:
  "validTransition\<^sup>*\<^sup>* (en_State e) (en_State (snd (ShadowMiddleware ops app d r e)))"
proof -
  have step: "validTransition s t \<Longrightarrow> validTransition\<^sup>*\<^sup>* s t" for s t
    by (rule r_into_rtranclp)
  have "validTransition\<^sup>*\<^sup>* StateRegistered StateReady"
    by (rule converse_rtranclp_into_rtranclp [of _ _ StateWarming]) (simp_all add: step)
  then show ?thesis
    by (auto simp: ShadowMiddleware_def Let_def step split: prod.splits option.splits)
qed

lemma step_lifecycle:
  assumes "ev \<noteq> EvReset"
  shows "validTransition\<^sup>*\<^sup>* (en_State e) (en_State (engine_step ops app ev e))"
  using assms
proof (cases ev)
  case (EvMirror cfg)
  then show ?thesis
    using handleMirrorConfig_lifecycle [of e ops cfg] by (auto simp: rmw_mirror_def Let_def)
next
  case (EvRequest r d)
  then show ?thesis using serve_lifecycle [of e] by simp
qed (auto simp: rmw_defs Let_def intro!: r_into_rtranclp split: option.split)

lemma run_lifecycle:
  "EvReset \<notin> set es \<Longrightarrow>
    validTransition\<^sup>*\<^sup>* (en_State e) (en_State (fold (engine_step ops app) es e))"
proof (induction es arbitrary: e)
  case (Cons ev es)
  then have "validTransition\<^sup>*\<^sup>* (en_State e) (en_State (engine_step ops app ev e))"
    "validTransition\<^sup>*\<^sup>* (en_State (engine_step ops app ev e))
       (en_State (fold (engine_step ops app) es (engine_step ops app ev e)))"
    by (auto intro: step_lifecycle)
  then show ?case by (simp add: rtranclp_trans)
qed simp

lemma final_states:
  assumes "validTransition\<^sup>*\<^sup>* s t" and "s = StateFailed \<or> s = StateActive"
  shows "t = s"
  using assms by (induction rule: rtranclp_induct) auto

text \<open>
  C21: between benchmark resets the engine only moves along the documented lifecycle, and \<open>Failed\<close>
  and \<open>Active\<close> are final: a failed instance answers its probe with 503 and the body \<open>Failed\<close> for
  ever, an active one with 200. A reset of a warm-up instance brings it back to \<open>Registered\<close> with an
  empty window from every state. A timeout that is delivered before readiness makes the instance
  \<open>Failed\<close> and ends its goroutine; after readiness it changes no state.
\<close>

theorem engine_lifecycle:
  fixes e :: "'s engine"
  shows "(EvReset \<notin> set es \<longrightarrow>
      validTransition\<^sup>*\<^sup>* (en_State e) (en_State (fold (engine_step ops app) es e)) \<and>
      (en_State e = StateFailed \<longrightarrow> ReadinessHandler (fold (engine_step ops app) es e) =
         \<lparr>rs_Status = 503, rs_Body = ''Failed''\<rparr>) \<and>
      (en_State e = StateActive \<longrightarrow> rs_Status (ReadinessHandler (fold (engine_step ops app) es e)) = 200)) \<and>
    (cf_Role (en_cfg e) = ''warmup'' \<longrightarrow>
      en_State (engine_step ops app EvReset e) = StateRegistered \<and>
      en_shadow (engine_step ops app EvReset e) = NewShadowMetrics (cf_ShadowMetricsKeep (en_cfg e))) \<and>
    (en_watcher e = WatchLoop \<and> en_timer e = TimerFired \<longrightarrow>
      (if en_State e = StateReady \<or> en_State e = StateActive
       then engine_step ops app EvTimeout e = e\<lparr>en_timer := TimerOff\<rparr>
       else en_watcher (engine_step ops app EvTimeout e) = WatchReturned \<and>
         (named_state (en_State e) \<longrightarrow> en_State (engine_step ops app EvTimeout e) = StateFailed)))"
proof (intro conjI impI)
  assume es: "EvReset \<notin> set es"
  note run = run_lifecycle [OF es, of e ops app]
  show "validTransition\<^sup>*\<^sup>* (en_State e) (en_State (fold (engine_step ops app) es e))"
    by (rule run)
  show "ReadinessHandler (fold (engine_step ops app) es e) = \<lparr>rs_Status = 503, rs_Body = ''Failed''\<rparr>"
    if "en_State e = StateFailed"
    using final_states [OF run] that by (simp add: ReadinessHandler_def)
  show "rs_Status (ReadinessHandler (fold (engine_step ops app) es e)) = 200"
    if "en_State e = StateActive"
    using final_states [OF run] that by (simp add: ReadinessHandler_def)
next
  assume "cf_Role (en_cfg e) = ''warmup''"
  then show "en_State (engine_step ops app EvReset e) = StateRegistered"
    "en_shadow (engine_step ops app EvReset e) = NewShadowMetrics (cf_ShadowMetricsKeep (en_cfg e))"
    by (simp_all add: ResetBenchmark_def Let_def split: prod.split)
next
  assume "en_watcher e = WatchLoop \<and> en_timer e = TimerFired"
  then show "if en_State e = StateReady \<or> en_State e = StateActive
       then engine_step ops app EvTimeout e = e\<lparr>en_timer := TimerOff\<rparr>
       else en_watcher (engine_step ops app EvTimeout e) = WatchReturned \<and>
         (named_state (en_State e) \<longrightarrow> en_State (engine_step ops app EvTimeout e) = StateFailed)"
    by (cases "en_State e") (simp_all add: rmw_timeout_def Let_def)
qed

theorem engine_lifecycle_witness:
  "ReadinessHandler (fold (engine_step memory_ops sample_app) [EvRequest shadow_request 7, EvTimeout]
      ((NewEngine sample_cfg NewMemoryRegistry)\<lparr>en_fsm := Force StateFailed NewFSM\<rparr>)) =
    \<lparr>rs_Status = 503, rs_Body = ''Failed''\<rparr>"
proof -
  let ?e = "(NewEngine sample_cfg NewMemoryRegistry)\<lparr>en_fsm := Force StateFailed NewFSM\<rparr>"
  have "EvReset \<notin> set [EvRequest shadow_request 7, EvTimeout]" "en_State ?e = StateFailed"
    by simp_all
  then show ?thesis
    using engine_lifecycle [of "[EvRequest shadow_request 7, EvTimeout]" ?e memory_ops sample_app] by blast
qed

section \<open>The registry follows the engine\<close>

text \<open>
  The instance's record is in the registry, holds the engine's state, and differs from the record of
  \<open>Start\<close> in nothing else.
\<close>

definition en_synced :: "('s \<Rightarrow> string \<Rightarrow> string \<Rightarrow> InstanceRecord option) \<Rightarrow> ('s \<Rightarrow> bool) \<Rightarrow> (InstanceRecord \<Rightarrow> bool) \<Rightarrow>
    InstanceRecord \<Rightarrow> 's engine \<Rightarrow> bool" where
  "en_synced look live plain rec e \<longleftrightarrow> live (en_reg e) \<and> named_state (en_State e) \<and> plain rec \<and>
     look (en_reg e) (cf_ServiceName (en_cfg e)) (cf_InstanceID (en_cfg e)) = Some (rec\<lparr>ir_State := en_State e\<rparr>)"

lemma en_synced_updates [simp]:
  "en_synced look live plain rec (e\<lparr>en_shadow := sm\<rparr>) = en_synced look live plain rec e"
  "en_synced look live plain rec (e\<lparr>en_watcher := w\<rparr>) = en_synced look live plain rec e"
  "en_synced look live plain rec (e\<lparr>en_timer := t\<rparr>) = en_synced look live plain rec e"
  by (simp_all add: en_synced_def)

context registry_contract
begin

lemma synced_publish:
  assumes "en_synced look live plain rec e" "good (cf_ServiceName (en_cfg e))" "good (cf_InstanceID (en_cfg e))"
    "named_state st"
  shows "\<exists>s'. rg_UpdateInstanceState ops (cf_ServiceName (en_cfg e)) (cf_InstanceID (en_cfg e)) st (en_reg e) =
      (None, s') \<and> live s' \<and>
      look s' (cf_ServiceName (en_cfg e)) (cf_InstanceID (en_cfg e)) = Some (rec\<lparr>ir_State := st\<rparr>)"
proof -
  have "plain (rec\<lparr>ir_State := en_State e\<rparr>)"
    using assms(1) plain_state by (simp add: en_synced_def)
  then show ?thesis
    using update [of "en_reg e" _ _ "rec\<lparr>ir_State := en_State e\<rparr>" st] assms by (fastforce simp: en_synced_def)
qed

lemma synced_enter:
  assumes "en_synced look live plain rec e" "good (cf_ServiceName (en_cfg e))" "good (cf_InstanceID (en_cfg e))"
    "named_state st" "validTransition (en_State e) st \<or> en_State e = st"
  shows "en_synced look live plain rec (enter ops st e)"
proof -
  have "en_State (enter ops st e) = st"
    using assms(5) by auto
  moreover have "en_reg (enter ops st e) = snd (rg_UpdateInstanceState ops (cf_ServiceName (en_cfg e))
      (cf_InstanceID (en_cfg e)) st (en_reg e))"
    by (simp add: enter_def e_publish_def e_transition_def)
  ultimately show ?thesis
    using synced_publish [OF assms(1-4)] assms(1,4) by (auto simp: en_synced_def)
qed

lemma synced_serve:
  assumes "en_synced look live plain rec e" "good (cf_ServiceName (en_cfg e))" "good (cf_InstanceID (en_cfg e))"
  shows "en_synced look live plain rec (snd (ShadowMiddleware ops app d r e))"
proof -
  have "en_synced look live plain rec (if en_State e = StateRegistered then enter ops StateWarming e else e)"
    using synced_enter [OF assms, of StateWarming] assms(1) by simp
  then show ?thesis
    using assms synced_enter [where st = StateReady]
    by (auto simp: ShadowMiddleware_def Let_def split: prod.split option.split)
qed

lemma synced_handle:
  assumes "en_synced look live plain rec e" "good (cf_ServiceName (en_cfg e))" "good (cf_InstanceID (en_cfg e))"
  shows "en_synced look live plain rec (handleMirrorConfig ops cfg e)"
  using assms by (auto simp: handleMirrorConfig_def Let_def intro!: synced_enter)

lemma synced_step:
  assumes "en_synced look live plain rec e" "good (cf_ServiceName (en_cfg e))" "good (cf_InstanceID (en_cfg e))"
  shows "en_synced look live plain rec (engine_step ops app ev e)"
proof (cases ev)
  case EvBegin
  have "rg_WatchMirror ops (cf_ServiceName (en_cfg e)) (en_reg e) = None"
    using assms(1) by (simp add: en_synced_def watch_ok)
  then show ?thesis using assms(1) by (simp add: EvBegin rmw_begin_def)
next
  case (EvMirror cfg)
  then show ?thesis using synced_handle [OF assms, of cfg] assms(1) by (simp add: rmw_mirror_def Let_def)
next
  case EvTimeout
  have named: "named_state (en_State e)" using assms(1) by (simp add: en_synced_def)
  have "en_synced look live plain rec (enter ops StateFailed (e\<lparr>en_timer := TimerOff\<rparr>))"
    if "en_State e \<noteq> StateReady" "en_State e \<noteq> StateActive"
    using that named assms by (intro synced_enter) (cases "en_State e"; simp)+
  then show ?thesis using assms(1) by (auto simp: EvTimeout rmw_timeout_def Let_def)
next
  case (EvRequest r d)
  then show ?thesis using synced_serve [OF assms] by simp
next
  case EvReset
  then show ?thesis
    using synced_publish [OF assms, of StateRegistered] assms(1)
    by (auto simp: ResetBenchmark_def Let_def en_synced_def)
qed (use assms(1) in \<open>simp_all add: rmw_return_def\<close>)

lemma synced_run:
  assumes "en_synced look live plain rec e" "good (cf_ServiceName (en_cfg e))" "good (cf_InstanceID (en_cfg e))"
  shows "en_synced look live plain rec (fold (engine_step ops app) es e) \<and>
    en_cfg (fold (engine_step ops app) es e) = en_cfg e"
  by (rule fold_invariant_list) (use assms synced_step in \<open>auto\<close>)

lemma synced_start:
  assumes "live reg" "good (cf_ServiceName cfg)" "good (cf_InstanceID cfg)" "cf_Role cfg = ''warmup''"
    and "plain rec" "rec = \<lparr>ir_Addr = cf_ListenAddr cfg, ir_State = StateRegistered, ir_Role = ''warmup'', ir_StartedAt = now\<rparr>"
  shows "\<exists>e. Start ops now (NewEngine cfg reg) = (None, e) \<and> en_synced look live plain rec e \<and> en_cfg e = cfg"
proof -
  obtain s1 where s1: "rg_RegisterInstance ops (cf_ServiceName cfg) (cf_InstanceID cfg) rec reg = (None, s1)"
      "live s1" "look s1 (cf_ServiceName cfg) (cf_InstanceID cfg) = Some rec"
    using register [OF assms(1-3,5)] by blast
  define e1 where "e1 = (NewEngine cfg reg)\<lparr>en_reg := s1, en_fsm := \<lparr>fsm_state = StateRegistered\<rparr>\<rparr>"
  have e1: "en_synced look live plain rec e1" "en_cfg e1 = cfg"
    using s1 assms(5,6) by (simp_all add: e1_def en_synced_def NewEngine_def en_State_def)
  obtain s2 where s2: "rg_UpdateInstanceState ops (cf_ServiceName cfg) (cf_InstanceID cfg) StateRegistered s1 = (None, s2)"
      "live s2" "look s2 (cf_ServiceName cfg) (cf_InstanceID cfg) = Some (rec\<lparr>ir_State := StateRegistered\<rparr>)"
    using synced_publish [OF e1(1), of StateRegistered] assms(2,3) e1(2) by (auto simp: e1_def)
  have "Start ops now (NewEngine cfg reg) = (None, e1\<lparr>en_reg := s2, en_watcher := WatchSpawned\<rparr>)"
    using s1(1) s2(1) assms(4) unfolding assms(6)
    by (simp add: Start_def NewEngine_def NewFSM_def Transition_def e_publish_def e1_def)
  then show ?thesis
    using s2 assms(5) e1(2) by (auto simp: en_synced_def e1_def)
qed

lemma start_others:
  assumes "live reg" "good (cf_ServiceName cfg)" "good (cf_InstanceID cfg)" "cf_Role cfg = ''warmup''"
    and "plain \<lparr>ir_Addr = cf_ListenAddr cfg, ir_State = StateRegistered, ir_Role = ''warmup'', ir_StartedAt = now\<rparr>"
    and "good a" "good b" "(a, b) \<noteq> (cf_ServiceName cfg, cf_InstanceID cfg)"
  shows "look (en_reg (snd (Start ops now (NewEngine cfg reg)))) a b = look reg a b"
proof -
  let ?rec = "\<lparr>ir_Addr = cf_ListenAddr cfg, ir_State = StateRegistered, ir_Role = ''warmup'', ir_StartedAt = now\<rparr>"
  obtain s1 where s1: "rg_RegisterInstance ops (cf_ServiceName cfg) (cf_InstanceID cfg) ?rec reg = (None, s1)"
      "live s1" "look s1 (cf_ServiceName cfg) (cf_InstanceID cfg) = Some ?rec"
      "\<forall>a b. good a \<longrightarrow> good b \<longrightarrow> (a, b) \<noteq> (cf_ServiceName cfg, cf_InstanceID cfg) \<longrightarrow> look s1 a b = look reg a b"
    using register [OF assms(1-3,5)] by blast
  obtain s2 where s2: "rg_UpdateInstanceState ops (cf_ServiceName cfg) (cf_InstanceID cfg) StateRegistered s1 = (None, s2)"
      "\<forall>a b. good a \<longrightarrow> good b \<longrightarrow> (a, b) \<noteq> (cf_ServiceName cfg, cf_InstanceID cfg) \<longrightarrow> look s2 a b = look s1 a b"
    using update [OF s1(2) assms(2,3) s1(3) assms(5), of StateRegistered] by auto
  have "en_reg (snd (Start ops now (NewEngine cfg reg))) = s2"
    using s1(1) s2(1) assms(4) by (simp add: Start_def NewEngine_def NewFSM_def Transition_def e_publish_def)
  then show ?thesis
    using s1(4) s2(2) assms(6-8) by simp
qed

end

text \<open>
  C4: with a ZooKeeper session that answers, \<open>Start\<close> of a warm-up instance succeeds, and from then
  on, after every handler run to its end, the instance's record in ZooKeeper holds the engine's
  state, with the address, role and start time it was registered with.
\<close>

theorem registry_follows_engine:
  fixes app :: "http_request \<Rightarrow> http_response"
  assumes "zk_reliable c view alive" and "codec_ok j" and "zk_live view alive z"
    and "part_ok (cf_ServiceName cfg)" and "part_ok (cf_InstanceID cfg)" and "cf_Role cfg = ''warmup''"
    and "ascii (cf_ListenAddr cfg)" and "in_i64 now"
  shows "\<exists>e0. Start (zk_ops c j) now (NewEngine cfg z) = (None, e0) \<and>
    (\<forall>es. let e = fold (engine_step (zk_ops c j) app) es e0
      in zk_look view j (en_reg e) (cf_ServiceName cfg) (cf_InstanceID cfg) =
         Some \<lparr>ir_Addr = cf_ListenAddr cfg, ir_State = en_State e, ir_Role = ''warmup'', ir_StartedAt = now\<rparr>)"
proof -
  note contract = zk_registry_contract [OF assms(1,2)]
  let ?rec = "\<lparr>ir_Addr = cf_ListenAddr cfg, ir_State = StateRegistered, ir_Role = ''warmup'', ir_StartedAt = now\<rparr>"
  have "plain_inst ?rec"
    using assms(7,8) by (simp add: wf_simps)
  then obtain e0 where e0: "Start (zk_ops c j) now (NewEngine cfg z) = (None, e0)" "en_cfg e0 = cfg"
      "en_synced (zk_look view j) (zk_live view alive) plain_inst ?rec e0"
    using registry_contract.synced_start [OF contract assms(3-6) _ refl] by blast
  have "zk_look view j (en_reg e) (cf_ServiceName cfg) (cf_InstanceID cfg) =
      Some \<lparr>ir_Addr = cf_ListenAddr cfg, ir_State = en_State e, ir_Role = ''warmup'', ir_StartedAt = now\<rparr>"
    if "e = fold (engine_step (zk_ops c j) app) es e0" for e es
  proof -
    have "en_synced (zk_look view j) (zk_live view alive) plain_inst ?rec e" "en_cfg e = cfg"
      using registry_contract.synced_run [OF contract e0(3)] e0(2) assms(4,5) that by simp_all
    then show ?thesis by (simp add: en_synced_def)
  qed
  then show ?thesis
    using e0(1) by (simp add: Let_def)
qed

theorem registry_follows_engine_witness:
  "\<exists>e0. Start (zk_ops tree_conn plain_codec) 1 (NewEngine sample_cfg Map.empty) = (None, e0) \<and>
    (let e = engine_step (zk_ops tree_conn plain_codec) sample_app (EvRequest shadow_request 7) e0
     in zk_look (\<lambda>z. z) plain_codec (en_reg e) ''svc'' ''i1'' =
       Some \<lparr>ir_Addr = ''h:1'', ir_State = en_State e, ir_Role = ''warmup'', ir_StartedAt = 1\<rparr>)"
proof -
  have "part_ok (cf_ServiceName sample_cfg)" "part_ok (cf_InstanceID sample_cfg)"
    "cf_Role sample_cfg = ''warmup''" "ascii (cf_ListenAddr sample_cfg)" "in_i64 1"
    by (simp_all add: sample_cfg_def wf_simps)
  from registry_follows_engine [OF tree_reliable plain_codec_ok tree_empty_live this, of sample_app]
  obtain e0 where e0: "Start (zk_ops tree_conn plain_codec) 1 (NewEngine sample_cfg Map.empty) = (None, e0)"
    and all: "\<forall>es. let e = fold (engine_step (zk_ops tree_conn plain_codec) sample_app) es e0
      in zk_look (\<lambda>z. z) plain_codec (en_reg e) (cf_ServiceName sample_cfg) (cf_InstanceID sample_cfg) =
         Some \<lparr>ir_Addr = cf_ListenAddr sample_cfg, ir_State = en_State e, ir_Role = ''warmup'', ir_StartedAt = 1\<rparr>"
    by blast
  from all [rule_format, of "[EvRequest shadow_request 7]"] e0 show ?thesis
    by (simp add: sample_cfg_def Let_def)
qed

end
