(* ===== verification/GoParse.thy ===== *)
theory GoParse
  imports Float64 GoStrings
begin

text \<open>
  The standard library's readers of numbers and queries beyond base ten: \<open>strconv.ParseFloat\<close>,
  \<open>fmt.Sscan\<close> into an integer, and \<open>URL.Query().Get\<close>.
\<close>

section \<open>strconv.ParseFloat\<close>

definition lower_char :: "char \<Rightarrow> char" where
  "lower_char c = (let n = of_char c :: nat in if 65 \<le> n \<and> n \<le> 90 then char_of (n + 32) else c)"

definition is_digit :: "char \<Rightarrow> bool" where
  "is_digit c = (digit_of c \<noteq> None)"

definition digits_value :: "string \<Rightarrow> int" where
  "digits_value ds = foldl (\<lambda>acc c. acc * 10 + the (digit_of c)) 0 ds"

text \<open>The exponent loop stops accumulating at 10000.\<close>

definition exponent_value :: "string \<Rightarrow> int" where
  "exponent_value ds = foldl (\<lambda>e c. if e < 10000 then e * 10 + the (digit_of c) else e) 0 ds"

text \<open>A decimal mantissa with optional fraction and exponent, as \<open>m * 10 ^ k\<close>.\<close>

definition parse_decimal :: "string \<Rightarrow> (int \<times> int) option" where
  "parse_decimal s =
     (let ip = takeWhile is_digit s; r1 = dropWhile is_digit s;
          (fp, r2) = (case r1 of
             c # r \<Rightarrow> if c = CHR ''.'' then (takeWhile is_digit r, dropWhile is_digit r) else ([], r1)
           | [] \<Rightarrow> ([], r1));
          m = digits_value (ip @ fp); k = - int (length fp)
      in if ip @ fp = [] then None
         else case r2 of
           [] \<Rightarrow> Some (m, k)
         | c # r3 \<Rightarrow>
             if lower_char c \<noteq> CHR ''e'' then None
             else case sign_split r3 of (neg, r4) \<Rightarrow>
               if r4 = [] \<or> \<not> list_all is_digit r4 then None
               else Some (m, k + (if neg then - exponent_value r4 else exponent_value r4)))"

text \<open>
  Hexadecimal literals and underscores are left to \<open>exotic\<close>. The model has one zero, so a minus sign
  before a zero is lost.
\<close>

definition parse_float :: "(string \<Rightarrow> num_error + f64) \<Rightarrow> string \<Rightarrow> num_error + f64" where
  "parse_float exotic s =
     (case sign_split s of (neg, u) \<Rightarrow>
        let l = map lower_char u
        in if l = ''inf'' \<or> l = ''infinity'' then Inr (if neg then NInf else PInf)
           else if map lower_char s = ''nan'' then Inr NaN
           else if CHR ''_'' \<in> set s \<or> take 2 l = ''0x'' then exotic s
           else case parse_decimal u of
             None \<Rightarrow> Inl ErrSyntax
           | Some (m, k) \<Rightarrow>
               (case f64_of (of_int (if neg then - m else m) * 10 powi k) of
                  Fin x \<Rightarrow> Inr (Fin x)
                | _ \<Rightarrow> Inl ErrRange))"

lemma parse_float_is_f64:
  assumes "parse_float exotic s = Inr v" and "\<And>s v. exotic s = Inr v \<Longrightarrow> is_f64 v"
  shows "is_f64 v"
proof -
  have "is_f64 (f64_of x)" for x
    by (auto simp: f64_of_def Let_def)
  then show ?thesis
    using assms by (auto simp: parse_float_def Let_def split: prod.splits if_splits option.splits f64.splits)
qed

section \<open>fmt.Sscan into an integer\<close>

text \<open>
  A token is an optional sign, an optional base prefix and the longest run of the base's digits and
  underscores; what follows the token is not looked at. \<open>strconv.ParseInt\<close> with base 0 converts it.
\<close>

definition digit_value :: "char \<Rightarrow> int" where
  "digit_value c = (let n = of_char (lower_char c) :: nat in
     if 48 \<le> n \<and> n \<le> 57 then int n - 48 else if 97 \<le> n \<and> n \<le> 122 then int n - 87 else 100)"

definition in_base :: "int \<Rightarrow> char \<Rightarrow> bool" where
  "in_base base c \<longleftrightarrow> digit_value c < base \<or> c = CHR ''_''"

datatype scan_error = ScanEOF | ScanExpected | ScanNum num_error

definition base_of :: "char \<Rightarrow> int" where
  "base_of c = (let l = lower_char c in
     if l = CHR ''b'' then 2 else if l = CHR ''o'' then 8 else if l = CHR ''x'' then 16 else 10)"

text \<open>\<open>scanBasePrefix\<close> and \<open>scanNumber\<close>: the token's number, without its sign.\<close>

definition scan_number :: "string \<Rightarrow> scan_error + string" where
  "scan_number s =
     (case s of
        [] \<Rightarrow> Inl ScanEOF
      | c # cs \<Rightarrow>
          if c \<noteq> CHR ''0'' then
            (if in_base 10 c then Inr (takeWhile (in_base 10) s) else Inl ScanExpected)
          else case cs of
            [] \<Rightarrow> Inr ''0''
          | p # ps \<Rightarrow>
              if base_of p \<noteq> 10 then Inr (c # p # takeWhile (in_base (base_of p)) ps)
              else Inr (c # takeWhile (in_base 8) cs))"

text \<open>\<open>underscoreOK\<close> on a number without sign, with \<open>saw\<close> the kind of the last character.\<close>

datatype saw = SawStart | SawDigit | SawUnderscore | SawOther

fun underscores :: "bool \<Rightarrow> saw \<Rightarrow> string \<Rightarrow> bool" where
  "underscores hex saw [] = (saw \<noteq> SawUnderscore)"
| "underscores hex saw (c # cs) =
     (if digit_value c < (if hex then 16 else 10) then underscores hex SawDigit cs
      else if c = CHR ''_'' then saw = SawDigit \<and> underscores hex SawUnderscore cs
      else saw \<noteq> SawUnderscore \<and> underscores hex SawOther cs)"

definition underscoreOK :: "string \<Rightarrow> bool" where
  "underscoreOK s =
     (case s of
        c # p # ps \<Rightarrow> if c = CHR ''0'' \<and> base_of p \<noteq> 10 then underscores (base_of p = 16) SawDigit ps
                       else underscores False SawStart s
      | _ \<Rightarrow> underscores False SawStart s)"

fun base_digits :: "int \<Rightarrow> int \<Rightarrow> string \<Rightarrow> num_error + int" where
  "base_digits base acc [] = Inr acc"
| "base_digits base acc (c # cs) =
     (if c = CHR ''_'' then base_digits base acc cs
      else if base \<le> digit_value c then Inl ErrSyntax
      else if 2 ^ 64 \<le> acc * base + digit_value c then Inl ErrRange
      else base_digits base (acc * base + digit_value c) cs)"

definition parse_uint0 :: "string \<Rightarrow> num_error + int" where
  "parse_uint0 s =
     (if s = [] then Inl ErrSyntax
      else
        let (base, ds) = (if hd s \<noteq> CHR ''0'' then (10, s)
                          else if 3 \<le> length s \<and> base_of (s ! 1) \<noteq> 10 then (base_of (s ! 1), drop 2 s)
                          else (8, tl s))
        in res_bind (base_digits base 0 ds) (\<lambda>n.
             if CHR ''_'' \<in> set ds \<and> \<not> underscoreOK s then Inl ErrSyntax else Inr n))"

text \<open>\<open>fmt.Sscan(s, &v)\<close> for an \<open>int\<close> or \<open>int64\<close> variable.\<close>

definition scan_int :: "string \<Rightarrow> scan_error + int" where
  "scan_int s =
     (let t = strip space_seqs s
      in if t = [] then Inl ScanEOF
         else case sign_split t of (neg, u) \<Rightarrow>
           res_bind (scan_number u) (\<lambda>tok.
             case parse_uint0 tok of
               Inl e \<Rightarrow> Inl (ScanNum e)
             | Inr un \<Rightarrow>
                 if \<not> neg \<and> 2 ^ 63 \<le> un \<or> neg \<and> 2 ^ 63 < un then Inl (ScanNum ErrRange)
                 else Inr (if neg then - un else un)))"

section \<open>URL.Query().Get\<close>

definition hex_value :: "char \<Rightarrow> int option" where
  "hex_value c = (if digit_value c < 16 then Some (digit_value c) else None)"

fun QueryUnescape :: "string \<Rightarrow> string option" where
  "QueryUnescape [] = Some []"
| "QueryUnescape (c # cs) =
     (if c = CHR ''%'' then
        (case cs of
           h # l # rest \<Rightarrow>
             (case (hex_value h, hex_value l) of
                (Some a, Some b) \<Rightarrow> map_option (\<lambda>t. char_of (nat (a * 16 + b)) # t) (QueryUnescape rest)
              | _ \<Rightarrow> None)
         | _ \<Rightarrow> None)
      else map_option (\<lambda>t. (if c = CHR ''+'' then CHR '' '' else c) # t) (QueryUnescape cs))"

text \<open>\<open>strings.Cut\<close> at the first occurrence of a byte; without one the rest is empty.\<close>

definition Cut :: "char \<Rightarrow> string \<Rightarrow> string \<times> string" where
  "Cut sep s = (takeWhile (\<lambda>c. c \<noteq> sep) s, drop 1 (dropWhile (\<lambda>c. c \<noteq> sep) s))"

definition query_pair :: "string \<Rightarrow> (string \<times> string) option" where
  "query_pair kv =
     (if CHR '';'' \<in> set kv \<or> kv = [] then None
      else case Cut (CHR ''='') kv of (k, v) \<Rightarrow>
        (case (QueryUnescape k, QueryUnescape v) of
           (Some k', Some v') \<Rightarrow> Some (k', v')
         | _ \<Rightarrow> None))"

definition ParseQuery :: "string \<Rightarrow> (string \<times> string) list" where
  "ParseQuery q = List.map_filter query_pair (Split (CHR ''&'') q)"

definition query_Get :: "string \<Rightarrow> string \<Rightarrow> string" where
  "query_Get q key = (case find (\<lambda>(k, v). k = key) (ParseQuery q) of None \<Rightarrow> [] | Some (k, v) \<Rightarrow> v)"

section \<open>Reading back printed integers\<close>

lemma digit_chars:
  "digit_char 0 = CHR ''0''" "digit_char 1 = CHR ''1''" "digit_char 2 = CHR ''2''" "digit_char 3 = CHR ''3''"
  "digit_char 4 = CHR ''4''" "digit_char 5 = CHR ''5''" "digit_char 6 = CHR ''6''" "digit_char 7 = CHR ''7''"
  "digit_char 8 = CHR ''8''" "digit_char 9 = CHR ''9''"
  by code_simp+

lemma digit_char_facts:
  assumes "d < 10"
  shows "digit_value (digit_char d) = int d" "in_base 10 (digit_char d)" "base_of (digit_char d) = 10"
    "digit_char d \<noteq> CHR ''_''" "digit_char d \<noteq> CHR ''%''" "digit_char d \<noteq> CHR ''+''"
    "digit_char d \<noteq> CHR ''&''" "digit_char d \<noteq> CHR ''=''" "digit_char d \<noteq> CHR '';''"
    "digit_char d \<noteq> CHR ''-''" "digit_char d = CHR ''0'' \<longleftrightarrow> d = 0"
proof -
  have "d \<in> {0, 1, 2, 3, 4, 5, 6, 7, 8, 9}" using assms by auto
  then show "digit_value (digit_char d) = int d" "in_base 10 (digit_char d)" "base_of (digit_char d) = 10"
    "digit_char d \<noteq> CHR ''_''" "digit_char d \<noteq> CHR ''%''" "digit_char d \<noteq> CHR ''+''"
    "digit_char d \<noteq> CHR ''&''" "digit_char d \<noteq> CHR ''=''" "digit_char d \<noteq> CHR '';''"
    "digit_char d \<noteq> CHR ''-''" "digit_char d = CHR ''0'' \<longleftrightarrow> d = 0"
    by (auto simp: digit_chars [simplified One_nat_def] digit_value_def in_base_def base_of_def lower_char_def Let_def)
qed

lemma show_nat_digits: "c \<in> set (show_nat n) \<Longrightarrow> \<exists>d < 10. c = digit_char d"
proof (induction n rule: show_nat.induct)
  case (1 n)
  show ?case
  proof (cases "n < 10")
    case True
    then show ?thesis using "1.prems" by (auto simp: show_nat.simps [of n])
  next
    case False
    then have "c \<in> set (show_nat (n div 10)) \<or> c = digit_char (n mod 10)"
      using "1.prems" by (auto simp: show_nat.simps [of n])
    then show ?thesis using "1.IH" False by (metis mod_less_divisor zero_less_numeral)
  qed
qed

lemma show_nat_head_zero: "hd (show_nat n) = CHR ''0'' \<longleftrightarrow> n = 0"
proof (induction n rule: show_nat.induct)
  case (1 n)
  show ?case
  proof (cases "n < 10")
    case True
    then show ?thesis by (simp add: show_nat.simps [of n] digit_char_facts(11))
  next
    case False
    moreover have "show_nat (n div 10) \<noteq> []"
      using show_nat_head [of "n div 10"] by auto
    ultimately show ?thesis
      using "1.IH" by (simp add: show_nat.simps [of n] div_eq_0_iff)
  qed
qed

lemma base_digits_parse:
  "\<forall>c \<in> set ds. \<exists>d < 10. c = digit_char d \<Longrightarrow> base_digits 10 acc ds = parse_digits acc ds"
  by (induction ds arbitrary: acc) (auto simp: digit_char_facts)

lemma takeWhile_digits: "takeWhile (in_base 10) (show_nat n) = show_nat n"
  by (rule takeWhile_eq_all_conv [THEN iffD2]) (use show_nat_digits digit_char_facts(2) in blast)

lemma show_nat_no: "c \<in> {CHR ''_'', CHR ''%'', CHR ''+'', CHR ''&'', CHR ''='', CHR '';'', CHR ''-''} \<Longrightarrow>
    c \<notin> set (show_nat n)"
proof
  assume c: "c \<in> {CHR ''_'', CHR ''%'', CHR ''+'', CHR ''&'', CHR ''='', CHR '';'', CHR ''-''}" "c \<in> set (show_nat n)"
  obtain d where "d < 10" "c = digit_char d"
    using show_nat_digits [OF c(2)] by blast
  then show False
    using c(1) digit_char_facts(4-10) [of d] by auto
qed

lemma parse_uint0_show_nat:
  assumes "int n < 2 ^ 64"
  shows "scan_number (show_nat n) = Inr (show_nat n)" and "parse_uint0 (show_nat n) = Inr (int n)"
proof -
  obtain d ds where h: "show_nat n = digit_char d # ds" "d < 10"
    using show_nat_head by blast
  show "scan_number (show_nat n) = Inr (show_nat n)"
  proof (cases "n = 0")
    case True
    then show ?thesis by (simp add: scan_number_def show_nat.simps [of 0] digit_chars)
  next
    case False
    then have "digit_char d \<noteq> CHR ''0''" using show_nat_head_zero [of n] h by simp
    then have "scan_number (show_nat n) = Inr (takeWhile (in_base 10) (show_nat n))"
      using h digit_char_facts(2) [OF h(2)] by (simp add: scan_number_def)
    then show ?thesis by (simp add: takeWhile_digits)
  qed
  have dig: "base_digits 10 0 (show_nat n) = Inr (int n)"
    using parse_digits_show_nat [OF assms] base_digits_parse show_nat_digits by (metis (no_types, lifting))
  show "parse_uint0 (show_nat n) = Inr (int n)"
  proof (cases "n = 0")
    case True
    then show ?thesis by (simp add: parse_uint0_def show_nat.simps [of 0] digit_chars)
  next
    case False
    then have "hd (show_nat n) \<noteq> CHR ''0''" "show_nat n \<noteq> []"
      using show_nat_head_zero [of n] h by simp_all
    then show ?thesis using dig show_nat_no [of "CHR ''_''"] by (simp add: parse_uint0_def)
  qed
qed

lemma strip_length: "length (strip ps s) \<le> length s"
proof -
  obtain pre where "s = pre @ strip ps s"
    using strip_suffix by blast
  then have "length s = length pre + length (strip ps s)"
    by (metis length_append)
  then show ?thesis by simp
qed

lemma strip_TrimSpace:
  assumes "TrimSpace s = s"
  shows "strip space_seqs s = s"
proof -
  let ?t = "strip space_seqs s"
  have "length s = length (strip (map rev space_seqs) (rev ?t))"
    using arg_cong [OF assms, of length] by (simp add: TrimSpace_def)
  also have "\<dots> \<le> length ?t"
    using strip_length [of "map rev space_seqs" "rev ?t"] by simp
  finally have long: "length s \<le> length ?t" .
  obtain pre where pre: "s = pre @ ?t"
    using strip_suffix by blast
  have "length s = length pre + length ?t"
    by (subst pre) (rule length_append)
  then have "pre = []" using long by simp
  then show ?thesis using pre by simp
qed

lemma scan_int_show_int:
  assumes "in_i64 k"
  shows "scan_int (show_int k) = Inr k"
proof -
  have "strip space_seqs (show_int k) = show_int k"
    by (rule strip_TrimSpace [OF TrimSpace_show_int])
  moreover have "int (nat \<bar>k\<bar>) < 2 ^ 64"
    using assms by (simp add: in_i64_def abs_if)
  note parse_uint0_show_nat [OF this]
  then have un: "scan_number (show_nat (nat \<bar>k\<bar>)) = Inr (show_nat (nat \<bar>k\<bar>))"
    "parse_uint0 (show_nat (nat \<bar>k\<bar>)) = Inr \<bar>k\<bar>"
    by simp_all
  moreover obtain d ds where h: "show_nat (nat \<bar>k\<bar>) = digit_char d # ds" "d < 10"
    using show_nat_head by blast
  ultimately show ?thesis
    using assms un digit_char_facts(6,10) [OF h(2)]
    by (auto simp: scan_int_def show_int_def sign_split_def in_i64_def Let_def)
qed

lemma QueryUnescape_plain: "CHR ''%'' \<notin> set s \<Longrightarrow> CHR ''+'' \<notin> set s \<Longrightarrow> QueryUnescape s = Some s"
  by (induction s) auto

lemma show_int_plain: "c \<in> {CHR ''%'', CHR ''+'', CHR ''&'', CHR ''='', CHR '';''} \<Longrightarrow> c \<notin> set (show_int k)"
  using show_nat_no [of c] by (auto simp: show_int_def)

lemma query_pair_plain:
  assumes "\<forall>c \<in> {CHR ''%'', CHR ''+'', CHR ''='', CHR '';''}. c \<notin> set k" "\<forall>c \<in> {CHR ''%'', CHR ''+'', CHR '';''}. c \<notin> set v"
  shows "query_pair (k @ CHR ''='' # v) = Some (k, v)"
proof -
  have "takeWhile (\<lambda>c. c \<noteq> CHR ''='') (k @ CHR ''='' # v) = k"
    "dropWhile (\<lambda>c. c \<noteq> CHR ''='') (k @ CHR ''='' # v) = CHR ''='' # v"
    using assms(1) by (induction k) auto
  then have "Cut (CHR ''='') (k @ CHR ''='' # v) = (k, v)"
    by (simp add: Cut_def)
  then show ?thesis using assms by (simp add: query_pair_def QueryUnescape_plain)
qed

end
