(* ===== verification/Envcfg.thy ===== *)
theory Envcfg
  imports GoStrings
begin

text \<open>
  Package \<open>internal/envcfg\<close>: typed readers of environment variables without numeric fallbacks. The
  environment of the process is a partial map; every reader returns a value or the error of the
  branch that refused it.
\<close>

type_synonym env = "string \<rightharpoonup> string"

datatype env_error =
    NotSet string                \<comment> \<open>required environment variable is not set\<close>
  | BadValue string num_error    \<comment> \<open>environment variable key: strconv error\<close>
  | EmptyAfterSplit string

definition Required :: "env \<Rightarrow> string \<Rightarrow> env_error + string" where
  "Required env key =
     (case env key of
        None \<Rightarrow> Inl (NotSet key)
      | Some v \<Rightarrow> if TrimSpace v = [] then Inl (NotSet key) else Inr v)"

text \<open>\<open>fmt.Errorf("environment variable %q: %w", key, err)\<close> around a conversion\<close>

definition wrap_err :: "string \<Rightarrow> num_error + 'a \<Rightarrow> env_error + 'a" where
  "wrap_err key r = (case r of Inl e \<Rightarrow> Inl (BadValue key e) | Inr v \<Rightarrow> Inr v)"

definition RequiredInt :: "env \<Rightarrow> string \<Rightarrow> env_error + int" where
  "RequiredInt env key = res_bind (Required env key) (\<lambda>s. wrap_err key (parse_int s))"

definition RequiredInt64 :: "env \<Rightarrow> string \<Rightarrow> env_error + int" where
  "RequiredInt64 env key = res_bind (Required env key) (\<lambda>s. wrap_err key (parse_int s))"

definition RequiredBool :: "env \<Rightarrow> string \<Rightarrow> env_error + bool" where
  "RequiredBool env key = res_bind (Required env key) (\<lambda>s. wrap_err key (parse_bool s))"

definition OptionalInt :: "env \<Rightarrow> string \<Rightarrow> int \<Rightarrow> env_error + int" where
  "OptionalInt env key defaultValue =
     (case env key of
        None \<Rightarrow> Inr defaultValue
      | Some v \<Rightarrow> if TrimSpace v = [] then Inr defaultValue else wrap_err key (parse_int v))"

definition OptionalBool :: "env \<Rightarrow> string \<Rightarrow> bool \<Rightarrow> env_error + bool" where
  "OptionalBool env key defaultValue =
     (case env key of
        None \<Rightarrow> Inr defaultValue
      | Some v \<Rightarrow> if TrimSpace v = [] then Inr defaultValue else wrap_err key (parse_bool v))"

definition RequiredDurationFromSeconds :: "env \<Rightarrow> string \<Rightarrow> env_error + int" where
  "RequiredDurationFromSeconds env key = res_bind (RequiredInt env key) (\<lambda>sec. Inr (seconds sec))"

text \<open>The loop over the parts keeps the trimmed parts that are not empty.\<close>

fun csv_parts :: "string list \<Rightarrow> string list" where
  "csv_parts [] = []"
| "csv_parts (p # ps) = (let t = TrimSpace p in if t \<noteq> [] then t # csv_parts ps else csv_parts ps)"

definition RequiredCSV :: "env \<Rightarrow> string \<Rightarrow> env_error + string list" where
  "RequiredCSV env key =
     res_bind (Required env key) (\<lambda>s.
       let out = csv_parts (Split (CHR '','') s)
       in if out = [] then Inl (EmptyAfterSplit key) else Inr out)"

section \<open>Lemmas\<close>

lemma Required_Inr_iff: "Required env key = Inr s \<longleftrightarrow> env key = Some s \<and> TrimSpace s \<noteq> []"
  by (auto simp: Required_def split: option.splits if_splits)

lemma Required_Inl_iff:
  "Required env key = Inl e \<longleftrightarrow>
     e = NotSet key \<and> (case env key of None \<Rightarrow> True | Some v \<Rightarrow> TrimSpace v = [])"
  by (auto simp: Required_def split: option.splits if_splits)

lemma wrap_err_Inr_iff [simp]: "wrap_err key r = Inr v \<longleftrightarrow> r = Inr v"
  by (auto simp: wrap_err_def split: sum.splits)

lemma RequiredInt_Inr_iff:
  "RequiredInt env key = Inr n \<longleftrightarrow>
     (\<exists>s. env key = Some s \<and> TrimSpace s \<noteq> [] \<and> parse_int s = Inr n)"
  by (auto simp: RequiredInt_def res_bind_Inr_iff Required_Inr_iff)

lemma OptionalInt_eq_Required:
  "OptionalInt env key d =
     (case Required env key of Inl _ \<Rightarrow> Inr d | Inr s \<Rightarrow> wrap_err key (parse_int s))"
  by (auto simp: OptionalInt_def Required_def split: option.splits)

lemma csv_parts_eq: "csv_parts ps = filter (\<lambda>t. t \<noteq> []) (map TrimSpace ps)"
  by (induction ps) (simp_all add: Let_def)

lemma strip_set: "set (strip ps s) \<subseteq> set s"
  using strip_suffix [of s ps] by (metis Un_upper2 set_append)

lemma TrimSpace_set: "set (TrimSpace s) \<subseteq> set s"
  unfolding TrimSpace_def using strip_set by (metis order_trans set_rev)

section \<open>Properties\<close>



text \<open>
  C40: \<open>RequiredDurationFromSeconds\<close> returns the 64-bit product of the seconds and \<open>time.Second\<close>;
  it is the true number of nanoseconds exactly when the seconds are at most 9223372036 in
  magnitude, and the reader reports no error beyond that bound.
\<close>

theorem duration_exact_iff:
  assumes "RequiredInt env key = Inr sec"
  shows "\<exists>d. RequiredDurationFromSeconds env key = Inr d \<and> in_i64 d \<and>
    (d = sec * 1000000000 \<longleftrightarrow> \<bar>sec\<bar> \<le> 9223372036)"
proof -
  have "seconds sec = sec * 1000000000 \<longleftrightarrow> \<bar>sec\<bar> \<le> 9223372036"
  proof
    assume "seconds sec = sec * 1000000000"
    then have "in_i64 (sec * 1000000000)"
      by (metis seconds_def wrap64_range)
    then have "- 9223372036854775808 \<le> sec * 1000000000 \<and> sec * 1000000000 < 9223372036854775808"
      by (simp add: in_i64_def)
    then show "\<bar>sec\<bar> \<le> 9223372036" by linarith
  qed (rule seconds_exact)
  then show ?thesis
    using assms by (simp add: RequiredDurationFromSeconds_def seconds_def)
qed

theorem duration_exact_iff_witness:
  "\<exists>d. RequiredDurationFromSeconds [''K'' \<mapsto> ''9223372037''] ''K'' = Inr d \<and> in_i64 d \<and>
    d \<noteq> 9223372037 * 1000000000"
proof -
  have "TrimSpace ''9223372037'' = ''9223372037''"
    by (rule TrimSpace_printable) (simp_all add: printable_def)
  moreover have "parse_int ''9223372037'' = Inr 9223372037"
    by (simp add: parse_int_def sign_split_def parse_uint_def digit_of_def)
  ultimately have "RequiredInt [''K'' \<mapsto> ''9223372037''] ''K'' = Inr 9223372037"
    by (simp add: RequiredInt_Inr_iff)
  from duration_exact_iff [OF this] show ?thesis by auto
qed

text \<open>
  \<open>RequiredCSV\<close> succeeds exactly when the variable is set and some part between commas is not
  blank; it then returns, in order, the trimmed parts that are not blank, none of which contains a
  comma.
\<close>

theorem csv_spec:
  "RequiredCSV env key = Inr out \<longleftrightarrow>
     (\<exists>s. env key = Some s \<and> TrimSpace s \<noteq> [] \<and> out \<noteq> [] \<and>
        out = filter (\<lambda>t. t \<noteq> []) (map TrimSpace (Split (CHR '','') s)) \<and>
        list_all (\<lambda>t. t \<noteq> [] \<and> CHR '','' \<notin> set t \<and> TrimSpace t = t) out)"
  (is "?L \<longleftrightarrow> ?R")
proof -
  have parts: "list_all (\<lambda>t. t \<noteq> [] \<and> CHR '','' \<notin> set t \<and> TrimSpace t = t)
      (filter (\<lambda>t. t \<noteq> []) (map TrimSpace (Split (CHR '','') s)))" for s
    using Split_no_sep TrimSpace_set by (fastforce simp: list_all_iff TrimSpace_idem)
  have "?L \<longleftrightarrow> (\<exists>s. env key = Some s \<and> TrimSpace s \<noteq> [] \<and> csv_parts (Split (CHR '','') s) \<noteq> [] \<and>
      out = csv_parts (Split (CHR '','') s))"
    by (auto simp: RequiredCSV_def res_bind_Inr_iff Required_Inr_iff Let_def split: if_splits)
  also have "\<dots> \<longleftrightarrow> ?R"
    unfolding csv_parts_eq using parts by blast
  finally show ?thesis .
qed

end
