(* ===== verification/Proxy.thy ===== *)
theory Proxy
  imports Watch Engine GoParse Envcfg
begin

text \<open>
  cmd/mirror-proxy/main.go: the router that sends every request to the active instance and a share of
  the GET requests, marked as shadow traffic, to the instance that warms up. Its first goroutine,
  \<open>watchMirror\<close>, is in Watch; here are its second one, \<open>watchInstances\<close>, and its handler.
\<close>

section \<open>State\<close>

record proxyRouter =
  px_service :: string
  px_cfg :: MirrorConfig
  px_inst :: "string \<rightharpoonup> string"

definition newProxyRouter :: "string \<Rightarrow> proxyRouter" where
  "newProxyRouter service = \<lparr>px_service = service, px_cfg = empty_mirror, px_inst = Map.empty\<rparr>"

text \<open>What \<open>main\<close> reads before it connects; the first error ends the process.\<close>

record px_config =
  pc_addr :: string
  pc_endpoints :: "string list"
  pc_service :: string
  pc_shutdown :: int

definition px_load :: "env \<Rightarrow> env_error + px_config" where
  "px_load env =
     res_bind (Required env ''DWSS_PROXY_HTTP_ADDR'') (\<lambda>addr.
     res_bind (RequiredCSV env ''DWSS_PROXY_ZK_ENDPOINTS'') (\<lambda>endpoints.
     res_bind (Required env ''DWSS_PROXY_SERVICE_NAME'') (\<lambda>service.
     res_bind (RequiredInt env ''DWSS_PROXY_SHUTDOWN_SEC'') (\<lambda>shutdownSec.
       Inr \<lparr>pc_addr = addr, pc_endpoints = endpoints, pc_service = service, pc_shutdown = seconds shutdownSec\<rparr>))))"

section \<open>The instance table\<close>

text \<open>
  One iteration of the loop of \<open>refreshInstances\<close>, with the result of its \<open>Get\<close>; then the whole
  function, with the store as it is at each \<open>Get\<close>.
\<close>

definition refresh_one :: "'b codec \<Rightarrow> string \<Rightarrow> zk_error + ('b \<times> int) \<Rightarrow> (string \<rightharpoonup> string) \<Rightarrow> string \<rightharpoonup> string" where
  "refresh_one j iid got m =
     (case got of
        Inl e \<Rightarrow> m
      | Inr (b, version) \<Rightarrow>
          (case cd_dec_inst j b of
             None \<Rightarrow> m
           | Some rec \<Rightarrow> m(iid \<mapsto> ir_Addr rec)))"

fun refresh_loop :: "('z, 'b) zk_conn \<Rightarrow> 'b codec \<Rightarrow> string \<Rightarrow> (string \<rightharpoonup> string) \<Rightarrow> string list \<Rightarrow> 'z list \<Rightarrow>
    string \<rightharpoonup> string" where
  "refresh_loop c j base m (iid # ids) (z # zs) =
     refresh_loop c j base (refresh_one j iid (zk_get c (base @ iid) z) m) ids zs"
| "refresh_loop c j base m ids zs = m"

definition refreshInstances :: "('z, 'b) zk_conn \<Rightarrow> 'b codec \<Rightarrow> string list \<Rightarrow> 'z list \<Rightarrow> proxyRouter \<Rightarrow> proxyRouter" where
  "refreshInstances c j children zs px = px\<lparr>px_inst :=
     refresh_loop c j (''/services/'' @ px_service px @ ''/instances/'') Map.empty children zs\<rparr>"

text \<open>
  The goroutine \<open>watchInstances\<close> beside the instances' own writes. The directory is a list of nodes in
  the order the server lists them; a watch set by \<open>ChildrenW\<close> fires when a node is created or deleted,
  not when one is set. After any event the loop starts again. The error path sleeps and starts again.
\<close>

datatype wi_pc = WiCheck | WiList | WiGet "string list" "string \<rightharpoonup> string" | WiWait | WiDone

record 'b inst_watch =
  wi_dir :: bool
  wi_nodes :: "(string \<times> 'b) list"
  wi_watch :: watch_status
  wi_cancelled :: bool
  wi_pc :: wi_pc
  wi_inst :: "string \<rightharpoonup> string"     \<comment> \<open>the field \<open>inst\<close> of the router\<close>

definition wi_start :: "'b inst_watch" where
  "wi_start = \<lparr>wi_dir = False, wi_nodes = [], wi_watch = NoWatch, wi_cancelled = False, wi_pc = WiCheck,
     wi_inst = Map.empty\<rparr>"

datatype 'b wi_event = WiGo | WiQuit | WiFail | WiCancel | WiMkdir | WiCreate string 'b | WiSet string 'b | WiDelete string

definition set_node :: "string \<Rightarrow> 'b \<Rightarrow> (string \<times> 'b) list \<Rightarrow> (string \<times> 'b) list" where
  "set_node iid b ns = map (\<lambda>(k, v). (k, if k = iid then b else v)) ns"

definition node_get :: "(string \<times> 'b) list \<Rightarrow> string \<Rightarrow> zk_error + ('b \<times> int)" where
  "node_get ns iid = (case map_of ns iid of None \<Rightarrow> Inl ErrNoNode | Some b \<Rightarrow> Inr (b, 0))"

fun wi_step :: "'b codec \<Rightarrow> 'b wi_event \<Rightarrow> 'b inst_watch \<Rightarrow> 'b inst_watch" where
  "wi_step j WiGo w =
     (case wi_pc w of
        WiCheck \<Rightarrow> w\<lparr>wi_pc := (if wi_cancelled w then WiDone else WiList)\<rparr>
      | WiList \<Rightarrow>
          if wi_dir w then w\<lparr>wi_watch := Armed, wi_pc := WiGet (map fst (wi_nodes w)) Map.empty\<rparr>
          else w\<lparr>wi_pc := WiCheck\<rparr>
      | WiGet (iid # ids) m \<Rightarrow> w\<lparr>wi_pc := WiGet ids (refresh_one j iid (node_get (wi_nodes w) iid) m)\<rparr>
      | WiGet [] m \<Rightarrow> w\<lparr>wi_inst := m, wi_pc := WiWait\<rparr>
      | WiWait \<Rightarrow> if wi_watch w = Fired then w\<lparr>wi_watch := NoWatch, wi_pc := WiCheck\<rparr> else w
      | WiDone \<Rightarrow> w)"
| "wi_step j WiQuit w = (if wi_pc w = WiWait \<and> wi_cancelled w then w\<lparr>wi_pc := WiDone\<rparr> else w)"
| "wi_step j WiFail w =
     (case wi_pc w of
        WiList \<Rightarrow> w\<lparr>wi_pc := WiCheck\<rparr>
      | WiGet (iid # ids) m \<Rightarrow> w\<lparr>wi_pc := WiGet ids (refresh_one j iid (Inl ErrZkOther) m)\<rparr>
      | _ \<Rightarrow> w)"
| "wi_step j WiCancel w = w\<lparr>wi_cancelled := True\<rparr>"
| "wi_step j WiMkdir w = w\<lparr>wi_dir := True\<rparr>"
| "wi_step j (WiCreate iid b) w =
     (if wi_dir w \<and> map_of (wi_nodes w) iid = None
      then w\<lparr>wi_nodes := wi_nodes w @ [(iid, b)], wi_watch := trigger (wi_watch w)\<rparr> else w)"
| "wi_step j (WiSet iid b) w = w\<lparr>wi_nodes := set_node iid b (wi_nodes w)\<rparr>"
| "wi_step j (WiDelete iid) w =
     (if map_of (wi_nodes w) iid = None then w
      else w\<lparr>wi_nodes := filter (\<lambda>(k, v). k \<noteq> iid) (wi_nodes w), wi_watch := trigger (wi_watch w)\<rparr>)"

section \<open>The handler\<close>

text \<open>
  \<open>url.Parse\<close> of \<open>http://\<close> and an address: an address of host characters and an optional port of
  digits is accepted; other forms are left to the parameter. \<open>ul_mirror\<close> stands for parsing such an
  address with the request's URI behind it, and for \<open>http.NewRequest\<close> on the result.
\<close>

record url_lib =
  ul_ok :: "string \<Rightarrow> bool"
  ul_mirror :: "string \<Rightarrow> http_request \<Rightarrow> (string \<times> http_request) option"

definition host_char :: "char \<Rightarrow> bool" where
  "host_char c = (let n = of_char (lower_char c) :: nat in is_digit c \<or> 97 \<le> n \<and> n \<le> 122 \<or> c = CHR ''-'' \<or> c = CHR ''.'')"

definition plain_addr :: "string \<Rightarrow> bool" where
  "plain_addr addr = (case Cut (CHR '':'') addr of (host, port) \<Rightarrow> list_all host_char host \<and> list_all is_digit port)"

definition addr_ok :: "url_lib \<Rightarrow> string \<Rightarrow> bool" where
  "addr_ok ul addr \<longleftrightarrow> plain_addr addr \<or> ul_ok ul addr"

text \<open>
  \<open>mirrorRequest\<close> sends, to a host, a GET request without body for the same URI. \<open>url.Parse\<close> takes a
  number sign in the query for the start of a fragment, which is not sent.
\<close>

definition mirror_target :: "url_lib \<Rightarrow> http_request \<Rightarrow> string \<Rightarrow> (string \<times> http_request) option" where
  "mirror_target ul r addr =
     (if plain_addr addr
      then Some (addr, \<lparr>rq_Method = MethodGet, rq_Path = rq_Path r,
             rq_RawQuery = takeWhile (\<lambda>c. c \<noteq> CHR ''#'') (rq_RawQuery r), rq_Header = Map.empty, rq_Body = []\<rparr>)
      else map_option (\<lambda>(host, m). (host, m\<lparr>rq_Method := MethodGet, rq_Body := []\<rparr>)) (ul_mirror ul addr r))"

definition mirrorRequest :: "url_lib \<Rightarrow> http_request \<Rightarrow> string \<Rightarrow> (string \<times> http_request) option" where
  "mirrorRequest ul r addr =
     map_option (\<lambda>(host, m). (host, m\<lparr>rq_Header := header_Set HeaderShadow ShadowValue (rq_Header r)\<rparr>))
       (mirror_target ul r addr)"

datatype px_reply = PxError int string | PxForwarded string http_response | PxAborted

definition mirrors :: "f64 \<Rightarrow> http_request \<Rightarrow> MirrorConfig \<Rightarrow> bool" where
  "mirrors u r cfg \<longleftrightarrow> rq_Method r = MethodGet \<and> mc_Enabled cfg \<and> f64_lt (Fin 0) (mc_Ratio cfg) \<and>
     f64_lt u (mc_Ratio cfg)"

text \<open>
  \<open>forward\<close> is the reverse proxy's exchange with an address; \<open>None\<close> is its panic that aborts a response
  it cannot finish. \<open>u\<close> is the number that \<open>rand.Float64\<close> draws. The second component is the request
  that the started goroutine sends, with its host.
\<close>

definition ServeHTTP :: "(string \<Rightarrow> http_request \<Rightarrow> http_response option) \<Rightarrow> url_lib \<Rightarrow> f64 \<Rightarrow> http_request \<Rightarrow>
    proxyRouter \<Rightarrow> px_reply \<times> (string \<times> http_request) option" where
  "ServeHTTP forward ul u r px =
     (let cfg = px_cfg px; inst = px_inst px
      in case inst (mc_ActiveInstanceID cfg) of
           None \<Rightarrow> (PxError StatusServiceUnavailable ''active instance unavailable'', None)
         | Some activeAddr \<Rightarrow>
             if activeAddr = [] then (PxError StatusServiceUnavailable ''active instance unavailable'', None)
             else if \<not> addr_ok ul activeAddr then (PxError StatusInternalServerError ''parse'', None)
             else case forward activeAddr r of
               None \<Rightarrow> (PxAborted, None)
             | Some resp \<Rightarrow>
                 (PxForwarded activeAddr resp,
                  if mirrors u r cfg then
                    (case inst (mc_TargetInstanceID cfg) of
                       Some warmAddr \<Rightarrow> if warmAddr \<noteq> [] then mirrorRequest ul r warmAddr else None
                     | None \<Rightarrow> None)
                  else None))"

text \<open>The read of \<open>watchMirror\<close>: a configuration that cannot be read leaves the old one.\<close>

definition refresh_cfg :: "('z, 'b) zk_conn \<Rightarrow> 'b codec \<Rightarrow> 'z \<Rightarrow> proxyRouter \<Rightarrow> proxyRouter" where
  "refresh_cfg c j z px =
     (case ReadMirrorConfig c j (px_service px) z of
        (cfg, None) \<Rightarrow> px\<lparr>px_cfg := cfg\<rparr>
      | (cfg, Some e) \<Rightarrow> px)"

section \<open>The instance table is current\<close>

text \<open>
  \<open>addr_of\<close> gives the address an instance writes in its record. While the watch is armed the set of
  nodes is the one that was listed.
\<close>

definition nodes_ok :: "'b codec \<Rightarrow> (string \<Rightarrow> string) \<Rightarrow> (string \<times> 'b) list \<Rightarrow> bool" where
  "nodes_ok j addr_of ns \<longleftrightarrow> list_all (\<lambda>(k, b). \<exists>r. cd_dec_inst j b = Some r \<and> ir_Addr r = addr_of k) ns"

definition table :: "(string \<Rightarrow> string) \<Rightarrow> string list \<Rightarrow> string \<rightharpoonup> string" where
  "table addr_of ids = (\<lambda>k. if k \<in> set ids then Some (addr_of k) else None)"

definition wi_inv :: "'b codec \<Rightarrow> (string \<Rightarrow> string) \<Rightarrow> 'b inst_watch \<Rightarrow> bool" where
  "wi_inv j addr_of w \<longleftrightarrow> nodes_ok j addr_of (wi_nodes w) \<and>
     (wi_pc w = WiCheck \<or> wi_pc w = WiList \<longrightarrow> wi_watch w = NoWatch) \<and>
     (\<forall>ids m. wi_pc w = WiGet ids m \<longrightarrow> wi_watch w \<noteq> NoWatch \<and>
        (wi_watch w = Armed \<longrightarrow>
          (\<exists>pre. map fst (wi_nodes w) = pre @ ids \<and> m = table addr_of pre))) \<and>
     (wi_pc w = WiWait \<longrightarrow> wi_watch w \<noteq> NoWatch \<and>
        (wi_watch w = Armed \<longrightarrow> wi_inst w = table addr_of (map fst (wi_nodes w))))"

lemma refresh_known:
  assumes "nodes_ok j addr_of ns" "map fst ns = pre @ iid # ids"
  shows "refresh_one j iid (node_get ns iid) (table addr_of pre) = table addr_of (pre @ [iid])"
proof -
  have "iid \<in> fst ` set ns"
    using assms(2) by (metis in_set_conv_decomp list.set_map)
  then obtain b where b: "map_of ns iid = Some b"
    by (metis map_of_eq_None_iff not_Some_eq)
  then have "(iid, b) \<in> set ns"
    by (rule map_of_SomeD)
  then obtain r where "cd_dec_inst j b = Some r" "ir_Addr r = addr_of iid"
    using assms(1) by (auto simp: nodes_ok_def list_all_iff)
  then show ?thesis
    by (auto simp: refresh_one_def node_get_def b table_def)
qed

lemma nodes_ok_set: "nodes_ok j a ns \<Longrightarrow> \<exists>r. cd_dec_inst j b = Some r \<and> ir_Addr r = a iid \<Longrightarrow> nodes_ok j a (set_node iid b ns)"
  by (auto simp: nodes_ok_def set_node_def list_all_iff)

lemma set_node_keys [simp]: "map fst (set_node iid b ns) = map fst ns"
  by (induction ns) (auto simp: set_node_def)

text \<open>A write that keeps to the instances' addresses\<close>

fun wi_honest :: "'b codec \<Rightarrow> (string \<Rightarrow> string) \<Rightarrow> 'b wi_event \<Rightarrow> bool" where
  "wi_honest j a (WiCreate iid b) = (case cd_dec_inst j b of None \<Rightarrow> False | Some r \<Rightarrow> ir_Addr r = a iid)"
| "wi_honest j a (WiSet iid b) = (case cd_dec_inst j b of None \<Rightarrow> False | Some r \<Rightarrow> ir_Addr r = a iid)"
| "wi_honest j a WiFail = False"
| "wi_honest j a ev = True"

lemma wi_inv_go: "wi_inv j a w \<Longrightarrow> wi_inv j a (wi_step j WiGo w)"
proof (cases "wi_pc w")
  case (WiGet ids m)
  assume inv: "wi_inv j a w"
  show ?thesis
  proof (cases ids)
    case Nil
    then show ?thesis using inv WiGet by (auto simp: wi_inv_def)
  next
    case (Cons iid rest)
    have ok: "nodes_ok j a (wi_nodes w)" "wi_watch w \<noteq> NoWatch"
      using inv WiGet by (simp_all add: wi_inv_def)
    have "\<exists>pre'. map fst (wi_nodes w) = pre' @ rest \<and>
        refresh_one j iid (node_get (wi_nodes w) iid) m = table a pre'" if armed: "wi_watch w = Armed"
    proof -
      obtain pre where pre: "map fst (wi_nodes w) = pre @ iid # rest" "m = table a pre"
        using inv WiGet Cons armed by (auto simp: wi_inv_def)
      show ?thesis
        using refresh_known [OF ok(1) pre(1)] pre by (intro exI [of _ "pre @ [iid]"]) simp
    qed
    then show ?thesis using ok WiGet Cons by (simp add: wi_inv_def)
  qed
qed (auto simp: wi_inv_def table_def)

lemma wi_inv_step:
  assumes "wi_inv j a w" "wi_honest j a ev"
  shows "wi_inv j a (wi_step j ev w)"
proof (cases ev)
  case WiGo
  then show ?thesis using wi_inv_go [OF assms(1)] by simp
next
  case (WiCreate iid b)
  then show ?thesis
    using assms by (cases "wi_watch w") (auto simp: wi_inv_def nodes_ok_def split: option.splits)
next
  case (WiSet iid b)
  then have "\<exists>r. cd_dec_inst j b = Some r \<and> ir_Addr r = a iid"
    using assms(2) by (auto split: option.splits)
  then show ?thesis
    using assms(1) WiSet nodes_ok_set [of j a "wi_nodes w" b iid] by (simp add: wi_inv_def)
next
  case (WiDelete iid)
  then show ?thesis
    using assms(1) by (cases "wi_watch w") (auto simp: wi_inv_def nodes_ok_def list_all_iff)
qed (use assms in \<open>auto simp: wi_inv_def\<close>)

text \<open>
  C14: as long as no call of the store fails and every instance's record keeps its address, the
  proxy's table is current: whenever its goroutine waits with no event pending, the table has exactly
  the instances of the directory, each with its address. It is so after every history of instances
  coming, going and changing their state.
\<close>

theorem proxy_instances_current:
  assumes "\<forall>ev \<in> set evs. wi_honest j addr_of ev" and "w = fold (wi_step j) evs wi_start"
    and "wi_pc w = WiWait" and "wi_watch w \<noteq> Fired"
  shows "wi_inst w = (\<lambda>k. if k \<in> fst ` set (wi_nodes w) then Some (addr_of k) else None)"
proof -
  have "wi_inv j addr_of w"
    unfolding assms(2)
  proof (rule fold_invariant_list)
    show "wi_inv j addr_of wi_start"
      by (simp add: wi_inv_def wi_start_def nodes_ok_def)
    show "wi_inv j addr_of (wi_step j ev w')" if "ev \<in> set evs" "wi_inv j addr_of w'" for ev w'
      using that assms(1) by (blast intro: wi_inv_step)
  qed
  then show ?thesis
    using assms(3,4) by (cases "wi_watch w") (auto simp: wi_inv_def table_def)
qed

definition sample_inst :: "(InstanceRecord + MirrorConfig) option" where
  "sample_inst = Some (Inl \<lparr>ir_Addr = ''h:1'', ir_State = StateReady, ir_Role = ''warmup'', ir_StartedAt = 0\<rparr>)"

theorem proxy_instances_current_witness:
  "wi_inst (fold (wi_step plain_codec) [WiMkdir, WiCreate ''i1'' sample_inst, WiGo, WiGo, WiGo, WiGo] wi_start) ''i1'' =
    Some ''h:1''"
proof -
  let ?evs = "[WiMkdir, WiCreate ''i1'' sample_inst, WiGo, WiGo, WiGo, WiGo]"
  let ?w = "fold (wi_step plain_codec) ?evs wi_start"
  have dec: "cd_dec_inst plain_codec sample_inst =
      Some \<lparr>ir_Addr = ''h:1'', ir_State = StateReady, ir_Role = ''warmup'', ir_StartedAt = 0\<rparr>"
    by (simp add: plain_codec_def sample_inst_def)
  then have "\<forall>ev \<in> set ?evs. wi_honest plain_codec (\<lambda>_. ''h:1'') ev"
    by simp
  moreover have "wi_pc ?w = WiWait" "wi_watch ?w \<noteq> Fired" "wi_nodes ?w = [(''i1'', sample_inst)]"
    by (simp_all add: wi_start_def)
  ultimately have "wi_inst ?w = (\<lambda>k. if k \<in> fst ` set [(''i1'', sample_inst)] then Some ''h:1'' else None)"
    using proxy_instances_current [of ?evs plain_codec "\<lambda>_. ''h:1''" ?w] by metis
  then show ?thesis by (simp only: list.set image_insert fst_conv insert_iff if_True HOL.simp_thms)
qed

text \<open>
  C34: a \<open>Get\<close> that fails once drops a live instance from the table, and it stays out although the store
  answers again: nothing but a change of the set of instances, or a cancellation, makes the proxy read
  it again. If it is the active instance every request is answered with 503 until then.
\<close>

fun wi_quiet :: "'b wi_event \<Rightarrow> bool" where
  "wi_quiet WiGo = True"
| "wi_quiet WiFail = True"
| "wi_quiet (WiSet iid b) = True"
| "wi_quiet ev = False"

lemma wi_stuck:
  "list_all wi_quiet evs \<Longrightarrow> wi_pc w = WiWait \<Longrightarrow> wi_watch w = Armed \<Longrightarrow>
    wi_inst (fold (wi_step j) evs w) = wi_inst w"
proof (induction evs arbitrary: w)
  case (Cons ev evs)
  then show ?case by (cases ev) simp_all
qed simp



end
