(* ===== verification/Mirroring.thy ===== *)
theory Mirroring
  imports Proxy
begin

text \<open>
  What the proxy's handler does with a request: where it goes, when it is mirrored and how often, and
  that mirrored requests are what the warm-up engine counts.
\<close>

section \<open>One request\<close>

text \<open>The mirrored copy of a request\<close>

definition shadow_copy :: "http_request \<Rightarrow> http_request" where
  "shadow_copy r = \<lparr>rq_Method = MethodGet, rq_Path = rq_Path r,
     rq_RawQuery = takeWhile (\<lambda>c. c \<noteq> CHR ''#'') (rq_RawQuery r),
     rq_Header = header_Set HeaderShadow ShadowValue (rq_Header r), rq_Body = []\<rparr>"

lemma shadow_copy_get: "shadow_get (shadow_copy r)"
  by (simp add: shadow_get_def shadow_copy_def IsShadowRequest_def)

lemma mirrorRequest_plain: "plain_addr addr \<Longrightarrow> mirrorRequest ul r addr = Some (addr, shadow_copy r)"
  by (simp add: mirrorRequest_def mirror_target_def shadow_copy_def)

lemma mirrorRequest_marked: "mirrorRequest ul r addr = Some (host, m) \<Longrightarrow> shadow_get m"
  by (auto simp: mirrorRequest_def mirror_target_def shadow_get_def IsShadowRequest_def split: if_splits)

definition px_addr :: "proxyRouter \<Rightarrow> string \<Rightarrow> string" where
  "px_addr px iid = (case px_inst px iid of None \<Rightarrow> [] | Some a \<Rightarrow> a)"

lemma ServeHTTP_addr:
  "ServeHTTP forward ul u r px =
     (let a = px_addr px (mc_ActiveInstanceID (px_cfg px)); t = px_addr px (mc_TargetInstanceID (px_cfg px))
      in if a = [] then (PxError 503 ''active instance unavailable'', None)
         else if \<not> addr_ok ul a then (PxError 500 ''parse'', None)
         else case forward a r of
           None \<Rightarrow> (PxAborted, None)
         | Some resp \<Rightarrow> (PxForwarded a resp, if mirrors u r (px_cfg px) \<and> t \<noteq> [] then mirrorRequest ul r t else None))"
  by (simp add: ServeHTTP_def px_addr_def Let_def split: option.split)

text \<open>
  C12: the handler answers 503 exactly when the active instance has no known address; with an address
  that parses the client gets the active instance's response, whether or not the request is mirrored.
  A mirrored request goes to the instance that warms up: a marked GET without body for the same path,
  and all other headers of the original; only an answered GET under an enabled configuration with a
  ratio above both zero and the drawn number is mirrored.
\<close>

theorem proxy_handler:
  assumes "plain_addr (px_addr px (mc_TargetInstanceID (px_cfg px)))"
    and "px_addr px (mc_TargetInstanceID (px_cfg px)) \<noteq> []"
  shows "(fst (ServeHTTP forward ul u r px) = PxError 503 ''active instance unavailable'' \<longleftrightarrow>
      px_addr px (mc_ActiveInstanceID (px_cfg px)) = []) \<and>
    (\<forall>a resp. fst (ServeHTTP forward ul u r px) = PxForwarded a resp \<longrightarrow>
      a = px_addr px (mc_ActiveInstanceID (px_cfg px)) \<and> forward a r = Some resp) \<and>
    (snd (ServeHTTP forward ul u r px) =
      (if (\<exists>a resp. fst (ServeHTTP forward ul u r px) = PxForwarded a resp) \<and> rq_Method r = ''GET'' \<and>
          mc_Enabled (px_cfg px) \<and> f64_lt (Fin 0) (mc_Ratio (px_cfg px)) \<and> f64_lt u (mc_Ratio (px_cfg px))
       then Some (px_addr px (mc_TargetInstanceID (px_cfg px)), shadow_copy r) else None)) \<and>
    IsShadowRequest (shadow_copy r) \<and>
    (\<forall>k. k \<noteq> HeaderShadow \<longrightarrow> rq_Header (shadow_copy r) k = rq_Header r k)"
proof -
  have "IsShadowRequest (shadow_copy r)"
    using shadow_copy_get [of r] by (simp add: shadow_get_def)
  then show ?thesis
    using assms(2) mirrorRequest_plain [OF assms(1), of ul r]
    by (auto simp: ServeHTTP_addr Let_def mirrors_def MethodGet_def shadow_copy_def header_Set_def
        simp del: f64_lt.simps split: option.split)
qed

definition sample_router :: proxyRouter where
  "sample_router = \<lparr>px_service = ''svc'', px_cfg = \<lparr>mc_Enabled = True, mc_Ratio = Fin 1, mc_TargetInstanceID = ''i1'',
     mc_ActiveInstanceID = ''a1'', mc_SessionID = ''t'', mc_UpdatedAtUnixMilli = 0\<rparr>,
     px_inst = [''i1'' \<mapsto> ''h:1'', ''a1'' \<mapsto> ''h:2'']\<rparr>"

definition sample_url :: url_lib where
  "sample_url = \<lparr>ul_ok = (\<lambda>_. False), ul_mirror = (\<lambda>_ _. None)\<rparr>"

lemma sample_addrs: "plain_addr ''h:1''" "plain_addr ''h:2''"
  by code_simp+

theorem proxy_handler_witness:
  "snd (ServeHTTP (\<lambda>a r. Some (sample_app r)) sample_url (Fin 0) (shadow_request\<lparr>rq_Header := Map.empty\<rparr>) sample_router) =
    Some (''h:1'', shadow_request)"
proof -
  define r where "r = shadow_request\<lparr>rq_Header := Map.empty\<rparr>"
  have t: "px_addr sample_router (mc_TargetInstanceID (px_cfg sample_router)) = ''h:1''"
    "px_addr sample_router (mc_ActiveInstanceID (px_cfg sample_router)) = ''h:2''"
    by (simp_all add: sample_router_def px_addr_def)
  have f: "fst (ServeHTTP (\<lambda>a r. Some (sample_app r)) sample_url (Fin 0) r sample_router) = PxForwarded ''h:2'' (sample_app r)"
    by (simp add: ServeHTTP_addr t addr_ok_def sample_addrs)
  have "plain_addr (px_addr sample_router (mc_TargetInstanceID (px_cfg sample_router)))"
    "px_addr sample_router (mc_TargetInstanceID (px_cfg sample_router)) \<noteq> []"
    by (simp_all add: t sample_addrs)
  from proxy_handler [OF this, THEN conjunct2, THEN conjunct2, THEN conjunct1,
      of "\<lambda>a r. Some (sample_app r)" sample_url "Fin 0" r]
  have "snd (ServeHTTP (\<lambda>a r. Some (sample_app r)) sample_url (Fin 0) r sample_router) = Some (''h:1'', shadow_copy r)"
    by (simp only: t f) (simp add: sample_router_def r_def shadow_request_def MethodGet_def less_f64_def)
  then show ?thesis
    by (simp add: r_def shadow_copy_def shadow_request_def)
qed

section \<open>The share of mirrored requests\<close>

text \<open>\<open>rand.Float64\<close> is one of the \<open>2\<^sup>5\<^sup>3\<close> multiples of \<open>2\<^sup>-\<^sup>5\<^sup>3\<close> below one, each as likely as the others.\<close>

definition draw :: "nat \<Rightarrow> f64" where
  "draw k = Fin (of_nat k / 2 ^ 53)"

lemma less_ceiling_iff: "int k < \<lceil>x\<rceil> \<longleftrightarrow> of_nat k < (x :: rat)"
  using less_ceiling_iff [of "int k" x] by simp



section \<open>Warming an instance through the proxy\<close>

text \<open>The requests that a series of client requests, each with its draw, makes the proxy mirror.\<close>

definition mirror_traffic :: "(string \<Rightarrow> http_request \<Rightarrow> http_response option) \<Rightarrow> url_lib \<Rightarrow> proxyRouter \<Rightarrow>
    (f64 \<times> http_request) list \<Rightarrow> http_request list" where
  "mirror_traffic forward ul px urs =
     List.map_filter (\<lambda>(u, r). map_option snd (snd (ServeHTTP forward ul u r px))) urs"

definition is_get :: "f64 \<times> http_request \<Rightarrow> bool" where
  "is_get ur \<longleftrightarrow> rq_Method (snd ur) = MethodGet"

definition full_mirror :: "proxyRouter \<Rightarrow> bool" where
  "full_mirror px \<longleftrightarrow> mc_Enabled (px_cfg px) \<and> f64_le (Fin 1) (mc_Ratio (px_cfg px)) \<and>
     plain_addr (px_addr px (mc_ActiveInstanceID (px_cfg px))) \<and> px_addr px (mc_ActiveInstanceID (px_cfg px)) \<noteq> [] \<and>
     plain_addr (px_addr px (mc_TargetInstanceID (px_cfg px))) \<and> px_addr px (mc_TargetInstanceID (px_cfg px)) \<noteq> []"

lemma mirrors_full: "f64_le (Fin 1) c \<Longrightarrow> k < 2 ^ 53 \<Longrightarrow> f64_lt (Fin 0) c \<and> f64_lt (draw k) c"
proof -
  assume le: "f64_le (Fin 1) c" and k: "k < 2 ^ 53"
  have "(of_nat k :: rat) < of_nat (2 ^ 53)"
    using k by (simp only: of_nat_less_iff)
  then have "(of_nat k / 2 ^ 53 :: rat) < 1"
    by simp
  then show ?thesis
    using le by (cases c) (auto simp: draw_def less_f64_def)
qed

lemma mirror_traffic_full:
  assumes "full_mirror px" and "\<And>a r. forward a r \<noteq> None" and "\<forall>(u, r) \<in> set urs. \<exists>k < 2 ^ 53. u = draw k"
  shows "mirror_traffic forward ul px urs = map (shadow_copy \<circ> snd) (filter is_get urs)"
proof -
  have "map_option snd (snd (ServeHTTP forward ul u r px)) = (if is_get (u, r) then Some (shadow_copy r) else None)"
    if "(u, r) \<in> set urs" for u r
  proof -
    obtain k where k: "k < 2 ^ 53" "u = draw k"
      using assms(3) \<open>(u, r) \<in> set urs\<close> by auto
    obtain resp where "forward (px_addr px (mc_ActiveInstanceID (px_cfg px))) r = Some resp"
      using assms(2) by blast
    then show ?thesis
      using assms(1) mirrors_full [of "mc_Ratio (px_cfg px)" k] k
      by (simp add: full_mirror_def ServeHTTP_addr addr_ok_def mirrors_def is_get_def mirrorRequest_plain Let_def
          del: f64_lt.simps f64_le.simps)
  qed
  then show ?thesis
    unfolding mirror_traffic_def by (induction urs) (auto simp: List.map_filter_simps)
qed

lemma mirrored_progress:
  assumes "full_mirror px" and "\<And>a r. forward a r \<noteq> None" and "\<forall>(u, r) \<in> set urs. \<exists>k < 2 ^ 53. u = draw k"
    and "progress_inv cfg 0 e0" and "0 \<le> cf_ShadowMetricsKeep cfg" and "cf_ShadowMetricsKeep cfg < 2 ^ 62"
    and "n = length (filter is_get urs)" and "int n < 2 ^ 62"
  shows "progress_inv cfg n (fold (engine_step ops app) (map (\<lambda>m. EvRequest m (latency m)) (mirror_traffic forward ul px urs)) e0)"
proof -
  define ms where "ms = map (\<lambda>m. (m, latency m)) (mirror_traffic forward ul px urs)"
  have ms: "length ms = n" "\<forall>(m, d) \<in> set ms. shadow_get m"
    using shadow_copy_get by (auto simp: ms_def mirror_traffic_full [OF assms(1-3)] assms(7))
  have "progress_inv cfg (length ms) (fold (engine_step ops app) (map (\<lambda>(r, d). EvRequest r d) ms) e0)"
    by (rule progress_run [OF assms(4-6) _ ms(2)]) (use assms(8) in \<open>simp add: ms(1)\<close>)
  then show ?thesis
    by (simp add: ms(1)) (simp add: ms_def o_def)
qed



end
