(* ===== verification/Coordinator.thy ===== *)
theory Coordinator
  imports ZkRegistry Envcfg GoParse Http
begin

text \<open>
  cmd/warmup-coordinator/main.go: sessions, the ramp goroutine, completion, and the HTTP handlers.
  Sessions are pointers shared by the map and by running handlers, so they live on a heap. The ramp
  is a machine whose step is one action of its goroutine, since it runs for minutes beside the
  handlers. Times are nanoseconds since the epoch, given to each step by the clock.
\<close>

section \<open>State\<close>

record session =
  ss_ID :: string
  ss_TargetInstanceID :: string
  ss_ActiveInstanceID :: string
  ss_ReadyAfter :: int
  ss_Status :: string

record 'z coordinator =
  co_service :: string
  co_interval :: int
  co_steps :: "f64 list"
  co_holdMax :: int
  co_sessions :: "string \<rightharpoonup> nat"
  co_heap :: "session list"
  co_zk :: 'z
  co_log :: "MirrorConfig list"    \<comment> \<open>history: the configurations given to \<open>WriteMirrorConfig\<close>\<close>

text \<open>\<open>parseSteps\<close>: the first part that is no number is the error.\<close>

fun parse_parts :: "(string \<Rightarrow> num_error + f64) \<Rightarrow> string list \<Rightarrow> num_error + f64 list" where
  "parse_parts exotic [] = Inr []"
| "parse_parts exotic (p # ps) =
     res_bind (parse_float exotic (TrimSpace p)) (\<lambda>v.
       res_bind (parse_parts exotic ps) (\<lambda>vs. Inr (v # vs)))"

definition parseSteps :: "(string \<Rightarrow> num_error + f64) \<Rightarrow> string \<Rightarrow> num_error + f64 list" where
  "parseSteps exotic raw = parse_parts exotic (Split (CHR '','') raw)"

text \<open>What \<open>main\<close> reads before it connects; any error ends the process.\<close>

datatype co_config_error = CoEnv env_error | CoRampSteps num_error

record co_config =
  cc_addr :: string
  cc_endpoints :: "string list"
  cc_service :: string
  cc_interval :: int
  cc_steps :: "f64 list"
  cc_shutdown :: int
  cc_holdMax :: int

definition env_step :: "env_error + 'a \<Rightarrow> ('a \<Rightarrow> co_config_error + 'b) \<Rightarrow> co_config_error + 'b" where
  "env_step r f = (case r of Inl e \<Rightarrow> Inl (CoEnv e) | Inr a \<Rightarrow> f a)"

definition co_load :: "(string \<Rightarrow> num_error + f64) \<Rightarrow> env \<Rightarrow> co_config_error + co_config" where
  "co_load exotic env =
     env_step (Required env ''DWSS_COORD_HTTP_ADDR'') (\<lambda>addr.
     env_step (RequiredCSV env ''DWSS_COORD_ZK_ENDPOINTS'') (\<lambda>endpoints.
     env_step (Required env ''DWSS_COORD_SERVICE_NAME'') (\<lambda>service.
     env_step (RequiredInt env ''DWSS_COORD_RAMP_INTERVAL_SEC'') (\<lambda>intervalSec.
     env_step (Required env ''DWSS_COORD_RAMP_STEPS'') (\<lambda>stepsRaw.
     env_step (RequiredInt env ''DWSS_COORD_SHUTDOWN_SEC'') (\<lambda>shutdownSec.
     env_step (OptionalInt env ''DWSS_COORD_HOLD_MAX_SEC'' 120) (\<lambda>holdMaxSec.
       case parseSteps exotic stepsRaw of
         Inl e \<Rightarrow> Inl (CoRampSteps e)
       | Inr steps \<Rightarrow> Inr \<lparr>cc_addr = addr, cc_endpoints = endpoints, cc_service = service,
           cc_interval = seconds intervalSec, cc_steps = steps, cc_shutdown = seconds shutdownSec,
           cc_holdMax = seconds holdMaxSec\<rparr>)))))))"

definition new_coordinator :: "co_config \<Rightarrow> 'z \<Rightarrow> 'z coordinator" where
  "new_coordinator cfg z = \<lparr>co_service = cc_service cfg, co_interval = cc_interval cfg,
     co_steps = cc_steps cfg, co_holdMax = cc_holdMax cfg, co_sessions = Map.empty, co_heap = [],
     co_zk = z, co_log = []\<rparr>"

text \<open>\<open>warmkit.WriteMirrorConfig(c.conn, c.service, cfg)\<close> at a time\<close>

definition co_write :: "('z, 'b) zk_conn \<Rightarrow> 'b codec \<Rightarrow> int \<Rightarrow> MirrorConfig \<Rightarrow> 'z coordinator \<Rightarrow>
    reg_error option \<times> 'z coordinator" where
  "co_write c j now cfg co =
     (case WriteMirrorConfig c j (now div 1000000) (co_service co) cfg (co_zk co) of
        (r, z) \<Rightarrow> (r, co\<lparr>co_zk := z, co_log := co_log co @ [cfg]\<rparr>))"

definition instanceReady :: "('z, 'b) zk_conn \<Rightarrow> 'b codec \<Rightarrow> string \<Rightarrow> 'z coordinator \<Rightarrow> bool" where
  "instanceReady c j instanceID co =
     (case zk_get c (instance_path (co_service co) instanceID) (co_zk co) of
        Inl e \<Rightarrow> False
      | Inr (b, version) \<Rightarrow>
          (case cd_dec_inst j b of
             None \<Rightarrow> False
           | Some rec \<Rightarrow> ir_State rec = StateReady \<or> ir_State rec = StateActive))"

section \<open>The ramp\<close>

text \<open>
  The program points of \<open>runRamp\<close>: the first write, reading the clock for the deadline, the loop over
  the steps, the check after a step's sleep, the two tests of the hold loop and its write, the last
  write, and setting the status. Its context is never cancelled.
\<close>

datatype ramp_pc =
    RpInit | RpDeadline | RpStep "f64 list" | RpSlept "f64 list"
  | RpHold | RpTime | RpWrite | RpFinal | RpStatus | RpDone

record ramp =
  ra_sessionID :: string
  ra_target :: string
  ra_active :: string
  ra_deadline :: int
  ra_pc :: ramp_pc

definition ramp_cfg :: "ramp \<Rightarrow> f64 \<Rightarrow> MirrorConfig" where
  "ramp_cfg ra ratio = \<lparr>mc_Enabled = True, mc_Ratio = ratio, mc_TargetInstanceID = ra_target ra,
     mc_ActiveInstanceID = ra_active ra, mc_SessionID = ra_sessionID ra, mc_UpdatedAtUnixMilli = 0\<rparr>"

definition f64_one :: f64 where "f64_one = Fin 1"

definition set_status :: "string \<Rightarrow> string \<Rightarrow> 'z coordinator \<Rightarrow> 'z coordinator" where
  "set_status sid st co =
     (case co_sessions co sid of
        None \<Rightarrow> co
      | Some p \<Rightarrow> co\<lparr>co_heap := (co_heap co)[p := (co_heap co ! p)\<lparr>ss_Status := st\<rparr>]\<rparr>)"

fun ramp_action :: "('z, 'b) zk_conn \<Rightarrow> 'b codec \<Rightarrow> int \<Rightarrow> ramp_pc \<Rightarrow> ramp \<Rightarrow> 'z coordinator \<Rightarrow>
    ramp \<times> 'z coordinator" where
  "ramp_action c j now RpInit ra co =
     (ra\<lparr>ra_pc := RpDeadline\<rparr>, snd (co_write c j now (ramp_cfg ra (Fin 0)) co))"
| "ramp_action c j now RpDeadline ra co =
     (ra\<lparr>ra_deadline := now + co_holdMax co, ra_pc := RpStep (co_steps co)\<rparr>, co)"
| "ramp_action c j now (RpStep []) ra co = (ra\<lparr>ra_pc := RpHold\<rparr>, co)"
| "ramp_action c j now (RpStep (r # rs)) ra co =
     (ra\<lparr>ra_pc := RpSlept rs\<rparr>, snd (co_write c j now (ramp_cfg ra r) co))"
| "ramp_action c j now (RpSlept rs) ra co =
     (ra\<lparr>ra_pc := (if instanceReady c j (ra_target ra) co then RpHold else RpStep rs)\<rparr>, co)"
| "ramp_action c j now RpHold ra co =
     (ra\<lparr>ra_pc := (if instanceReady c j (ra_target ra) co then RpFinal else RpTime)\<rparr>, co)"
| "ramp_action c j now RpTime ra co =
     (ra\<lparr>ra_pc := (if now < ra_deadline ra then RpWrite else RpFinal)\<rparr>, co)"
| "ramp_action c j now RpWrite ra co =
     (ra\<lparr>ra_pc := RpHold\<rparr>, snd (co_write c j now (ramp_cfg ra f64_one) co))"
| "ramp_action c j now RpFinal ra co =
     (ra\<lparr>ra_pc := RpStatus\<rparr>, snd (co_write c j now (ramp_cfg ra f64_one) co))"
| "ramp_action c j now RpStatus ra co =
     (ra\<lparr>ra_pc := RpDone\<rparr>, set_status (ra_sessionID ra) ''holding'' co)"
| "ramp_action c j now RpDone ra co = (ra, co)"

definition ramp_step :: "('z, 'b) zk_conn \<Rightarrow> 'b codec \<Rightarrow> int \<Rightarrow> ramp \<Rightarrow> 'z coordinator \<Rightarrow> ramp \<times> 'z coordinator" where
  "ramp_step c j now ra co = ramp_action c j now (ra_pc ra) ra co"

text \<open>The actions that end with \<open>time.Sleep(c.interval)\<close>\<close>

fun sleeps :: "ramp_pc \<Rightarrow> bool" where
  "sleeps (RpStep (r # rs)) = True"
| "sleeps RpWrite = True"
| "sleeps pc = False"

section \<open>Handlers\<close>

datatype co_reply =
    CoSession int session       \<comment> \<open>status and the encoded session\<close>
  | CoConfig int MirrorConfig
  | CoError int
  | CoNotFound
  | CoNoContent
  | CoText int string

text \<open>
  \<open>createSession\<close>: \<open>stamp\<close> is the time formatted to milliseconds, \<open>dec\<close> decodes the body into target,
  \<open>readyAfter\<close> and active. The third component is the goroutine that is started.
\<close>

definition createSession :: "(string \<Rightarrow> (string \<times> int \<times> string) option) \<Rightarrow> string \<Rightarrow> string \<Rightarrow>
    'z coordinator \<Rightarrow> co_reply \<times> 'z coordinator \<times> ramp option" where
  "createSession dec stamp body co =
     (case dec body of
        None \<Rightarrow> (CoError StatusBadRequest, co, None)
      | Some (target, readyAfter, active) \<Rightarrow>
          (let s = \<lparr>ss_ID = stamp, ss_TargetInstanceID = target, ss_ActiveInstanceID = active,
                    ss_ReadyAfter = readyAfter, ss_Status = ''running''\<rparr>
           in (CoSession 201 s,
               co\<lparr>co_heap := co_heap co @ [s], co_sessions := (co_sessions co)(stamp \<mapsto> length (co_heap co))\<rparr>,
               Some \<lparr>ra_sessionID = stamp, ra_target = target, ra_active = active, ra_deadline = 0,
                     ra_pc = RpInit\<rparr>)))"

definition complete_cfg :: "string \<Rightarrow> string \<Rightarrow> MirrorConfig" where
  "complete_cfg sid target = \<lparr>mc_Enabled = False, mc_Ratio = Fin 0, mc_TargetInstanceID = target,
     mc_ActiveInstanceID = target, mc_SessionID = sid, mc_UpdatedAtUnixMilli = 0\<rparr>"

definition completeSession :: "('z, 'b) zk_conn \<Rightarrow> 'b codec \<Rightarrow> int \<Rightarrow> string \<Rightarrow> 'z coordinator \<Rightarrow>
    co_reply \<times> 'z coordinator" where
  "completeSession c j now sid co =
     (case co_sessions co sid of
        None \<Rightarrow> (CoNotFound, co)
      | Some p \<Rightarrow>
          (let s = co_heap co ! p
           in if ss_Status s = ''completed'' then (CoSession StatusOK s, co)
              else
                let target = ss_TargetInstanceID s;
                    s1 = s\<lparr>ss_ActiveInstanceID := target, ss_Status := ''completed''\<rparr>;
                    co1 = co\<lparr>co_heap := (co_heap co)[p := s1]\<rparr>
                in case co_write c j now (complete_cfg sid target) co1 of
                     (Some e, co2) \<Rightarrow> (CoError StatusInternalServerError, co2)
                   | (None, co2) \<Rightarrow> (CoSession StatusOK (co_heap co2 ! p), co2)))"

definition getSession :: "string \<Rightarrow> 'z coordinator \<Rightarrow> co_reply" where
  "getSession sid co =
     (case co_sessions co sid of
        None \<Rightarrow> CoNotFound
      | Some p \<Rightarrow> CoSession StatusOK (co_heap co ! p))"

definition deleteSession :: "string \<Rightarrow> 'z coordinator \<Rightarrow> co_reply \<times> 'z coordinator" where
  "deleteSession sid co = (CoNoContent, co\<lparr>co_sessions := (co_sessions co)(sid := None)\<rparr>)"

definition setMirrorConfig :: "('z, 'b) zk_conn \<Rightarrow> 'b codec \<Rightarrow> (string \<Rightarrow> MirrorConfig option) \<Rightarrow> int \<Rightarrow>
    string \<Rightarrow> 'z coordinator \<Rightarrow> co_reply \<times> 'z coordinator" where
  "setMirrorConfig c j dec now body co =
     (case dec body of
        None \<Rightarrow> (CoError StatusBadRequest, co)
      | Some req \<Rightarrow>
          (case co_write c j now req co of
             (Some e, co1) \<Rightarrow> (CoError StatusInternalServerError, co1)
           | (None, co1) \<Rightarrow> (CoConfig StatusOK req, co1)))"

text \<open>
  The routes of \<open>main\<close>, for a clean path without escapes: a pattern with \<open>GET\<close> also takes \<open>HEAD\<close>, a
  wildcard takes one segment that is not empty, and a path with a pattern for other methods only is
  answered with 405.
\<close>

datatype co_route =
    RouteHealth | RouteCreate | RouteGet string | RouteComplete string | RouteDelete string
  | RouteMirror | RouteMethodNotAllowed | RouteNotFound

definition reads :: "string \<Rightarrow> bool" where
  "reads m \<longleftrightarrow> m = ''GET'' \<or> m = ''HEAD''"

definition co_route :: "string \<Rightarrow> string \<Rightarrow> co_route" where
  "co_route m path =
     (if path = ''/healthz'' then if reads m then RouteHealth else RouteMethodNotAllowed
      else if path = ''/v1/warmup/sessions'' then if m = ''POST'' then RouteCreate else RouteMethodNotAllowed
      else if path = ''/v1/mirror/config'' then if m = ''PUT'' then RouteMirror else RouteMethodNotAllowed
      else case Split (CHR ''/'') path of
        [r, v1, warmup, sessions, sid] \<Rightarrow>
          if [r, v1, warmup, sessions] \<noteq> [[], ''v1'', ''warmup'', ''sessions''] \<or> sid = [] then RouteNotFound
          else if reads m then RouteGet sid
          else if m = ''DELETE'' then RouteDelete sid
          else RouteMethodNotAllowed
      | [r, v1, warmup, sessions, sid, verb] \<Rightarrow>
          if [r, v1, warmup, sessions, verb] \<noteq> [[], ''v1'', ''warmup'', ''sessions'', ''complete''] \<or> sid = []
          then RouteNotFound
          else if m = ''POST'' then RouteComplete sid
          else RouteMethodNotAllowed
      | _ \<Rightarrow> RouteNotFound)"

definition co_serve :: "('z, 'b) zk_conn \<Rightarrow> 'b codec \<Rightarrow> (string \<Rightarrow> (string \<times> int \<times> string) option) \<Rightarrow>
    (string \<Rightarrow> MirrorConfig option) \<Rightarrow> int \<Rightarrow> string \<Rightarrow> http_request \<Rightarrow> 'z coordinator \<Rightarrow>
    co_reply \<times> 'z coordinator \<times> ramp option" where
  "co_serve c j decS decM now stamp r co =
     (case co_route (rq_Method r) (rq_Path r) of
        RouteHealth \<Rightarrow> (CoText StatusOK ''ok'', co, None)
      | RouteCreate \<Rightarrow> createSession decS stamp (rq_Body r) co
      | RouteGet sid \<Rightarrow> (getSession sid co, co, None)
      | RouteComplete sid \<Rightarrow> (case completeSession c j now sid co of (rep, co1) \<Rightarrow> (rep, co1, None))
      | RouteDelete sid \<Rightarrow> (case deleteSession sid co of (rep, co1) \<Rightarrow> (rep, co1, None))
      | RouteMirror \<Rightarrow> (case setMirrorConfig c j decM now (rq_Body r) co of (rep, co1) \<Rightarrow> (rep, co1, None))
      | RouteMethodNotAllowed \<Rightarrow> (CoError StatusMethodNotAllowed, co, None)
      | RouteNotFound \<Rightarrow> (CoNotFound, co, None))"

section \<open>Termination and shape of the ramp\<close>

text \<open>
  A ramp among other clients of the store: before its \<open>i\<close>-th action the environment does \<open>env i\<close> to
  the store; the action takes \<open>delay i\<close> nanoseconds, and the sleep at its end the interval.
\<close>

type_synonym 'z ramp_state = "int \<times> ramp \<times> 'z coordinator"

definition ramp_tick :: "('z, 'b) zk_conn \<Rightarrow> 'b codec \<Rightarrow> (nat \<Rightarrow> 'z \<Rightarrow> 'z) \<Rightarrow> (nat \<Rightarrow> nat) \<Rightarrow> nat \<Rightarrow>
    'z ramp_state \<Rightarrow> 'z ramp_state" where
  "ramp_tick c j env delay i st =
     (case st of (now, ra, co) \<Rightarrow>
        let co0 = co\<lparr>co_zk := env i (co_zk co)\<rparr>
        in case ramp_step c j now ra co0 of (ra1, co1) \<Rightarrow>
          (now + int (delay i) + (if sleeps (ra_pc ra) then co_interval co else 0), ra1, co1))"

definition ramp_run :: "('z, 'b) zk_conn \<Rightarrow> 'b codec \<Rightarrow> (nat \<Rightarrow> 'z \<Rightarrow> 'z) \<Rightarrow> (nat \<Rightarrow> nat) \<Rightarrow> nat \<Rightarrow>
    'z ramp_state \<Rightarrow> 'z ramp_state" where
  "ramp_run c j env delay n st = fold (ramp_tick c j env delay) [0..<n] st"

lemma ramp_run_Suc: "ramp_run c j env delay (Suc n) st = ramp_tick c j env delay n (ramp_run c j env delay n st)"
  by (simp add: ramp_run_def)

text \<open>A measure that every action lowers when the interval is positive.\<close>

definition ramp_left :: "int \<Rightarrow> ramp \<Rightarrow> nat" where
  "ramp_left now ra = nat (ra_deadline ra - now)"

fun ramp_measure :: "nat \<Rightarrow> nat \<Rightarrow> nat \<Rightarrow> ramp_pc \<Rightarrow> nat" where
  "ramp_measure hold steps left RpInit = 10 * hold + 2 * steps + 8"
| "ramp_measure hold steps left RpDeadline = 10 * hold + 2 * steps + 7"
| "ramp_measure hold steps left (RpStep rs) = 10 * left + 2 * length rs + 6"
| "ramp_measure hold steps left (RpSlept rs) = 10 * left + 2 * length rs + 7"
| "ramp_measure hold steps left RpHold = 10 * left + 5"
| "ramp_measure hold steps left RpTime = 10 * left + 3"
| "ramp_measure hold steps left RpWrite = 10 * (left - 1) + 6"
| "ramp_measure hold steps left RpFinal = 2"
| "ramp_measure hold steps left RpStatus = 1"
| "ramp_measure hold steps left RpDone = 0"

definition rm :: "'z ramp_state \<Rightarrow> nat" where
  "rm st = (case st of (now, ra, co) \<Rightarrow>
     ramp_measure (nat (co_holdMax co)) (length (co_steps co)) (ramp_left now ra) (ra_pc ra))"

lemma co_write_fields [simp]:
  "co_service (snd (co_write c j now cfg co)) = co_service co"
  "co_interval (snd (co_write c j now cfg co)) = co_interval co"
  "co_steps (snd (co_write c j now cfg co)) = co_steps co"
  "co_holdMax (snd (co_write c j now cfg co)) = co_holdMax co"
  "co_sessions (snd (co_write c j now cfg co)) = co_sessions co"
  "co_heap (snd (co_write c j now cfg co)) = co_heap co"
  "co_log (snd (co_write c j now cfg co)) = co_log co @ [cfg]"
  by (simp_all add: co_write_def split: prod.split)

lemma set_status_fields [simp]:
  "co_service (set_status sid st co) = co_service co" "co_interval (set_status sid st co) = co_interval co"
  "co_steps (set_status sid st co) = co_steps co" "co_holdMax (set_status sid st co) = co_holdMax co"
  "co_sessions (set_status sid st co) = co_sessions co" "co_zk (set_status sid st co) = co_zk co"
  "co_log (set_status sid st co) = co_log co"
  by (simp_all add: set_status_def split: option.split)

lemma ramp_measure_zero [simp]: "ramp_measure h n l pc = 0 \<longleftrightarrow> pc = RpDone"
  by (cases pc) simp_all

lemma ramp_tick_interval:
  assumes "ramp_tick c j env delay i (now, ra, co) = (now', ra', co')"
  shows "co_interval co' = co_interval co \<and> co_steps co' = co_steps co \<and> co_holdMax co' = co_holdMax co \<and>
    co_sessions co' = co_sessions co \<and> co_service co' = co_service co \<and>
    ra_sessionID ra' = ra_sessionID ra \<and> ra_target ra' = ra_target ra \<and> ra_active ra' = ra_active ra"
proof (cases "ra_pc ra")
  case (RpStep rs)
  then show ?thesis using assms by (cases rs) (auto simp: ramp_tick_def ramp_step_def Let_def)
qed (use assms in \<open>auto simp: ramp_tick_def ramp_step_def Let_def\<close>)

lemma rm_decreases:
  assumes "0 < co_interval co" and "ra_pc ra \<noteq> RpDone"
  shows "rm (ramp_tick c j env delay i (now, ra, co)) < rm (now, ra, co)"
proof (cases "ra_pc ra")
  case (RpStep rs)
  then show ?thesis
    using assms by (cases rs) (auto simp: ramp_tick_def ramp_step_def rm_def ramp_left_def Let_def)
qed (use assms in \<open>auto simp: ramp_tick_def ramp_step_def rm_def ramp_left_def Let_def\<close>)

lemma ramp_run_done:
  assumes "0 < co_interval co" and "rm (now, ra, co) \<le> n"
  shows "ra_pc (fst (snd (ramp_run c j env delay n (now, ra, co)))) = RpDone"
proof -
  have "co_interval (snd (snd (ramp_run c j env delay k (now, ra, co)))) = co_interval co \<and>
    (ra_pc (fst (snd (ramp_run c j env delay k (now, ra, co)))) = RpDone \<or>
     rm (ramp_run c j env delay k (now, ra, co)) + k \<le> rm (now, ra, co))" for k
  proof (induction k)
    case 0
    then show ?case by (simp add: ramp_run_def)
  next
    case (Suc k)
    obtain now1 ra1 co1 where st: "ramp_run c j env delay k (now, ra, co) = (now1, ra1, co1)"
      by (cases "ramp_run c j env delay k (now, ra, co)")
    obtain now2 ra2 co2 where st2: "ramp_tick c j env delay k (now1, ra1, co1) = (now2, ra2, co2)"
      by (cases "ramp_tick c j env delay k (now1, ra1, co1)")
    show ?case
    proof (cases "ra_pc ra1 = RpDone")
      case True
      then show ?thesis
        using Suc st st2 ramp_tick_interval [OF st2]
        by (auto simp: ramp_run_Suc ramp_tick_def ramp_step_def Let_def)
    next
      case False
      then show ?thesis
        using Suc st st2 ramp_tick_interval [OF st2] rm_decreases [of co1 ra1 c j env delay k now1] assms(1)
        by (auto simp: ramp_run_Suc)
    qed
  qed
  note step = this [of n]
  obtain now1 ra1 co1 where st: "ramp_run c j env delay n (now, ra, co) = (now1, ra1, co1)"
    by (cases "ramp_run c j env delay n (now, ra, co)")
  have "ra_pc ra1 = RpDone \<or> rm (now1, ra1, co1) = 0"
    using step assms(2) by (auto simp: st)
  then show ?thesis
    by (auto simp: st rm_def)
qed

lemma ramp_run_static:
  "let st = ramp_run c j env delay n (now, ra, co); ra' = fst (snd st); co' = snd (snd st)
   in co_interval co' = co_interval co \<and> co_steps co' = co_steps co \<and> co_holdMax co' = co_holdMax co \<and>
      co_sessions co' = co_sessions co \<and> co_service co' = co_service co \<and> ra_sessionID ra' = ra_sessionID ra \<and>
      ra_target ra' = ra_target ra \<and> ra_active ra' = ra_active ra"
proof (induction n)
  case (Suc n)
  obtain now1 ra1 co1 where st: "ramp_run c j env delay n (now, ra, co) = (now1, ra1, co1)"
    by (cases "ramp_run c j env delay n (now, ra, co)")
  obtain now2 ra2 co2 where st2: "ramp_tick c j env delay n (now1, ra1, co1) = (now2, ra2, co2)"
    by (cases "ramp_tick c j env delay n (now1, ra1, co1)")
  show ?case
    using Suc ramp_tick_interval [OF st2] by (simp add: ramp_run_Suc st st2 Let_def)
qed (simp add: ramp_run_def)

text \<open>The ratios written so far, by program point.\<close>

definition held :: "int \<Rightarrow> 'z coordinator \<Rightarrow> ramp \<Rightarrow> nat \<Rightarrow> bool" where
  "held now co ra h \<longleftrightarrow> ra_deadline ra - co_holdMax co + int h * co_interval co \<le> now \<and>
     (h = 0 \<or> int (h - 1) * co_interval co < co_holdMax co)"

definition ratios :: "f64 list \<Rightarrow> nat \<Rightarrow> nat \<Rightarrow> f64 list" where
  "ratios steps k h = Fin 0 # take k steps @ replicate h f64_one"

fun ramp_shape :: "int \<Rightarrow> ramp \<Rightarrow> 'z coordinator \<Rightarrow> f64 list \<Rightarrow> ramp_pc \<Rightarrow> bool" where
  "ramp_shape now ra co rs RpInit = (rs = [])"
| "ramp_shape now ra co rs RpDeadline = (rs = [Fin 0])"
| "ramp_shape now ra co rs (RpStep xs) = (held now co ra 0 \<and>
     (\<exists>k \<le> length (co_steps co). xs = drop k (co_steps co) \<and> rs = ratios (co_steps co) k 0))"
| "ramp_shape now ra co rs (RpSlept xs) = (held now co ra 0 \<and>
     (\<exists>k \<le> length (co_steps co). xs = drop k (co_steps co) \<and> rs = ratios (co_steps co) k 0))"
| "ramp_shape now ra co rs RpHold =
     (\<exists>k h. k \<le> length (co_steps co) \<and> held now co ra h \<and> rs = ratios (co_steps co) k h)"
| "ramp_shape now ra co rs RpTime =
     (\<exists>k h. k \<le> length (co_steps co) \<and> held now co ra h \<and> rs = ratios (co_steps co) k h)"
| "ramp_shape now ra co rs RpWrite =
     (\<exists>k h. k \<le> length (co_steps co) \<and> held now co ra h \<and> int h * co_interval co < co_holdMax co \<and>
        rs = ratios (co_steps co) k h)"
| "ramp_shape now ra co rs RpFinal =
     (\<exists>k h. k \<le> length (co_steps co) \<and> held now co ra h \<and> rs = ratios (co_steps co) k h)"
| "ramp_shape now ra co rs pc =
     (\<exists>k h. k \<le> length (co_steps co) \<and> (h = 0 \<or> int (h - 1) * co_interval co < co_holdMax co) \<and>
        rs = ratios (co_steps co) k (Suc h))"

lemma ratios_simps:
  "ratios steps 0 0 = [Fin 0]"
  "drop k steps = r # rs \<Longrightarrow> ratios steps k 0 @ [r] = ratios steps (Suc k) 0"
  "ratios steps k h @ [f64_one] = ratios steps k (Suc h)"
  by (simp_all add: ratios_def replicate_append_same take_Suc_conv_app_nth nth_via_drop)
    (metis drop_eq_Nil2 leI list.distinct(1) take_Suc_conv_app_nth nth_via_drop)

lemma held_later: "held now co ra h \<Longrightarrow> now \<le> now' \<Longrightarrow> held now' co ra h"
  by (simp add: held_def)

lemma held_write:
  assumes "held now co ra h" "int h * co_interval co < co_holdMax co" "now + co_interval co \<le> now'"
  shows "held now' co ra (Suc h)"
  using assms by (simp add: held_def algebra_simps)

lemma held_cong:
  "co_interval co' = co_interval co \<Longrightarrow> co_holdMax co' = co_holdMax co \<Longrightarrow> ra_deadline ra' = ra_deadline ra \<Longrightarrow>
    held now co' ra' h = held now co ra h"
  by (simp add: held_def)

definition ramp_ok :: "MirrorConfig list \<Rightarrow> (f64 \<Rightarrow> MirrorConfig) \<Rightarrow> 'z ramp_state \<Rightarrow> bool" where
  "ramp_ok before w st \<longleftrightarrow> (case st of (now, ra, co) \<Rightarrow>
     0 \<le> co_interval co \<and> ramp_cfg ra = w \<and>
     (\<exists>rs. ramp_shape now ra co rs (ra_pc ra) \<and> co_log co = before @ map w rs))"

lemma ramp_cfg_static:
  "ra_target ra' = ra_target ra \<Longrightarrow> ra_active ra' = ra_active ra \<Longrightarrow> ra_sessionID ra' = ra_sessionID ra \<Longrightarrow>
    ramp_cfg ra' = ramp_cfg ra"
  by (intro ext) (simp add: ramp_cfg_def)

lemma ramp_cfg_updates [simp]: "ramp_cfg (ra\<lparr>ra_pc := pc\<rparr>) = ramp_cfg ra" "ramp_cfg (ra\<lparr>ra_deadline := t\<rparr>) = ramp_cfg ra"
  by (rule ramp_cfg_static; simp)+

lemma ramp_okI:
  "ramp_shape now ra co rs (ra_pc ra) \<Longrightarrow> co_log co = before @ map w rs \<Longrightarrow> ramp_cfg ra = w \<Longrightarrow>
    0 \<le> co_interval co \<Longrightarrow> ramp_ok before w (now, ra, co)"
  unfolding ramp_ok_def prod.case by blast

lemma drop_Cons_Suc: "drop k xs = y # ys \<Longrightarrow> Suc k \<le> length xs \<and> drop (Suc k) xs = ys"
proof -
  assume eq: "drop k xs = y # ys"
  have "length (drop k xs) = length (y # ys)"
    by (simp only: eq)
  then have "length xs - k = Suc (length ys)"
    by simp
  moreover have "drop (Suc k) xs = tl (drop k xs)"
    by (simp add: drop_Suc tl_drop)
  ultimately show ?thesis using eq by simp
qed

lemma ramp_ok_writes:
  assumes "ramp_ok before w (now, ra, co)" "0 \<le> d"
    and "ra_pc ra = RpInit \<or> ra_pc ra = RpFinal \<or> ra_pc ra = RpWrite \<or> (\<exists>r rs. ra_pc ra = RpStep (r # rs))"
    and "ramp_step c j now ra (co\<lparr>co_zk := z\<rparr>) = (ra', co')"
  shows "ramp_ok before w (now + d + (if sleeps (ra_pc ra) then co_interval co else 0), ra', co')"
proof -
  obtain rs where rs: "ramp_shape now ra co rs (ra_pc ra)" "co_log co = before @ map w rs" "ramp_cfg ra = w"
    "0 \<le> co_interval co"
    using assms(1) by (auto simp: ramp_ok_def)
  consider "ra_pc ra = RpInit" | "ra_pc ra = RpFinal" | "ra_pc ra = RpWrite"
    | r xs where "ra_pc ra = RpStep (r # xs)"
    using assms(3) by blast
  then show ?thesis
  proof cases
    case 1
    then show ?thesis
      using rs assms(4) by (intro ramp_okI [where rs = "[Fin 0]"]) (auto simp: ramp_step_def)
  next
    case 2
    then obtain k h where kh: "k \<le> length (co_steps co)" "held now co ra h" "rs = ratios (co_steps co) k h"
      using rs(1) by auto
    have "h = 0 \<or> int (h - 1) * co_interval co < co_holdMax co"
      using kh(2) by (simp add: held_def)
    then have "\<exists>k' h'. k' \<le> length (co_steps co) \<and> (h' = 0 \<or> int (h' - 1) * co_interval co < co_holdMax co) \<and>
        ratios (co_steps co) k (Suc h) = ratios (co_steps co) k' (Suc h')"
      using kh(1) by (intro exI [of _ k] exI [of _ h]) simp
    moreover have "co_log co' = before @ map w (ratios (co_steps co) k (Suc h))"
      using 2 assms(4) rs(2,3) kh(3) by (auto simp: ramp_step_def simp flip: ratios_simps(3))
    moreover have "ra' = ra\<lparr>ra_pc := RpStatus\<rparr>" "co_steps co' = co_steps co" "co_interval co' = co_interval co"
      "co_holdMax co' = co_holdMax co"
      using 2 assms(4) by (auto simp: ramp_step_def)
    ultimately show ?thesis
      using rs(3,4) by (intro ramp_okI) simp_all
  next
    case 3
    then obtain k h where kh: "k \<le> length (co_steps co)" "held now co ra h"
        "int h * co_interval co < co_holdMax co" "rs = ratios (co_steps co) k h"
      using rs(1) by auto
    have "held (now + d + co_interval co) co ra (Suc h)"
      using held_write [OF kh(2,3)] assms(2) by simp
    then have "\<exists>k' h'. k' \<le> length (co_steps co) \<and> held (now + d + co_interval co) co ra h' \<and>
        ratios (co_steps co) k (Suc h) = ratios (co_steps co) k' h'"
      using kh(1) by (intro exI [of _ k] exI [of _ "Suc h"]) simp
    moreover have "co_log co' = before @ map w (ratios (co_steps co) k (Suc h))"
      using 3 assms(4) rs(2,3) kh(4) by (auto simp: ramp_step_def simp flip: ratios_simps(3))
    moreover have "ra' = ra\<lparr>ra_pc := RpHold\<rparr>" "co_steps co' = co_steps co" "co_interval co' = co_interval co"
      "co_holdMax co' = co_holdMax co" "sleeps (ra_pc ra)"
      using 3 assms(4) by (auto simp: ramp_step_def)
    ultimately show ?thesis
      using rs(3,4) by (intro ramp_okI) (simp_all add: held_def)
  next
    case 4
    then obtain k where k: "held now co ra 0" "k \<le> length (co_steps co)" "drop k (co_steps co) = r # xs"
        "rs = ratios (co_steps co) k 0"
      using rs(1) by (auto dest: sym)
    have k1: "Suc k \<le> length (co_steps co)" "drop (Suc k) (co_steps co) = xs"
      using drop_Cons_Suc [OF k(3)] by simp_all
    have "held (now + d + co_interval co) co ra 0"
      using held_later [OF k(1)] assms(2) rs(4) by simp
    moreover have "\<exists>k' \<le> length (co_steps co). xs = drop k' (co_steps co) \<and>
        ratios (co_steps co) (Suc k) 0 = ratios (co_steps co) k' 0"
      using k1 by (intro exI [of _ "Suc k"]) simp
    moreover have "co_log co' = before @ map w (ratios (co_steps co) (Suc k) 0)"
      using 4 assms(4) rs(2,3) k(4) by (auto simp: ramp_step_def simp flip: ratios_simps(2) [OF k(3)])
    moreover have "ra' = ra\<lparr>ra_pc := RpSlept xs\<rparr>" "co_steps co' = co_steps co" "co_interval co' = co_interval co"
      "co_holdMax co' = co_holdMax co" "sleeps (ra_pc ra)"
      using 4 assms(4) by (auto simp: ramp_step_def)
    ultimately show ?thesis
      using rs(3,4) by (intro ramp_okI) (simp_all add: held_def)
  qed
qed

lemma ramp_ok_quiet:
  assumes "ramp_ok before w (now, ra, co)" "0 \<le> d"
    and "\<not> (ra_pc ra = RpInit \<or> ra_pc ra = RpFinal \<or> ra_pc ra = RpWrite \<or> (\<exists>r rs. ra_pc ra = RpStep (r # rs)))"
    and "ramp_step c j now ra (co\<lparr>co_zk := z\<rparr>) = (ra', co')"
  shows "ramp_ok before w (now + d, ra', co')"
proof -
  obtain rs where rs: "ramp_shape now ra co rs (ra_pc ra)" "co_log co = before @ map w rs" "ramp_cfg ra = w"
    "0 \<le> co_interval co"
    using assms(1) by (auto simp: ramp_ok_def)
  have le: "now \<le> now + d" using assms(2) by simp
  show ?thesis
  proof (cases "ra_pc ra")
    case RpDeadline
    have "\<exists>k \<le> length (co_steps co). co_steps co = drop k (co_steps co) \<and> [Fin 0] = ratios (co_steps co) k 0"
      by (intro exI [of _ 0]) (simp add: ratios_simps(1))
    then show ?thesis
      using RpDeadline rs assms(2,4)
      by (intro ramp_okI [where rs = rs]) (auto simp: ramp_step_def held_def)
  next
    case (RpStep xs)
    then have "xs = []" using assms(3) by (cases xs) auto
    moreover have "\<exists>k' h'. k' \<le> length (co_steps co) \<and> held (now + d) co ra h' \<and> rs = ratios (co_steps co) k' h'"
      using RpStep rs(1) held_later [OF _ le] by auto blast
    moreover have "ra' = ra\<lparr>ra_pc := RpHold\<rparr>" "co' = co\<lparr>co_zk := z\<rparr>"
      using RpStep assms(4) calculation(1) by (auto simp: ramp_step_def)
    ultimately show ?thesis
      using rs(2-4) by (intro ramp_okI [where rs = rs]) (simp_all add: held_def)
  next
    case (RpSlept xs)
    then have "held (now + d) co ra 0" "\<exists>k' \<le> length (co_steps co). xs = drop k' (co_steps co) \<and> rs = ratios (co_steps co) k' 0"
      using rs(1) held_later [OF _ le] by auto
    moreover from this have "\<exists>k' h'. k' \<le> length (co_steps co) \<and> held (now + d) co ra h' \<and> rs = ratios (co_steps co) k' h'"
      by blast
    moreover have "ra_pc ra' = RpHold \<or> ra_pc ra' = RpStep xs" "ra_deadline ra' = ra_deadline ra"
      "ramp_cfg ra' = ramp_cfg ra" "co' = co\<lparr>co_zk := z\<rparr>"
      using RpSlept assms(4) by (auto simp: ramp_step_def split: if_splits)
    ultimately show ?thesis
      using rs(2-4) by (intro ramp_okI [where rs = rs]) (elim disjE; simp add: held_def)+
  next
    case RpTime
    then obtain k h where kh: "k \<le> length (co_steps co)" "held now co ra h" "rs = ratios (co_steps co) k h"
      using rs(1) by auto
    have "int h * co_interval co < co_holdMax co" if "now < ra_deadline ra"
      using kh(2) that by (simp add: held_def)
    then have "\<exists>k' h'. k' \<le> length (co_steps co) \<and> held (now + d) co ra h' \<and>
        (now < ra_deadline ra \<longrightarrow> int h' * co_interval co < co_holdMax co) \<and> rs = ratios (co_steps co) k' h'"
      using kh held_later [OF kh(2) le] by blast
    then have "\<exists>k' h'. k' \<le> length (co_steps co) \<and> held (now + d) co ra h' \<and> rs = ratios (co_steps co) k' h'"
      "now < ra_deadline ra \<longrightarrow> (\<exists>k' h'. k' \<le> length (co_steps co) \<and> held (now + d) co ra h' \<and>
        int h' * co_interval co < co_holdMax co \<and> rs = ratios (co_steps co) k' h')"
      by blast+
    moreover have "ra_pc ra' = RpFinal \<or> now < ra_deadline ra \<and> ra_pc ra' = RpWrite" "ra_deadline ra' = ra_deadline ra"
      "ramp_cfg ra' = ramp_cfg ra" "co' = co\<lparr>co_zk := z\<rparr>"
      using RpTime assms(4) by (auto simp: ramp_step_def split: if_splits)
    ultimately show ?thesis
      using rs(2-4) by (intro ramp_okI [where rs = rs]) (elim disjE; simp add: held_def)+
  next
    case RpHold
    then obtain k h where kh: "k \<le> length (co_steps co)" "held now co ra h" "rs = ratios (co_steps co) k h"
      using rs(1) by auto
    then have "\<exists>k' h'. k' \<le> length (co_steps co) \<and> held (now + d) co ra h' \<and> rs = ratios (co_steps co) k' h'"
      using held_later [OF kh(2) le] by blast
    moreover have "ra_pc ra' = RpFinal \<or> ra_pc ra' = RpTime" "ra_deadline ra' = ra_deadline ra"
      "ramp_cfg ra' = ramp_cfg ra" "co' = co\<lparr>co_zk := z\<rparr>"
      using RpHold assms(4) by (auto simp: ramp_step_def split: if_splits)
    ultimately show ?thesis
      using rs(2-4) by (intro ramp_okI [where rs = rs]) (elim disjE; simp add: held_def)+
  next
    case RpStatus
    then have "ra' = ra\<lparr>ra_pc := RpDone\<rparr>" "co' = set_status (ra_sessionID ra) ''holding'' (co\<lparr>co_zk := z\<rparr>)"
      using assms(4) by (auto simp: ramp_step_def)
    then show ?thesis
      using RpStatus rs by (intro ramp_okI [where rs = rs]) simp_all
  next
    case RpDone
    then have "ra' = ra" "co' = co\<lparr>co_zk := z\<rparr>"
      using assms(4) by (auto simp: ramp_step_def)
    then show ?thesis
      using RpDone rs by (intro ramp_okI [where rs = rs]) simp_all
  qed (use assms(3) in auto)
qed

lemma ramp_ok_tick:
  assumes "ramp_ok before w st"
  shows "ramp_ok before w (ramp_tick c j env delay i st)"
proof -
  obtain now ra co where st: "st = (now, ra, co)" by (cases st)
  obtain ra' co' where s: "ramp_step c j now ra (co\<lparr>co_zk := env i (co_zk co)\<rparr>) = (ra', co')"
    by (cases "ramp_step c j now ra (co\<lparr>co_zk := env i (co_zk co)\<rparr>)")
  have tick: "ramp_tick c j env delay i st =
      (now + int (delay i) + (if sleeps (ra_pc ra) then co_interval co else 0), ra', co')"
    by (simp add: ramp_tick_def st s Let_def)
  show ?thesis
  proof (cases "ra_pc ra = RpInit \<or> ra_pc ra = RpFinal \<or> ra_pc ra = RpWrite \<or> (\<exists>r rs. ra_pc ra = RpStep (r # rs))")
    case True
    then show ?thesis
      unfolding tick using ramp_ok_writes [OF assms [unfolded st] _ True s] by simp
  next
    case False
    then have "\<not> sleeps (ra_pc ra)"
      by (cases "ra_pc ra" rule: sleeps.cases) auto
    then show ?thesis
      unfolding tick using ramp_ok_quiet [OF assms [unfolded st] _ False s] by simp
  qed
qed

lemma ramp_ok_run: "ramp_ok before w st \<Longrightarrow> ramp_ok before w (ramp_run c j env delay n st)"
  by (induction n) (simp add: ramp_run_def, simp add: ramp_run_Suc ramp_ok_tick)

text \<open>The session's record on the heap while its ramp runs.\<close>

definition ramp_heap :: "session list \<Rightarrow> nat \<Rightarrow> 'z ramp_state \<Rightarrow> bool" where
  "ramp_heap heap p st \<longleftrightarrow> (case st of (now, ra, co) \<Rightarrow>
     co_sessions co (ra_sessionID ra) = Some p \<and>
     co_heap co = (if ra_pc ra = RpDone then heap[p := (heap ! p)\<lparr>ss_Status := ''holding''\<rparr>] else heap))"

lemma ramp_heap_tick:
  assumes "ramp_heap heap p st"
  shows "ramp_heap heap p (ramp_tick c j env delay i st)"
proof -
  obtain now ra co where st: "st = (now, ra, co)" by (cases st)
  show ?thesis
  proof (cases "ra_pc ra")
    case (RpStep rs)
    then show ?thesis
      using assms by (cases rs) (auto simp: st ramp_heap_def ramp_tick_def ramp_step_def Let_def)
  next
    case RpStatus
    then show ?thesis
      using assms by (auto simp: st ramp_heap_def ramp_tick_def ramp_step_def Let_def set_status_def)
  qed (use assms in \<open>auto simp: st ramp_heap_def ramp_tick_def ramp_step_def Let_def\<close>)
qed

lemma ramp_heap_run: "ramp_heap heap p st \<Longrightarrow> ramp_heap heap p (ramp_run c j env delay n st)"
  by (induction n) (simp add: ramp_run_def, simp add: ramp_run_Suc ramp_heap_tick)

definition ramp_bound :: "'z coordinator \<Rightarrow> nat" where
  "ramp_bound co = 10 * nat (co_holdMax co) + 2 * length (co_steps co) + 8"

text \<open>
  C10: with a positive interval the goroutine that \<open>createSession\<close> starts terminates, whatever the
  other clients of the store do between its actions, however slow they are, and whether or not its
  writes succeed. What it writes is the ratio 0, then a prefix of the configured steps, then the ratio
  1 at least once and, in the hold loop, at most until \<open>holdMax\<close> has passed; always enabled, with the
  session's target and the old active instance. It leaves the session in the status \<open>holding\<close>.
\<close>

theorem ramp_terminates:
  assumes "createSession dec stamp body co = (reply, co1, Some ra)" and "0 < co_interval co"
    and "ramp_bound co \<le> n"
  shows "\<exists>now' ra' co' s k h. ramp_run c j env delay n (now, ra, co1) = (now', ra', co') \<and>
    ra_pc ra' = RpDone \<and> k \<le> length (co_steps co) \<and>
    (h = 0 \<or> int (h - 1) * co_interval co < co_holdMax co) \<and>
    co_log co' = co_log co @ map (ramp_cfg ra) (Fin 0 # take k (co_steps co) @ replicate (Suc h) (Fin 1)) \<and>
    reply = CoSession 201 s \<and> getSession stamp co' = CoSession 200 (s\<lparr>ss_Status := ''holding''\<rparr>)"
proof -
  obtain target readyAfter active where dec: "dec body = Some (target, readyAfter, active)"
    using assms(1) by (cases "dec body") (auto simp: createSession_def)
  define s where "s = \<lparr>ss_ID = stamp, ss_TargetInstanceID = target, ss_ActiveInstanceID = active,
                    ss_ReadyAfter = readyAfter, ss_Status = ''running''\<rparr>"
  have co1: "co1 = co\<lparr>co_heap := co_heap co @ [s], co_sessions := (co_sessions co)(stamp \<mapsto> length (co_heap co))\<rparr>"
    and ra: "ra_pc ra = RpInit" "ra_sessionID ra = stamp" and reply: "reply = CoSession 201 s"
    using assms(1) dec by (auto simp: createSession_def s_def Let_def)
  obtain now' ra' co' where run: "ramp_run c j env delay n (now, ra, co1) = (now', ra', co')"
    by (cases "ramp_run c j env delay n (now, ra, co1)")
  have "0 < co_interval co1" "rm (now, ra, co1) \<le> n"
    using assms(2,3) ra by (simp_all add: rm_def ramp_bound_def co1)
  from ramp_run_done [OF this, of c j env delay] have finished: "ra_pc ra' = RpDone"
    by (simp add: run)
  have same: "co_steps co' = co_steps co" "co_interval co' = co_interval co" "co_holdMax co' = co_holdMax co"
    using ramp_run_static [of c j env delay n now ra co1] unfolding run Let_def by (simp_all add: co1)
  have "ramp_ok (co_log co) (ramp_cfg ra) (now', ra', co')"
    unfolding run [symmetric] using assms(2) ra by (intro ramp_ok_run) (simp add: ramp_ok_def co1)
  then obtain k h where kh: "k \<le> length (co_steps co)" "h = 0 \<or> int (h - 1) * co_interval co < co_holdMax co"
      "co_log co' = co_log co @ map (ramp_cfg ra) (ratios (co_steps co) k (Suc h))"
    using finished same by (auto simp: ramp_ok_def)
  have "ramp_heap (co_heap co1) (length (co_heap co)) (now', ra', co')"
    unfolding run [symmetric] using ra by (intro ramp_heap_run) (simp add: ramp_heap_def co1)
  then have "getSession stamp co' = CoSession 200 (s\<lparr>ss_Status := ''holding''\<rparr>)"
    using finished ramp_run_static [of c j env delay n now ra co1] ra(2)
    unfolding run Let_def by (simp add: ramp_heap_def getSession_def co1)
  moreover have "co_log co' = co_log co @ map (ramp_cfg ra) (Fin 0 # take k (co_steps co) @ replicate (Suc h) (Fin 1))"
    using kh(3) by (simp add: ratios_def f64_one_def)
  ultimately show ?thesis
    using run finished kh(1,2) reply by blast
qed

definition sample_decode :: "string \<Rightarrow> (string \<times> int \<times> string) option" where
  "sample_decode body = (if body = [] then None else Some (''w1'', 2, ''a1''))"

definition sample_coordinator :: "(string list \<rightharpoonup> (InstanceRecord + MirrorConfig) option znode) coordinator" where
  "sample_coordinator = \<lparr>co_service = ''svc'', co_interval = 1000000000, co_steps = [Fin (1 / 2)],
     co_holdMax = 2000000000, co_sessions = Map.empty, co_heap = [], co_zk = Map.empty, co_log = []\<rparr>"

theorem ramp_terminates_witness:
  "\<exists>reply co1 ra n now' ra' co'.
    createSession sample_decode ''t'' ''{}'' sample_coordinator = (reply, co1, Some ra) \<and>
    ramp_run tree_conn plain_codec (\<lambda>i z. z) (\<lambda>i. 5) n (0, ra, co1) = (now', ra', co') \<and>
    ra_pc ra' = RpDone \<and> length (co_log co') \<ge> 2"
proof -
  define ra where "ra = \<lparr>ra_sessionID = ''t'', ra_target = ''w1'', ra_active = ''a1'', ra_deadline = 0, ra_pc = RpInit\<rparr>"
  obtain reply co1 where start: "createSession sample_decode ''t'' ''{}'' sample_coordinator = (reply, co1, Some ra)"
    by (simp add: createSession_def sample_decode_def ra_def Let_def)
  have "0 < co_interval sample_coordinator"
    by (simp add: sample_coordinator_def)
  from ramp_terminates [OF start this order_refl, of tree_conn plain_codec "\<lambda>i z. z" "\<lambda>i. 5" 0]
  obtain now' ra' co' k h where
    "ramp_run tree_conn plain_codec (\<lambda>i z. z) (\<lambda>i. 5) (ramp_bound sample_coordinator) (0, ra, co1) = (now', ra', co')"
    "ra_pc ra' = RpDone"
    "co_log co' = co_log sample_coordinator @ map (ramp_cfg ra)
       (Fin 0 # take k (co_steps sample_coordinator) @ replicate (Suc h) (Fin 1))"
    by blast
  moreover from this(3) have "length (co_log co') \<ge> 2" by simp
  ultimately show ?thesis using start by blast
qed

end
