(* ===== verification/Sessions.thy ===== *)
theory Sessions
  imports Coordinator
begin

text \<open>
  The coordinator's sessions under completion, deletion and failure of the store, and their race with
  the ramp (cmd/warmup-coordinator/main.go).
\<close>

section \<open>Completion\<close>

text \<open>The sessions of the map are on the heap under their own id, no two at one place.\<close>

definition co_wf :: "'z coordinator \<Rightarrow> bool" where
  "co_wf co \<longleftrightarrow> (\<forall>sid p. co_sessions co sid = Some p \<longrightarrow> p < length (co_heap co) \<and> ss_ID (co_heap co ! p) = sid)"

lemma co_wf_create: "co_wf co \<Longrightarrow> co_wf (fst (snd (createSession dec stamp body co)))"
  by (auto simp: co_wf_def createSession_def Let_def nth_append less_Suc_eq split: option.splits)

lemma co_wf_complete: "co_wf co \<Longrightarrow> co_wf (snd (completeSession c j now sid co))"
proof -
  assume wf: "co_wf co"
  have "co_wf (co\<lparr>co_heap := (co_heap co)[p := (co_heap co ! p)\<lparr>ss_ActiveInstanceID := a, ss_Status := st\<rparr>]\<rparr>)" for p a st
    using wf by (auto simp: co_wf_def nth_update_if)
  moreover have "co_wf co' \<Longrightarrow> co_wf (snd (co_write c j now cfg co'))" for co' cfg
    by (simp add: co_wf_def)
  ultimately show ?thesis
    using wf by (auto simp: completeSession_def Let_def split: option.splits prod.splits) (metis snd_conv)+
qed

lemma co_wf_delete: "co_wf co \<Longrightarrow> co_wf (snd (deleteSession sid co))"
  by (simp add: co_wf_def deleteSession_def)

lemma co_wf_ramp: "co_wf co \<Longrightarrow> co_wf (snd (ramp_step c j now ra co))"
proof -
  assume wf: "co_wf co"
  have "co_wf (set_status sid st co)" for sid st
    using wf by (auto simp: co_wf_def set_status_def nth_update_if split: option.splits)
  moreover have "co_wf (snd (co_write c j now cfg co))" for cfg
    using wf by (simp add: co_wf_def)
  ultimately show ?thesis
    using wf by (cases "ra_pc ra" rule: sleeps.cases; cases "ra_pc ra") (auto simp: ramp_step_def)
qed

lemma co_write_read:
  assumes rel: "zk_reliable c view alive" and cd: "codec_ok j" and live: "zk_live view alive (co_zk co)"
    and svc: "part_ok (co_service co)"
    and plain: "plain_mirror (cfg\<lparr>mc_UpdatedAtUnixMilli := now div 1000000\<rparr>)"
  obtains co' where "co_write c j now cfg co = (None, co')" "zk_live view alive (co_zk co')"
    "ReadMirrorConfig c j (co_service co) (co_zk co') = (cfg\<lparr>mc_UpdatedAtUnixMilli := now div 1000000\<rparr>, None)"
proof -
  obtain z' b v where z': "WriteMirrorConfig c j (now div 1000000) (co_service co) cfg (co_zk co) = (None, z')"
    "zk_live view alive z'"
    "ReadMirrorConfig c j (co_service co) z' = (cfg\<lparr>mc_UpdatedAtUnixMilli := now div 1000000\<rparr>, None)"
    by (rule mirror_write_read [OF rel cd live svc plain])
  then show ?thesis using that by (simp add: co_write_def)
qed

lemma plain_complete_cfg:
  "ascii sid \<Longrightarrow> ascii target \<Longrightarrow> in_i64 t \<Longrightarrow> plain_mirror ((complete_cfg sid target)\<lparr>mc_UpdatedAtUnixMilli := t\<rparr>)"
  using fl_of_int [of 0] by (simp add: plain_mirror_def complete_cfg_def)

lemma plain_ramp_cfg:
  "ascii (ra_sessionID ra) \<Longrightarrow> ascii (ra_target ra) \<Longrightarrow> ascii (ra_active ra) \<Longrightarrow> in_i64 t \<Longrightarrow>
    plain_mirror ((ramp_cfg ra f64_one)\<lparr>mc_UpdatedAtUnixMilli := t\<rparr>)"
  using fl_of_int [of 1] by (simp add: plain_mirror_def ramp_cfg_def f64_one_def)

definition completed :: "session \<Rightarrow> session" where
  "completed s = s\<lparr>ss_ActiveInstanceID := ss_TargetInstanceID s, ss_Status := ''completed''\<rparr>"

lemma completed_simps [simp]:
  "ss_ID (completed s) = ss_ID s" "ss_Status (completed s) = ''completed''"
  "ss_TargetInstanceID (completed s) = ss_TargetInstanceID s"
  by (simp_all add: completed_def)

lemma completeSession_running:
  assumes "co_sessions co sid = Some p" "p < length (co_heap co)" "ss_Status (co_heap co ! p) \<noteq> ''completed''"
  defines "co1 \<equiv> co\<lparr>co_heap := (co_heap co)[p := completed (co_heap co ! p)]\<rparr>"
  shows "completeSession c j now sid co =
    (case co_write c j now (complete_cfg sid (ss_TargetInstanceID (co_heap co ! p))) co1 of
       (Some e, co2) \<Rightarrow> (CoError 500, co2)
     | (None, co2) \<Rightarrow> (CoSession 200 (completed (co_heap co ! p)), co2))"
proof -
  let ?cfg = "complete_cfg sid (ss_TargetInstanceID (co_heap co ! p))"
  obtain r co2 where w: "co_write c j now ?cfg co1 = (r, co2)"
    by (cases "co_write c j now ?cfg co1")
  have "co2 = snd (co_write c j now ?cfg co1)"
    by (simp add: w)
  then have "co_heap co2 ! p = completed (co_heap co ! p)"
    using assms(2) by (simp add: co1_def)
  then show ?thesis
    using assms(1,3) w [unfolded co1_def]
    by (simp add: completeSession_def Let_def completed_def [symmetric] co1_def split: option.split)
qed

lemma completeSession_completed:
  assumes "co_sessions co sid = Some p" "ss_Status (co_heap co ! p) = ''completed''"
  shows "completeSession c j now sid co = (CoSession 200 (co_heap co ! p), co)"
  using assms by (simp add: completeSession_def Let_def)

lemma complete_written:
  assumes "zk_reliable c view alive" and "codec_ok j" and "zk_live view alive (co_zk co)"
    and "part_ok (co_service co)" and "in_i64 (now div 1000000)"
    and "co_sessions co sid = Some p" and "p < length (co_heap co)" and "ss_Status (co_heap co ! p) \<noteq> ''completed''"
    and "ascii sid" and "ascii (ss_TargetInstanceID (co_heap co ! p))"
  obtains co1 where "completeSession c j now sid co = (CoSession 200 (completed (co_heap co ! p)), co1)"
    "co_sessions co1 = co_sessions co" "co_heap co1 = (co_heap co)[p := completed (co_heap co ! p)]"
    "co_service co1 = co_service co" "zk_live view alive (co_zk co1)"
    "ReadMirrorConfig c j (co_service co) (co_zk co1) =
      ((complete_cfg sid (ss_TargetInstanceID (co_heap co ! p)))\<lparr>mc_UpdatedAtUnixMilli := now div 1000000\<rparr>, None)"
proof -
  let ?s = "completed (co_heap co ! p)" and ?cfg = "complete_cfg sid (ss_TargetInstanceID (co_heap co ! p))"
  define co0 where "co0 = co\<lparr>co_heap := (co_heap co)[p := ?s]\<rparr>"
  have co0: "zk_live view alive (co_zk co0)" "part_ok (co_service co0)"
    using assms(3,4) by (simp_all add: co0_def)
  obtain co1 where co1: "co_write c j now ?cfg co0 = (None, co1)" "zk_live view alive (co_zk co1)"
    "ReadMirrorConfig c j (co_service co0) (co_zk co1) = (?cfg\<lparr>mc_UpdatedAtUnixMilli := now div 1000000\<rparr>, None)"
    by (rule co_write_read [OF assms(1,2) co0 plain_complete_cfg [OF assms(9,10,5)]])
  have "co1 = snd (co_write c j now ?cfg co0)"
    by (simp add: co1(1))
  then have f: "co_sessions co1 = co_sessions co" "co_heap co1 = (co_heap co)[p := ?s]" "co_service co1 = co_service co"
    by (simp_all add: co0_def)
  have "completeSession c j now sid co = (CoSession 200 ?s, co1)"
    using completeSession_running [OF assms(6-8), of c j now] co1(1) by (simp add: co0_def)
  then show ?thesis
    using that f co1(2,3) by (simp add: co0_def)
qed

text \<open>
  C11: completing a session that is not completed, with a store that answers, disables mirroring,
  promotes the session's target to the active instance in the mirror configuration and in the session,
  and answers with the completed session; a second call gives the same answer and writes nothing;
  other sessions are untouched. A session that does not exist is answered with 404, and nothing
  changes.
\<close>

theorem complete_session:
  assumes "zk_reliable c view alive" and "codec_ok j" and "zk_live view alive (co_zk co)"
    and "part_ok (co_service co)" and "in_i64 (now div 1000000)" and "co_wf co"
    and "co_sessions co sid = Some p" and "ss_Status (co_heap co ! p) \<noteq> ''completed''"
    and "ascii sid" and "ascii (ss_TargetInstanceID (co_heap co ! p))"
  shows "\<exists>co1 s target. s = completed (co_heap co ! p) \<and> target = ss_TargetInstanceID s \<and>
    completeSession c j now sid co = (CoSession 200 s, co1) \<and> getSession sid co1 = CoSession 200 s \<and>
    ReadMirrorConfig c j (co_service co) (co_zk co1) =
      ((complete_cfg sid target)\<lparr>mc_UpdatedAtUnixMilli := now div 1000000\<rparr>, None) \<and>
    (\<forall>now'. completeSession c j now' sid co1 = (CoSession 200 s, co1)) \<and>
    (\<forall>sid'. sid' \<noteq> sid \<longrightarrow> getSession sid' co1 = getSession sid' co) \<and>
    (\<forall>sid'. co_sessions co sid' = None \<longrightarrow> completeSession c j now sid' co = (CoNotFound, co))"
proof -
  let ?s = "completed (co_heap co ! p)"
  have p: "p < length (co_heap co)" "ss_ID (co_heap co ! p) = sid"
    using assms(6,7) by (simp_all add: co_wf_def)
  obtain co1 where co1: "completeSession c j now sid co = (CoSession 200 ?s, co1)"
    "co_sessions co1 = co_sessions co" "co_heap co1 = (co_heap co)[p := ?s]"
    "ReadMirrorConfig c j (co_service co) (co_zk co1) =
      ((complete_cfg sid (ss_TargetInstanceID (co_heap co ! p)))\<lparr>mc_UpdatedAtUnixMilli := now div 1000000\<rparr>, None)"
    by (rule complete_written [OF assms(1-5,7) p(1) assms(8-10)])
  have again: "completeSession c j now' sid co1 = (CoSession 200 ?s, co1)" for now'
    using completeSession_completed [of co1 sid p] co1(2,3) assms(7) p(1) by simp
  have other: "getSession sid' co1 = getSession sid' co" if "sid' \<noteq> sid" for sid'
  proof (cases "co_sessions co sid'")
    case (Some q)
    then have "q \<noteq> p" using assms(6) p(2) that by (auto simp: co_wf_def)
    then show ?thesis using Some co1(2,3) by (simp add: getSession_def nth_update_if)
  qed (simp add: getSession_def co1(2))
  have "getSession sid co1 = CoSession 200 ?s"
    using co1(2,3) assms(7) p(1) by (simp add: getSession_def)
  moreover have "completeSession c j now sid' co = (CoNotFound, co)" if "co_sessions co sid' = None" for sid'
    using that by (simp add: completeSession_def)
  ultimately show ?thesis
    using co1(1,4) again other by (intro exI [of _ co1] exI [of _ ?s]) simp
qed

definition one_session :: "(string list \<rightharpoonup> (InstanceRecord + MirrorConfig) option znode) coordinator" where
  "one_session = fst (snd (createSession sample_decode ''t'' ''{}'' sample_coordinator))"

lemma one_session_simps:
  "one_session = sample_coordinator\<lparr>co_sessions := [''t'' \<mapsto> 0], co_heap := [\<lparr>ss_ID = ''t'',
     ss_TargetInstanceID = ''w1'', ss_ActiveInstanceID = ''a1'', ss_ReadyAfter = 2, ss_Status = ''running''\<rparr>]\<rparr>"
  by (simp add: one_session_def createSession_def sample_decode_def sample_coordinator_def Let_def)

lemma one_session_facts:
  "co_sessions one_session ''t'' = Some 0" "0 < length (co_heap one_session)" "co_zk one_session = Map.empty"
  "co_service one_session = ''svc''" "co_wf one_session" "ss_Status (co_heap one_session ! 0) \<noteq> ''completed''"
  "ss_TargetInstanceID (co_heap one_session ! 0) = ''w1''" "part_ok ''svc''" "ascii ''t''" "ascii ''w1''" "ascii ''a1''"
  "0 < co_interval one_session"
  by (simp_all add: one_session_simps sample_coordinator_def co_wf_def wf_simps)

theorem complete_session_witness:
  "\<exists>co1. completeSession tree_conn plain_codec 0 ''t'' one_session =
      (CoSession 200 (completed (co_heap one_session ! 0)), co1) \<and>
    mc_ActiveInstanceID (fst (ReadMirrorConfig tree_conn plain_codec ''svc'' (co_zk co1))) = ''w1''"
proof -
  have "zk_live (\<lambda>z. z) (\<lambda>_. True) (co_zk one_session)" "part_ok (co_service one_session)"
    "ascii (ss_TargetInstanceID (co_heap one_session ! 0))" "in_i64 (0 div 1000000)"
    by (simp_all add: one_session_facts tree_empty_live in_i64_def)
  from complete_session [OF tree_reliable plain_codec_ok this(1,2,4) one_session_facts(5,1,6,9) this(3)]
  show ?thesis by (auto simp: one_session_facts complete_cfg_def)
qed


text \<open>A store whose session has expired: every call fails.\<close>

definition lost_conn :: "(unit, 'b) zk_conn" where
  "lost_conn = \<lparr>zk_exists = (\<lambda>path z. Inl ErrZkOther), zk_get = (\<lambda>path z. Inl ErrZkOther),
     zk_create = (\<lambda>path b eph z. (Some ErrZkOther, z)),
     zk_set = (\<lambda>path b v z. (Some ErrZkOther, z)), zk_close = (\<lambda>z. z)\<rparr>"

lemma lost_ensurePath: "ensurePath lost_conn j path z = (Some ErrZkOther, z)"
  using Split_nonempty [of "CHR ''/''" "TrimSlash path"]
  by (cases "Split (CHR ''/'') (TrimSlash path)") (simp_all add: ensurePath_def lost_conn_def Let_def)


section \<open>Completing while the ramp runs\<close>

definition ramp_over :: "ramp_pc \<Rightarrow> bool" where
  "ramp_over pc \<longleftrightarrow> pc = RpStatus \<or> pc = RpDone"

text \<open>The store after a ramp's last write.\<close>

definition ramp_mirror :: "('z, 'b) zk_conn \<Rightarrow> 'b codec \<Rightarrow> ('z \<Rightarrow> string list \<Rightarrow> 'b znode option) \<Rightarrow> ('z \<Rightarrow> bool) \<Rightarrow>
    'z ramp_state \<Rightarrow> bool" where
  "ramp_mirror c j view alive st \<longleftrightarrow> (case st of (now, ra, co) \<Rightarrow>
     zk_live view alive (co_zk co) \<and>
     (ramp_over (ra_pc ra) \<longrightarrow>
       (\<exists>t. ReadMirrorConfig c j (co_service co) (co_zk co) = ((ramp_cfg ra f64_one)\<lparr>mc_UpdatedAtUnixMilli := t\<rparr>, None))))"

lemma co_write_live:
  "zk_reliable c view alive \<Longrightarrow> zk_live view alive (co_zk co) \<Longrightarrow> part_ok (co_service co) \<Longrightarrow>
    zk_live view alive (co_zk (snd (co_write c j now cfg co))) \<and>
    zk_look view j (co_zk (snd (co_write c j now cfg co))) = zk_look view j (co_zk co)"
  using mirror_write_live [of c view alive "co_zk co" "co_service co" j "now div 1000000" cfg]
  by (cases "WriteMirrorConfig c j (now div 1000000) (co_service co) cfg (co_zk co)") (simp add: co_write_def)

text \<open>What every write of a configuration keeps of the store, the ramp keeps.\<close>

lemma ramp_store_tick:
  assumes "\<And>t cfg co'. co_service co' = svc \<Longrightarrow> P (co_zk co') \<Longrightarrow> P (co_zk (snd (co_write c j t cfg co')))"
    and "co_service co = svc" and "P (co_zk co)"
  shows "P (co_zk (snd (snd (ramp_tick c j (\<lambda>i z. z) delay i (now, ra, co)))))"
proof (cases "ra_pc ra")
  case (RpStep rs)
  then show ?thesis
    using assms by (cases rs) (simp_all add: ramp_tick_def ramp_step_def Let_def)
qed (use assms in \<open>simp_all add: ramp_tick_def ramp_step_def Let_def\<close>)

lemma ramp_store_run:
  assumes "\<And>t cfg co'. co_service co' = co_service co \<Longrightarrow> P (co_zk co') \<Longrightarrow> P (co_zk (snd (co_write c j t cfg co')))"
    and "P (co_zk co)"
  shows "P (co_zk (snd (snd (ramp_run c j (\<lambda>i z. z) delay n (now, ra, co)))))"
proof (induction n)
  case (Suc n)
  obtain now1 ra1 co1 where st: "ramp_run c j (\<lambda>i z. z) delay n (now, ra, co) = (now1, ra1, co1)"
    by (cases "ramp_run c j (\<lambda>i z. z) delay n (now, ra, co)")
  have svc: "co_service co1 = co_service co"
    using ramp_run_static [of c j "\<lambda>i z. z" delay n now ra co] unfolding st Let_def by simp
  have "P (co_zk co1)"
    using Suc by (simp add: st)
  with svc show ?case
    unfolding ramp_run_Suc st by (rule ramp_store_tick [where P = P, rotated]) (rule assms(1))
qed (simp add: ramp_run_def assms(2))

lemma ramp_mirror_tick:
  assumes rel: "zk_reliable c view alive" and cd: "codec_ok j" and svc: "part_ok (co_service co)"
    and plain: "ascii (ra_sessionID ra)" "ascii (ra_target ra)" "ascii (ra_active ra)" "in_i64 (now div 1000000)"
    and ok: "ramp_mirror c j view alive (now, ra, co)"
  shows "ramp_mirror c j view alive (ramp_tick c j (\<lambda>i z. z) delay i (now, ra, co))"
proof -
  have live: "zk_live view alive (co_zk co)"
    using ok by (simp add: ramp_mirror_def)
  have w: "zk_live view alive (co_zk (snd (co_write c j now cfg co)))" for cfg
    using co_write_live [OF rel live svc] by blast
  show ?thesis
  proof (cases "ra_pc ra")
    case (RpStep rs)
    then show ?thesis
      using live w by (cases rs) (auto simp: ramp_mirror_def ramp_tick_def ramp_step_def ramp_over_def Let_def)
  next
    case RpFinal
    obtain co' where "co_write c j now (ramp_cfg ra f64_one) co = (None, co')" "zk_live view alive (co_zk co')"
      "ReadMirrorConfig c j (co_service co) (co_zk co') =
        ((ramp_cfg ra f64_one)\<lparr>mc_UpdatedAtUnixMilli := now div 1000000\<rparr>, None)"
      by (rule co_write_read [OF rel cd live svc plain_ramp_cfg [OF plain]])
    moreover have "co_service (snd (co_write c j now (ramp_cfg ra f64_one) co)) = co_service co"
      by simp
    ultimately show ?thesis
      using RpFinal by (auto simp: ramp_mirror_def ramp_tick_def ramp_step_def Let_def)
  qed (use live w ok in \<open>auto simp: ramp_mirror_def ramp_tick_def ramp_step_def ramp_over_def Let_def\<close>)
qed

lemma ramp_mirror_run:
  assumes rel: "zk_reliable c view alive" and cd: "codec_ok j" and svc: "part_ok (co_service co)"
    and plain: "ascii (ra_sessionID ra)" "ascii (ra_target ra)" "ascii (ra_active ra)"
    and times: "\<And>k. k < n \<Longrightarrow> in_i64 (fst (ramp_run c j (\<lambda>i z. z) delay k (now, ra, co)) div 1000000)"
    and ok: "ramp_mirror c j view alive (now, ra, co)"
  shows "ramp_mirror c j view alive (ramp_run c j (\<lambda>i z. z) delay n (now, ra, co))"
  using times
proof (induction n)
  case 0
  then show ?case using ok by (simp add: ramp_run_def)
next
  case (Suc n)
  obtain now1 ra1 co1 where st: "ramp_run c j (\<lambda>i z. z) delay n (now, ra, co) = (now1, ra1, co1)"
    by (cases "ramp_run c j (\<lambda>i z. z) delay n (now, ra, co)")
  have "in_i64 (now1 div 1000000)"
    using Suc.prems [of n] by (simp add: st)
  moreover have "part_ok (co_service co1)" "ascii (ra_sessionID ra1)" "ascii (ra_target ra1)" "ascii (ra_active ra1)"
    using ramp_run_static [of c j "\<lambda>i z. z" delay n now ra co] svc plain unfolding st Let_def by simp_all
  moreover have "ramp_mirror c j view alive (now1, ra1, co1)"
    using Suc by (simp add: st)
  ultimately show ?case
    unfolding ramp_run_Suc st by (intro ramp_mirror_tick [OF rel cd])
qed

text \<open>
  C35: completing a session does not stop its ramp. If \<open>complete\<close> is called at any point of the ramp
  before its last write, and no other client writes, then the ramp still finishes and undoes the
  completion: the mirror configuration ends enabled with ratio 1 and with the old active instance, and
  the session, for which \<open>complete\<close> answered 200 with status \<open>completed\<close>, ends with status \<open>holding\<close>.
\<close>

theorem ramp_undoes_completion:
  assumes "zk_reliable c view alive" and "codec_ok j" and "zk_live view alive (co_zk co)"
    and "part_ok (co_service co)" and "co_wf co" and "0 < co_interval co"
    and "co_sessions co (ra_sessionID ra) = Some p" and "ss_Status (co_heap co ! p) \<noteq> ''completed''"
    and "ascii (ra_sessionID ra)" and "ascii (ra_target ra)" and "ascii (ra_active ra)"
    and "ss_TargetInstanceID (co_heap co ! p) = ra_target ra" and "\<not> ramp_over (ra_pc ra)"
    and "completeSession c j t0 (ra_sessionID ra) co = (reply, co1)" and "in_i64 (t0 div 1000000)"
    and "rm (t1, ra, co1) \<le> n"
    and "\<And>k. k < n \<Longrightarrow> in_i64 (fst (ramp_run c j (\<lambda>i z. z) delay k (t1, ra, co1)) div 1000000)"
  shows "\<exists>t2 ra' co' t s. ramp_run c j (\<lambda>i z. z) delay n (t1, ra, co1) = (t2, ra', co') \<and>
    ra_pc ra' = RpDone \<and> reply = CoSession 200 s \<and> s = completed (co_heap co ! p) \<and>
    ReadMirrorConfig c j (co_service co) (co_zk co') =
      (\<lparr>mc_Enabled = True, mc_Ratio = Fin 1, mc_TargetInstanceID = ra_target ra,
        mc_ActiveInstanceID = ra_active ra, mc_SessionID = ra_sessionID ra, mc_UpdatedAtUnixMilli = t\<rparr>, None) \<and>
    getSession (ra_sessionID ra) co' = CoSession 200 (s\<lparr>ss_Status := ''holding''\<rparr>)"
proof -
  let ?s = "completed (co_heap co ! p)" and ?sid = "ra_sessionID ra"
  define co0 where "co0 = co\<lparr>co_heap := (co_heap co)[p := ?s]\<rparr>"
  have p: "p < length (co_heap co)" using assms(5,7) by (simp add: co_wf_def)
  have "zk_live view alive (co_zk co0)" "part_ok (co_service co0)"
    using assms(3,4) by (simp_all add: co0_def)
  from co_write_read [OF assms(1,2) this plain_complete_cfg [OF assms(9,10,15)]]
  obtain co2 where co2: "co_write c j t0 (complete_cfg ?sid (ra_target ra)) co0 = (None, co2)"
    "zk_live view alive (co_zk co2)" by blast
  have rep: "reply = CoSession 200 ?s" "co1 = co2"
    using completeSession_running [OF assms(7) p assms(8), of c j t0] co2(1) assms(12,14)
    by (simp_all add: co0_def)
  have "co1 = snd (co_write c j t0 (complete_cfg ?sid (ra_target ra)) co0)"
    by (simp add: co2(1) rep)
  then have f: "co_service co1 = co_service co" "co_interval co1 = co_interval co"
    "co_sessions co1 = co_sessions co" "co_heap co1 = (co_heap co)[p := ?s]"
    by (simp_all add: co0_def)
  obtain t2 ra' co' where run: "ramp_run c j (\<lambda>i z. z) delay n (t1, ra, co1) = (t2, ra', co')"
    by (cases "ramp_run c j (\<lambda>i z. z) delay n (t1, ra, co1)")
  have fin: "ra_pc ra' = RpDone"
    using ramp_run_done [of co1 t1 ra n c j "\<lambda>i z. z" delay] assms(6,16) by (simp add: run f)
  have st: "co_service co' = co_service co" "ramp_cfg ra' = ramp_cfg ra" "ra_sessionID ra' = ?sid"
    using ramp_run_static [of c j "\<lambda>i z. z" delay n t1 ra co1] ramp_cfg_static [of ra' ra]
    unfolding run Let_def by (simp_all add: f)
  have "ramp_mirror c j view alive (t2, ra', co')"
    unfolding run [symmetric] using assms(4,9-11,13,17) co2(2) rep(2) f(1)
    by (intro ramp_mirror_run [OF assms(1,2)]) (simp_all add: ramp_mirror_def)
  then obtain t where "ReadMirrorConfig c j (co_service co) (co_zk co') =
      ((ramp_cfg ra f64_one)\<lparr>mc_UpdatedAtUnixMilli := t\<rparr>, None)"
    using fin st by (auto simp: ramp_mirror_def ramp_over_def)
  moreover have "ramp_heap (co_heap co1) p (t2, ra', co')"
    unfolding run [symmetric] using assms(7,13) f by (intro ramp_heap_run) (auto simp: ramp_heap_def ramp_over_def)
  then have "getSession ?sid co' = CoSession 200 (?s\<lparr>ss_Status := ''holding''\<rparr>)"
    using fin st p by (simp add: ramp_heap_def getSession_def f)
  ultimately show ?thesis
    using run fin rep(1) by (simp add: ramp_cfg_def f64_one_def)
qed

lemma ramp_time_bound:
  assumes "\<And>i. delay i \<le> d" and "0 \<le> co_interval co"
  shows "now \<le> fst (ramp_run c j env delay k (now, ra, co)) \<and>
    fst (ramp_run c j env delay k (now, ra, co)) \<le> now + int k * (int d + co_interval co)"
proof (induction k)
  case (Suc k)
  obtain now1 ra1 co1 where st: "ramp_run c j env delay k (now, ra, co) = (now1, ra1, co1)"
    by (cases "ramp_run c j env delay k (now, ra, co)")
  have "co_interval co1 = co_interval co"
    using ramp_run_static [of c j env delay k now ra co] unfolding st Let_def by simp
  moreover have "int (delay k) \<le> int d" using assms(1) by simp
  ultimately show ?case
    using Suc assms(2) by (simp add: ramp_run_Suc st ramp_tick_def Let_def split: prod.split) (simp add: algebra_simps)
qed (simp add: ramp_run_def)

theorem ramp_undoes_completion_witness:
  "\<exists>ra co1 n t2 ra' co'. ra_pc ra = RpHold \<and>
    completeSession tree_conn plain_codec 0 ''t'' one_session = (CoSession 200 (completed (co_heap one_session ! 0)), co1) \<and>
    ramp_run tree_conn plain_codec (\<lambda>i z. z) (\<lambda>i. 0) n (0, ra, co1) = (t2, ra', co') \<and>
    mc_Enabled (fst (ReadMirrorConfig tree_conn plain_codec ''svc'' (co_zk co')))"
proof -
  define ra where "ra = \<lparr>ra_sessionID = ''t'', ra_target = ''w1'', ra_active = ''a1'', ra_deadline = 0, ra_pc = RpHold\<rparr>"
  obtain reply co1 where done1: "completeSession tree_conn plain_codec 0 (ra_sessionID ra) one_session = (reply, co1)"
    by (cases "completeSession tree_conn plain_codec 0 (ra_sessionID ra) one_session")
  have "co_interval co1 = co_interval one_session"
    using done1 by (auto simp: completeSession_def Let_def co_write_def split: option.splits prod.splits if_splits)
  then have iv: "co_interval co1 = 1000000000" by (simp add: one_session_simps sample_coordinator_def)
  have rm: "rm (0, ra, co1) \<le> 5" by (simp add: rm_def ra_def ramp_left_def)
  have times: "in_i64 (fst (ramp_run tree_conn plain_codec (\<lambda>i z. z) (\<lambda>i. 0) k (0, ra, co1)) div 1000000)"
    if "k < 5" for k
  proof -
    define t where "t = fst (ramp_run tree_conn plain_codec (\<lambda>i z. z) (\<lambda>i. 0) k (0, ra, co1))"
    have "int k * 1000000000 \<le> 5 * 1000000000" using that by simp
    then have "0 \<le> t" "t \<le> 5000000000"
      using ramp_time_bound [of "\<lambda>i. 0" 0 co1 0 tree_conn plain_codec "\<lambda>i z. z" k ra]
      by (simp_all add: iv t_def)
    then have "0 \<le> t div 1000000 \<and> t div 1000000 \<le> 5000"
      using zdiv_mono1 [of t 5000000000 1000000] by (simp add: pos_imp_zdiv_nonneg_iff)
    then show ?thesis by (simp add: in_i64_def flip: t_def)
  qed
  have live: "zk_live (\<lambda>z. z) (\<lambda>_. True) (co_zk one_session)" "part_ok (co_service one_session)" "in_i64 (0 div 1000000)"
    "co_sessions one_session (ra_sessionID ra) = Some 0" "ascii (ra_sessionID ra)" "ascii (ra_target ra)"
    "ascii (ra_active ra)" "ss_TargetInstanceID (co_heap one_session ! 0) = ra_target ra" "\<not> ramp_over (ra_pc ra)"
    by (simp_all add: one_session_facts tree_empty_live in_i64_def ra_def ramp_over_def)
  obtain t2 ra' co' t s where
    "ramp_run tree_conn plain_codec (\<lambda>i z. z) (\<lambda>i. 0) 5 (0, ra, co1) = (t2, ra', co')"
    "reply = CoSession 200 s" "s = completed (co_heap one_session ! 0)"
    "ReadMirrorConfig tree_conn plain_codec (co_service one_session) (co_zk co') =
      (\<lparr>mc_Enabled = True, mc_Ratio = Fin 1, mc_TargetInstanceID = ra_target ra,
        mc_ActiveInstanceID = ra_active ra, mc_SessionID = ra_sessionID ra, mc_UpdatedAtUnixMilli = t\<rparr>, None)"
    using ramp_undoes_completion [OF tree_reliable plain_codec_ok live(1,2) one_session_facts(5,12) live(4)
        one_session_facts(6) live(5-9) done1 live(3) rm times] by blast
  then show ?thesis
    using done1 by (intro exI [of _ ra] exI [of _ co1] exI [of _ 5] exI [of _ t2] exI [of _ ra'] exI [of _ co'])
      (simp add: ra_def one_session_facts)
qed

section \<open>The sessions under any history\<close>

text \<open>
  A history of the coordinator: requests, each served at a time with its stamp, and actions of the
  ramps started so far, in any order and with the store changing in between.
\<close>

datatype 'z co_input =
    CoServe int string http_request
  | CoRamp nat int
  | CoStore "'z \<Rightarrow> 'z"

fun co_event :: "('z, 'b) zk_conn \<Rightarrow> 'b codec \<Rightarrow> (string \<Rightarrow> (string \<times> int \<times> string) option) \<Rightarrow>
    (string \<Rightarrow> MirrorConfig option) \<Rightarrow> 'z co_input \<Rightarrow> 'z coordinator \<times> ramp list \<Rightarrow> 'z coordinator \<times> ramp list" where
  "co_event c j decS decM (CoServe now stamp r) (co, ras) =
     (case co_serve c j decS decM now stamp r co of
        (rep, co1, None) \<Rightarrow> (co1, ras)
      | (rep, co1, Some ra) \<Rightarrow> (co1, ras @ [ra]))"
| "co_event c j decS decM (CoRamp i now) (co, ras) =
     (if i < length ras then (case ramp_step c j now (ras ! i) co of (ra, co1) \<Rightarrow> (co1, ras[i := ra])) else (co, ras))"
| "co_event c j decS decM (CoStore f) (co, ras) = (co\<lparr>co_zk := f (co_zk co)\<rparr>, ras)"

text \<open>What holds of a session wherever it is on the heap\<close>

definition session_ok :: "session \<Rightarrow> bool" where
  "session_ok s \<longleftrightarrow> ss_Status s \<in> {''running'', ''holding'', ''completed''} \<and>
     (ss_Status s = ''completed'' \<longrightarrow> ss_ActiveInstanceID s = ss_TargetInstanceID s)"

definition co_good :: "'z coordinator \<times> ramp list \<Rightarrow> bool" where
  "co_good st \<longleftrightarrow> co_wf (fst st) \<and> list_all session_ok (co_heap (fst st))"

lemma heap_ok_update: "list_all session_ok h \<Longrightarrow> session_ok s \<Longrightarrow> list_all session_ok (h[p := s])"
  by (auto simp: list_all_iff dest: set_update_subset_insert [THEN subsetD])

lemma heap_ok_complete:
  assumes "list_all session_ok (co_heap co)"
  shows "list_all session_ok (co_heap (snd (completeSession c j now sid co)))"
proof (cases "co_sessions co sid")
  case (Some p)
  have "session_ok (completed (co_heap co ! p))"
    by (simp add: session_ok_def completed_def)
  then have "list_all session_ok ((co_heap co)[p := completed (co_heap co ! p)])"
    by (rule heap_ok_update [OF assms])
  moreover have "co_heap (snd (completeSession c j now sid co)) \<in>
      {co_heap co, (co_heap co)[p := completed (co_heap co ! p)]}"
    using Some by (auto simp: completeSession_def co_write_def completed_def Let_def split: prod.split option.split)
  ultimately show ?thesis using assms by auto
qed (use assms in \<open>simp add: completeSession_def\<close>)

lemma heap_ok_status:
  assumes "list_all session_ok (co_heap co)" "co_wf co"
  shows "list_all session_ok (co_heap (set_status sid ''holding'' co))"
  using assms by (auto simp: set_status_def session_ok_def split: option.split intro!: heap_ok_update)

lemma heap_ok_ramp:
  assumes "list_all session_ok (co_heap co)" "co_wf co"
  shows "list_all session_ok (co_heap (snd (ramp_step c j now ra co)))"
  using assms heap_ok_status [OF assms]
  by (cases "ra_pc ra" rule: sleeps.cases; cases "ra_pc ra") (auto simp: ramp_step_def)

lemma heap_ok_create:
  "list_all session_ok (co_heap co) \<Longrightarrow> list_all session_ok (co_heap (fst (snd (createSession dec stamp body co))))"
  by (auto simp: createSession_def session_ok_def Let_def split: option.split)

lemma co_good_serve:
  assumes "co_good (co, ras)"
  shows "co_good (fst (snd (co_serve c j decS decM now stamp r co)), ras')"
proof -
  have "co_heap (snd (setMirrorConfig c j decM now body co)) = co_heap co"
    "co_sessions (snd (setMirrorConfig c j decM now body co)) = co_sessions co" for body
    by (auto simp: setMirrorConfig_def co_write_def split: option.split prod.split)
  moreover have "co_heap (snd (deleteSession sid co)) = co_heap co" for sid
    by (simp add: deleteSession_def)
  ultimately show ?thesis
    using assms co_wf_create [of co decS stamp "rq_Body r"] heap_ok_create [of co decS stamp "rq_Body r"]
      co_wf_complete [of co c j now] heap_ok_complete [of co c j now] co_wf_delete [of co]
    by (auto simp: co_good_def co_serve_def co_wf_def split: co_route.split prod.split) (metis snd_conv)+
qed

lemma co_good_event: "co_good st \<Longrightarrow> co_good (co_event c j decS decM ev st)"
proof -
  assume good: "co_good st"
  obtain co ras where st: "st = (co, ras)" by (cases st)
  show ?thesis
  proof (cases ev)
    case (CoServe now stamp r)
    then show ?thesis
      using good co_good_serve [of co ras c j decS decM now stamp r]
      by (auto simp: st split: prod.split option.split)
  next
    case (CoRamp i now)
    then show ?thesis
      using good co_wf_ramp [of co c j now "ras ! i"] heap_ok_ramp [of co c j now "ras ! i"]
      by (auto simp: st co_good_def split: prod.split)
  qed (use good in \<open>simp add: st co_good_def co_wf_def\<close>)
qed

interpretation co: step_invariant "co_event c j decS decM" co_good
  by unfold_locales (rule co_good_event)

text \<open>
  C22: whatever requests arrive, however the ramps interleave with them and whatever becomes of the
  store, asking for a session is answered with 404 or with a session of that id whose status is
  running, holding or completed; and a completed session's active instance is its target.
\<close>

theorem sessions_reachable:
  "getSession sid (fst (fold (co_event c j decS decM) evs (new_coordinator cfg z, []))) = CoNotFound \<or>
   (\<exists>s. getSession sid (fst (fold (co_event c j decS decM) evs (new_coordinator cfg z, []))) = CoSession 200 s \<and>
      ss_ID s = sid \<and>
      (ss_Status s = ''running'' \<or> ss_Status s = ''holding'' \<or>
       ss_Status s = ''completed'' \<and> ss_ActiveInstanceID s = ss_TargetInstanceID s))"
proof -
  define co where "co = fst (fold (co_event c j decS decM) evs (new_coordinator cfg z, []))"
  have "co_good (new_coordinator cfg z, [])"
    by (simp add: co_good_def co_wf_def new_coordinator_def)
  then have good: "co_wf co" "list_all session_ok (co_heap co)"
    using co.run_good [of "(new_coordinator cfg z, [])" c j decS decM evs] by (simp_all add: co_good_def co_def)
  show ?thesis
  proof (cases "co_sessions co sid")
    case (Some p)
    then have "p < length (co_heap co)" "ss_ID (co_heap co ! p) = sid"
      using good(1) by (simp_all add: co_wf_def)
    then show ?thesis
      using good(2) Some by (auto simp: getSession_def session_ok_def list_all_length simp flip: co_def)
  qed (simp add: getSession_def flip: co_def)
qed

text \<open>
  C39: session ids have the clock's millisecond resolution, so of two sessions created within one
  millisecond the second replaces the first, whose ramp goes on all the same. Deleting a session
  removes the session only: the configuration in the store is left as it is, and the session's ramp
  goes on to write its next ratio, enabled.
\<close>

theorem session_collision_and_delete:
  assumes "dec body1 = Some (target1, n1, active1)" and "dec body2 = Some (target2, n2, active2)"
    and "createSession dec stamp body1 co = (reply1, co1, ra1)"
    and "createSession dec stamp body2 co1 = (reply2, co2, ra2)"
    and "deleteSession stamp co2 = (reply3, co3)" and "ra_sessionID ra = stamp" and "ra_pc ra = RpStep (r # rs)"
  shows "(\<exists>s1 s2. reply1 = CoSession 201 s1 \<and> reply2 = CoSession 201 s2 \<and> ss_ID s1 = ss_ID s2 \<and>
      getSession stamp co1 = CoSession 200 s1 \<and> getSession stamp co2 = CoSession 200 s2) \<and>
    ra1 \<noteq> None \<and> ra2 \<noteq> None \<and> reply3 = CoNoContent \<and> getSession stamp co3 = CoNotFound \<and>
    co_zk co3 = co_zk co \<and> (\<forall>sid. sid \<noteq> stamp \<longrightarrow> co_sessions co3 sid = co_sessions co sid) \<and>
    co_log (snd (ramp_step c j now ra co3)) = co_log co @ [ramp_cfg ra r]"
proof -
  let ?s1 = "\<lparr>ss_ID = stamp, ss_TargetInstanceID = target1, ss_ActiveInstanceID = active1,
    ss_ReadyAfter = n1, ss_Status = ''running''\<rparr>"
  let ?s2 = "\<lparr>ss_ID = stamp, ss_TargetInstanceID = target2, ss_ActiveInstanceID = active2,
    ss_ReadyAfter = n2, ss_Status = ''running''\<rparr>"
  let ?h = "length (co_heap co)"
  have co1: "reply1 = CoSession 201 ?s1" "ra1 \<noteq> None"
    "co1 = co\<lparr>co_heap := co_heap co @ [?s1], co_sessions := (co_sessions co)(stamp \<mapsto> ?h)\<rparr>"
    using assms(1,3) by (auto simp: createSession_def Let_def)
  have co2: "reply2 = CoSession 201 ?s2" "ra2 \<noteq> None"
    "co2 = co1\<lparr>co_heap := co_heap co1 @ [?s2], co_sessions := (co_sessions co1)(stamp \<mapsto> Suc ?h)\<rparr>"
    using assms(2,4) by (auto simp: createSession_def Let_def co1(3))
  have co3: "reply3 = CoNoContent" "co3 = co2\<lparr>co_sessions := (co_sessions co2)(stamp := None)\<rparr>"
    using assms(5) by (auto simp: deleteSession_def)
  have "getSession stamp co1 = CoSession 200 ?s1" "getSession stamp co2 = CoSession 200 ?s2"
    by (simp_all add: getSession_def co1(3) co2(3) nth_append)
  moreover have "getSession stamp co3 = CoNotFound" "co_zk co3 = co_zk co"
    "\<forall>sid. sid \<noteq> stamp \<longrightarrow> co_sessions co3 sid = co_sessions co sid"
    by (simp_all add: getSession_def co3(2) co2(3) co1(3))
  moreover have "co_log (snd (ramp_step c j now ra co3)) = co_log co @ [ramp_cfg ra r]"
    by (simp add: ramp_step_def assms(7) co3(2) co2(3) co1(3))
  ultimately show ?thesis
    using co1(1,2) co2(1,2) co3(1) by simp
qed

theorem session_collision_and_delete_witness:
  "\<exists>s1 s2 co1 co2. getSession ''t'' co1 = CoSession 200 s1 \<and> getSession ''t'' co2 = CoSession 200 s2 \<and>
     co2 = fst (snd (createSession sample_decode ''t'' ''b'' co1)) \<and>
     createSession sample_decode ''t'' ''a'' sample_coordinator = (CoSession 201 s1, co1, Some
       \<lparr>ra_sessionID = ''t'', ra_target = ''w1'', ra_active = ''a1'', ra_deadline = 0, ra_pc = RpInit\<rparr>)"
proof -
  have dec: "sample_decode ''a'' = Some (''w1'', 2, ''a1'')" "sample_decode ''b'' = Some (''w1'', 2, ''a1'')"
    by (simp_all add: sample_decode_def)
  define ra where "ra = \<lparr>ra_sessionID = ''t'', ra_target = ''w1'', ra_active = ''a1'', ra_deadline = 0,
    ra_pc = RpStep [Fin 1]\<rparr>"
  obtain s1 co1 where c1: "createSession sample_decode ''t'' ''a'' sample_coordinator = (CoSession 201 s1, co1, Some
       \<lparr>ra_sessionID = ''t'', ra_target = ''w1'', ra_active = ''a1'', ra_deadline = 0, ra_pc = RpInit\<rparr>)"
    by (simp add: createSession_def dec Let_def)
  obtain reply2 co2 ra2 where c2: "createSession sample_decode ''t'' ''b'' co1 = (reply2, co2, ra2)"
    by (cases "createSession sample_decode ''t'' ''b'' co1")
  obtain reply3 co3 where c3: "deleteSession ''t'' co2 = (reply3, co3)"
    by (cases "deleteSession ''t'' co2")
  have "ra_sessionID ra = ''t''" "ra_pc ra = RpStep [Fin 1]"
    by (simp_all add: ra_def)
  from session_collision_and_delete [OF dec c1 c2 c3 this, of tree_conn plain_codec 0]
  obtain s1' s2 where s: "CoSession 201 s1 = CoSession 201 s1'" "getSession ''t'' co1 = CoSession 200 s1'"
    "getSession ''t'' co2 = CoSession 200 s2"
    by (elim conjE exE)
  show ?thesis
    by (rule exI [of _ s1], rule exI [of _ s2], rule exI [of _ co1], rule exI [of _ co2]) (use s c1 c2 in simp)
qed

section \<open>Ramp steps\<close>

lemma Split_snoc: "Split sep (s @ [sep]) = Split sep s @ [[]]"
proof (induction s)
  case (Cons x s)
  then show ?case using Split_nonempty [of sep s] by (cases "Split sep s") simp_all
qed simp

lemma parse_parts_Inr_iff:
  "parse_parts exotic ps = Inr vs \<longleftrightarrow> list_all2 (\<lambda>p v. parse_float exotic (TrimSpace p) = Inr v) ps vs"
proof (induction ps arbitrary: vs)
  case (Cons p ps)
  then show ?case by (cases vs) (auto simp: res_bind_Inr_iff)
qed auto

lemma parse_parts_Inl_iff:
  "parse_parts exotic ps = Inl e \<longleftrightarrow>
    (\<exists>i < length ps. parse_float exotic (TrimSpace (ps ! i)) = Inl e \<and>
      (\<forall>k < i. is_ok (parse_float exotic (TrimSpace (ps ! k)))))"
proof (induction ps)
  case (Cons p ps)
  show ?case
  proof (cases "parse_float exotic (TrimSpace p)")
    case (Inl e')
    then show ?thesis by (auto simp: Ex_less_Suc2 All_less_Suc2)
  next
    case (Inr v)
    then show ?thesis using Cons by (simp add: res_bind_Inl_iff Ex_less_Suc2 All_less_Suc2)
  qed
qed simp

text \<open>
  The ramp steps are read in their order, one number for each comma-separated part, blanks around
  it dropped; the first part that is no number is the error. Unlike in a list of endpoints a part that
  is blank is an error, so a trailing comma is refused.
\<close>

theorem ramp_steps_spec:
  "(parseSteps exotic raw = Inr vs \<longleftrightarrow>
      list_all2 (\<lambda>p v. parse_float exotic (TrimSpace p) = Inr v) (Split (CHR '','') raw) vs) \<and>
   (parseSteps exotic raw = Inl e \<longleftrightarrow>
      (\<exists>i < length (Split (CHR '','') raw). parse_float exotic (TrimSpace (Split (CHR '','') raw ! i)) = Inl e \<and>
        list_all (\<lambda>p. is_ok (parse_float exotic (TrimSpace p))) (take i (Split (CHR '','') raw)))) \<and>
   \<not> is_ok (parseSteps exotic (raw @ '',''))"
proof -
  have blank: "parse_float exotic (TrimSpace []) = Inl ErrSyntax"
    by (simp add: parse_float_def parse_decimal_def sign_split_def TrimSpace_def)
  have last: "last (Split (CHR '','') (raw @ '','')) = []"
    by (simp add: Split_snoc)
  have "\<not> list_all2 (\<lambda>p v. parse_float exotic (TrimSpace p) = Inr v) (Split (CHR '','') (raw @ '','')) ws" for ws
  proof
    assume "list_all2 (\<lambda>p v. parse_float exotic (TrimSpace p) = Inr v) (Split (CHR '','') (raw @ '','')) ws"
    then have "list_all (\<lambda>p. is_ok (parse_float exotic (TrimSpace p))) (Split (CHR '','') (raw @ '',''))"
      by (induction rule: list_all2_induct) simp_all
    then have "is_ok (parse_float exotic (TrimSpace (last (Split (CHR '','') (raw @ '','')))))"
      by (metis Split_nonempty last_in_set list_all_iff)
    then show False by (simp add: last blank)
  qed
  then have "\<not> is_ok (parseSteps exotic (raw @ '',''))"
    by (auto simp: is_ok_def parseSteps_def parse_parts_Inr_iff split: sum.split)
  then show ?thesis
    by (simp add: parseSteps_def parse_parts_Inr_iff parse_parts_Inl_iff list_all_length cong: conj_cong)
qed

end
