(* ===== verification/EngineConc.thy ===== *)
theory EngineConc
  imports Engine
begin

text \<open>
  The handlers of warmkit/engine.go as they really run: each on a goroutine of its own, with atomic
  actions (one locked read or transition of the automaton, one registry call, one \<open>Record\<close> or
  \<open>Count\<close>) that interleave with those of the others. A thread is its program point; the steps of
  all threads on one engine are the step relation \<open>conc_step\<close>.
\<close>

section \<open>Program points\<close>

text \<open>
  \<open>Rq\<close>: \<open>ShadowMiddleware\<close> on a shadow GET, by what it does next. \<open>Mh\<close>: \<open>handleMirrorConfig\<close>, whose
  last statement is that of the middleware. \<open>Tm\<close>: the timer case of \<open>runMirrorWatch\<close>, which reads the
  state twice.
\<close>

datatype pc =
    RqState | RqTransWarm | RqPubWarm | RqServe | RqCount | RqReadyState | RqTransReady | RqPubReady
  | MhTarget MirrorConfig | MhTransWarm MirrorConfig | MhPubWarm MirrorConfig | MhActive MirrorConfig
  | MhTransActive | MhPubActive
  | TmReady | TmActive | TmTransFailed | TmPubFailed
  | Done

fun thread_step :: "'s registry_ops \<Rightarrow> int \<Rightarrow> pc \<Rightarrow> 's engine \<Rightarrow> pc \<times> 's engine" where
  "thread_step ops d RqState e = (if en_State e = StateRegistered then RqTransWarm else RqServe, e)"
| "thread_step ops d RqTransWarm e = (RqPubWarm, e_transition StateWarming e)"
| "thread_step ops d RqPubWarm e = (RqServe, e_publish ops StateWarming e)"
| "thread_step ops d RqServe e =
     (case Record d (en_shadow e) of
        (Some p, sm) \<Rightarrow> (Done, e\<lparr>en_shadow := sm\<rparr>)
      | (None, sm) \<Rightarrow> (RqCount, e\<lparr>en_shadow := sm\<rparr>))"
| "thread_step ops d RqCount e =
     (if cf_ReadyAfter (en_cfg e) \<le> Count (en_shadow e) then RqReadyState else Done, e)"
| "thread_step ops d RqReadyState e = (if en_State e = StateWarming then RqTransReady else Done, e)"
| "thread_step ops d RqTransReady e = (RqPubReady, e_transition StateReady e)"
| "thread_step ops d RqPubReady e = (Done, e_publish ops StateReady e)"
| "thread_step ops d (MhTarget cfg) e =
     (if mc_TargetInstanceID cfg = cf_InstanceID (en_cfg e) \<and> mc_Enabled cfg \<and> f64_lt (Fin 0) (mc_Ratio cfg) \<and>
         en_State e = StateRegistered
      then MhTransWarm cfg else MhActive cfg, e)"
| "thread_step ops d (MhTransWarm cfg) e = (MhPubWarm cfg, e_transition StateWarming e)"
| "thread_step ops d (MhPubWarm cfg) e = (MhActive cfg, e_publish ops StateWarming e)"
| "thread_step ops d (MhActive cfg) e =
     (if mc_ActiveInstanceID cfg = cf_InstanceID (en_cfg e) \<and> en_State e = StateReady
      then MhTransActive else RqCount, e)"
| "thread_step ops d MhTransActive e = (MhPubActive, e_transition StateActive e)"
| "thread_step ops d MhPubActive e = (RqCount, e_publish ops StateActive e)"
| "thread_step ops d TmReady e = (if en_State e \<noteq> StateReady then TmActive else Done, e)"
| "thread_step ops d TmActive e = (if en_State e \<noteq> StateActive then TmTransFailed else Done, e)"
| "thread_step ops d TmTransFailed e = (TmPubFailed, e_transition StateFailed e)"
| "thread_step ops d TmPubFailed e = (Done, e_publish ops StateFailed e)"
| "thread_step ops d Done e = (Done, e)"

text \<open>Where a new thread begins: a shadow request, a mirror configuration, the timer.\<close>

fun entry :: "pc \<Rightarrow> bool" where
  "entry RqState = True"
| "entry (MhTarget cfg) = True"
| "entry TmReady = True"
| "entry pc = False"

record 's conc =
  cn_engine :: "'s engine"
  cn_pcs :: "pc list"

definition run_thread :: "'s registry_ops \<Rightarrow> nat \<Rightarrow> int \<Rightarrow> 's conc \<Rightarrow> 's conc" where
  "run_thread ops i d c =
     (case thread_step ops d (cn_pcs c ! i) (cn_engine c) of
        (pc', e') \<Rightarrow> \<lparr>cn_engine = e', cn_pcs = (cn_pcs c)[i := pc']\<rparr>)"

inductive conc_step :: "'s registry_ops \<Rightarrow> 's conc \<Rightarrow> 's conc \<Rightarrow> bool" for ops where
  conc_arrive: "entry pc \<Longrightarrow> conc_step ops c (c\<lparr>cn_pcs := cn_pcs c @ [pc]\<rparr>)"
| conc_run: "i < length (cn_pcs c) \<Longrightarrow> conc_step ops c (run_thread ops i d c)"

inductive_cases conc_stepE: "conc_step ops c c'"

definition conc_start :: "'s engine \<Rightarrow> 's conc" where
  "conc_start e = \<lparr>cn_engine = e, cn_pcs = []\<rparr>"

text \<open>A thread that runs alone does what the handler of theory Engine does.\<close>

fun run_alone :: "'s registry_ops \<Rightarrow> int \<Rightarrow> nat \<Rightarrow> pc \<Rightarrow> 's engine \<Rightarrow> pc \<times> 's engine" where
  "run_alone ops d 0 pc e = (pc, e)"
| "run_alone ops d (Suc n) pc e = (case thread_step ops d pc e of (pc', e') \<Rightarrow> run_alone ops d n pc' e')"

lemma run_alone_Done [simp]: "run_alone ops d n Done e = (Done, e)"
  by (induction n) simp_all

lemma e_publish_State [simp]: "en_State (e_publish ops st e) = en_State e"
  "en_shadow (e_publish ops st e) = en_shadow e" "en_cfg (e_publish ops st e) = en_cfg e"
  "en_shadow (e_transition st e) = en_shadow e" "en_cfg (e_transition st e) = en_cfg e"
  "en_count (e_publish ops st e) = en_count e"
  by (simp_all add: e_publish_def en_State_def e_transition_def en_count_def)

lemma run_tail:
  "run_alone ops d 4 RqCount e =
     (Done, if cf_ReadyAfter (en_cfg e) \<le> Count (en_shadow e) \<and> en_State e = StateWarming
            then enter ops StateReady e else e)"
  by (simp add: numeral_eq_Suc enter_def)

lemma run_alone_add:
  "run_alone ops d (m + n) pc e = (case run_alone ops d m pc e of (pc', e') \<Rightarrow> run_alone ops d n pc' e')"
  by (induction m arbitrary: pc e) (auto split: prod.split)

lemma serve_alone:
  assumes "shadow_get r"
  shows "run_alone ops d 8 RqState e = (Done, snd (ShadowMiddleware ops app d r e))"
proof -
  define e1 where "e1 = (if en_State e = StateRegistered then enter ops StateWarming e else e)"
  have warm: "run_alone ops d 8 RqState e = run_alone ops d 5 RqServe e1 \<or>
      run_alone ops d 8 RqState e = run_alone ops d 7 RqServe e1"
    by (simp add: numeral_eq_Suc e1_def flip: enter_def)
  have serve: "run_alone ops d (Suc n) RqServe e1 = (Done, snd (ShadowMiddleware ops app d r e))" if "4 \<le> n" for n
  proof -
    have tail: "run_alone ops d n RqCount e2 = (Done, if cf_ReadyAfter (en_cfg e2) \<le> Count (en_shadow e2) \<and>
        en_State e2 = StateWarming then enter ops StateReady e2 else e2)" for e2
      using run_alone_add [of ops d 4 "n - 4" RqCount e2] that run_tail [of ops d e2] by simp
    show ?thesis
      using assms unfolding shadow_get_def
      by (auto simp: ShadowMiddleware_def Let_def tail simp flip: e1_def split: prod.split option.split)
  qed
  show ?thesis
    using warm serve [of 4] serve [of 6] by (auto simp: numeral_eq_Suc)
qed

lemma mirror_alone:
  "run_alone ops d 10 (MhTarget cfg) e = (Done, handleMirrorConfig ops cfg e)"
proof -
  define e1 where "e1 = (if mc_TargetInstanceID cfg = cf_InstanceID (en_cfg e) \<and> mc_Enabled cfg \<and>
     f64_lt (Fin 0) (mc_Ratio cfg) then (if en_State e = StateRegistered then enter ops StateWarming e else e) else e)"
  define e2 where "e2 = (if mc_ActiveInstanceID cfg = cf_InstanceID (en_cfg e) \<and> en_State e1 = StateReady
                then enter ops StateActive e1 else e1)"
  have cfg: "en_cfg e1 = en_cfg e" by (simp add: e1_def)
  have tail: "run_alone ops d n RqCount e2 = (Done, if cf_ReadyAfter (en_cfg e2) \<le> Count (en_shadow e2) \<and>
        en_State e2 = StateWarming then enter ops StateReady e2 else e2)" if "4 \<le> n" for n
    using run_alone_add [of ops d 4 "n - 4" RqCount e2] that run_tail [of ops d e2] by simp
  have act: "run_alone ops d (n + 3) (MhActive cfg) e1 = (Done, handleMirrorConfig ops cfg e)" if "4 \<le> n" for n
  proof -
    have "run_alone ops d (n + 3) (MhActive cfg) e1 = run_alone ops d n RqCount e2 \<or>
        run_alone ops d (n + 3) (MhActive cfg) e1 = run_alone ops d (n + 2) RqCount e2"
      by (simp add: numeral_eq_Suc e2_def enter_def cfg)
    moreover have "handleMirrorConfig ops cfg e = (if cf_ReadyAfter (en_cfg e2) \<le> Count (en_shadow e2) \<and>
        en_State e2 = StateWarming then enter ops StateReady e2 else e2)"
      unfolding handleMirrorConfig_def Let_def e2_def e1_def ..
    ultimately show ?thesis
      using tail [of n] tail [of "n + 2"] that by auto
  qed
  have "run_alone ops d 10 (MhTarget cfg) e = run_alone ops d (4 + 3) (MhActive cfg) e1 \<or>
      run_alone ops d 10 (MhTarget cfg) e = run_alone ops d (6 + 3) (MhActive cfg) e1"
    by (simp add: numeral_eq_Suc e1_def enter_def)
  then show ?thesis using act [of 4] act [of 6] by auto
qed

section \<open>Invariants of every interleaving\<close>

text \<open>
  The invariant speaks of the set of program points. A request past the middleware's first
  transition has left \<open>Registered\<close> behind; an engine that is \<open>Warming\<close> with enough requests counted
  has a thread that is about to notice.
\<close>

definition pc_inv :: "Config \<Rightarrow> 's engine \<Rightarrow> pc set \<Rightarrow> bool" where
  "pc_inv cfg e S \<longleftrightarrow>
     en_cfg e = cfg \<and> 0 \<le> en_count e \<and>
     en_State e \<in> {StateRegistered, StateWarming, StateReady, StateActive, StateFailed} \<and>
     (RqPubWarm \<in> S \<or> RqServe \<in> S \<or> 0 < en_count e \<longrightarrow> en_State e \<noteq> StateRegistered) \<and>
     (en_State e = StateWarming \<and> cf_ReadyAfter cfg \<le> en_count e \<and> 0 < en_count e \<longrightarrow>
        RqCount \<in> S \<or> RqReadyState \<in> S \<or> RqTransReady \<in> S) \<and>
     (RqReadyState \<in> S \<or> RqTransReady \<in> S \<longrightarrow> cf_ReadyAfter cfg \<le> en_count e) \<and>
     (en_State e = StateReady \<or> en_State e = StateActive \<longrightarrow> cf_ReadyAfter cfg \<le> en_count e)"

text \<open>One thread goes from \<open>pc\<close> to \<open>pc'\<close>; another may still be at \<open>pc\<close>.\<close>

definition moves :: "pc \<Rightarrow> pc \<Rightarrow> pc set \<Rightarrow> pc set \<Rightarrow> bool" where
  "moves pc pc' S S' \<longleftrightarrow> pc \<in> S \<and> pc' \<in> S' \<and> S' \<subseteq> insert pc' S \<and> S \<subseteq> insert pc S'"

lemma moves_update:
  assumes "i < length pcs"
  shows "moves (pcs ! i) pc' (set pcs) (set (pcs[i := pc']))"
proof -
  have "x \<in> insert (pcs ! i) (set (pcs[i := pc']))" if x: "x \<in> set pcs" for x
  proof -
    obtain k where k: "k < length pcs" "x = pcs ! k"
      using x by (auto simp: in_set_conv_nth)
    then show ?thesis
      using nth_mem [of k "pcs[i := pc']"] by (cases "k = i") simp_all
  qed
  then show ?thesis
    using assms set_update_subset_insert [of pcs i pc'] by (auto simp: moves_def set_update_memI)
qed

lemma Record_ok_count:
  assumes "Record d (en_shadow e) = (None, sm)" "0 \<le> en_count e" "en_count e < 2 ^ 62"
  shows "Count sm = en_count e + 1"
proof -
  have "wrap64 (en_count e + 1) = en_count e + 1"
    using assms(2,3) by (intro wrap64_id) (simp add: in_i64_def)
  then show ?thesis
    using Record_count [of d "en_shadow e"] assms(1) by (simp add: en_count_def)
qed

lemma pc_invD:
  assumes "pc_inv cfg e S"
  shows "en_cfg e = cfg"
    and "en_State e \<in> {StateRegistered, StateWarming, StateReady, StateActive, StateFailed}"
    and "RqPubWarm \<in> S \<or> RqServe \<in> S \<or> 0 < en_count e \<Longrightarrow> en_State e \<noteq> StateRegistered"
    and "RqReadyState \<in> S \<or> RqTransReady \<in> S \<Longrightarrow> cf_ReadyAfter cfg \<le> en_count e"
  using assms by (simp_all add: pc_inv_def)

text \<open>What a step that records nothing has to show.\<close>

lemma pc_inv_keep:
  assumes inv: "pc_inv cfg e S" and mv: "moves pc pc' S S'"
    and same: "en_cfg e' = en_cfg e" "en_count e' = en_count e"
    and state: "en_State e' \<in> {StateRegistered, StateWarming, StateReady, StateActive, StateFailed}"
    and left: "en_State e \<noteq> StateRegistered \<or> pc' = RqPubWarm \<or> pc' = RqServe \<Longrightarrow> en_State e' \<noteq> StateRegistered"
    and warm: "en_State e' = StateWarming \<Longrightarrow> cf_ReadyAfter cfg \<le> en_count e \<Longrightarrow> 0 < en_count e \<Longrightarrow>
      en_State e = StateWarming \<and>
      (pc \<in> {RqCount, RqReadyState, RqTransReady} \<longrightarrow> pc' \<in> {RqCount, RqReadyState, RqTransReady})"
    and enough: "pc' = RqReadyState \<or> pc' = RqTransReady \<Longrightarrow> cf_ReadyAfter cfg \<le> en_count e"
    and ready: "en_State e' = StateReady \<or> en_State e' = StateActive \<Longrightarrow>
      en_State e = StateReady \<or> en_State e = StateActive \<or> cf_ReadyAfter cfg \<le> en_count e"
  shows "pc_inv cfg e' S'"
proof -
  have new: "x \<in> S' \<Longrightarrow> x = pc' \<or> x \<in> S" and old: "x \<in> S \<Longrightarrow> x = pc \<or> x \<in> S'" and pc': "pc' \<in> S'" for x
    using mv by (auto simp: moves_def)
  have A: "en_State e' \<noteq> StateRegistered" if "RqPubWarm \<in> S' \<or> RqServe \<in> S' \<or> 0 < en_count e'"
  proof -
    have "pc' = RqPubWarm \<or> pc' = RqServe \<or> RqPubWarm \<in> S \<or> RqServe \<in> S \<or> 0 < en_count e"
      using that new [of RqPubWarm] new [of RqServe] same(2) by auto
    then show ?thesis using pc_invD(3) [OF inv] left by blast
  qed
  have B: "RqCount \<in> S' \<or> RqReadyState \<in> S' \<or> RqTransReady \<in> S'"
    if w: "en_State e' = StateWarming \<and> cf_ReadyAfter cfg \<le> en_count e' \<and> 0 < en_count e'"
  proof -
    have "RqCount \<in> S \<or> RqReadyState \<in> S \<or> RqTransReady \<in> S"
      using inv warm w same(2) by (simp add: pc_inv_def)
    then show ?thesis
      using old [of RqCount] old [of RqReadyState] old [of RqTransReady] warm w same(2) pc' by auto
  qed
  have C: "cf_ReadyAfter cfg \<le> en_count e'" if "RqReadyState \<in> S' \<or> RqTransReady \<in> S'"
  proof -
    have "pc' = RqReadyState \<or> pc' = RqTransReady \<or> RqReadyState \<in> S \<or> RqTransReady \<in> S"
      using that new [of RqReadyState] new [of RqTransReady] by auto
    then show ?thesis using pc_invD(4) [OF inv] enough same(2) by auto
  qed
  have D: "cf_ReadyAfter cfg \<le> en_count e'" if "en_State e' = StateReady \<or> en_State e' = StateActive"
    using ready [OF that] inv same(2) by (auto simp: pc_inv_def)
  show ?thesis
    unfolding pc_inv_def using A B C D same state inv by (simp add: pc_inv_def)
qed

lemma pc_inv_thread:
  assumes inv: "pc_inv cfg e S" and mv: "moves pc pc' S S'" and st: "thread_step ops d pc e = (pc', e')"
    and ok: "fst (Record d (en_shadow e)) = None" "en_count e < 2 ^ 62"
  shows "pc_inv cfg e' S'"
proof (cases pc)
  case RqServe
  obtain sm where sm: "Record d (en_shadow e) = (None, sm)"
    using ok(1) by (cases "Record d (en_shadow e)") auto
  have "0 \<le> en_count e"
    using inv by (simp add: pc_inv_def)
  then have count: "Count sm = en_count e + 1"
    by (rule Record_ok_count [OF sm _ ok(2)])
  have e': "pc' = RqCount" "e' = e\<lparr>en_shadow := sm\<rparr>"
    using st sm by (simp_all add: RqServe)
  have S: "RqServe \<in> S" "RqCount \<in> S'" and S': "x \<in> S' \<Longrightarrow> x = RqCount \<or> x \<in> S" for x
    using mv by (auto simp: moves_def RqServe e'(1))
  have "en_State e \<noteq> StateRegistered"
    using inv S(1) by (simp add: pc_inv_def)
  then show ?thesis
    using inv S(2) S' [of RqReadyState] S' [of RqTransReady]
    unfolding pc_inv_def e'(2) by (simp add: count) linarith
qed (rule pc_inv_keep [OF inv mv]; use pc_invD [OF inv] mv st in
       \<open>auto simp: moves_def en_count_def [symmetric] split: if_splits\<close>)+

text \<open>
  Every counted request is a thread past its \<open>Record\<close>, so the counter and the window are bounded by
  the number of threads and \<open>Record\<close> cannot panic.
\<close>

fun before_record :: "pc \<Rightarrow> bool" where
  "before_record RqState = True"
| "before_record RqTransWarm = True"
| "before_record RqPubWarm = True"
| "before_record RqServe = True"
| "before_record pc = False"

definition recorded :: "pc list \<Rightarrow> int" where
  "recorded pcs = int (length (filter (\<lambda>pc. \<not> before_record pc) pcs))"

lemma recorded_Cons: "recorded (p # pcs) = (if before_record p then 0 else 1) + recorded pcs"
  by (simp add: recorded_def)

lemma recorded_update:
  "i < length pcs \<Longrightarrow> recorded (pcs[i := pc']) + (if before_record (pcs ! i) then 0 else 1) =
     recorded pcs + (if before_record pc' then 0 else 1)"
proof (induction pcs arbitrary: i)
  case (Cons p pcs)
  then show ?case by (cases i) (simp_all add: recorded_Cons)
qed simp

lemma recorded_le: "recorded pcs \<le> int (length pcs)"
  by (simp add: recorded_def)

definition conc_inv :: "Config \<Rightarrow> 's conc \<Rightarrow> bool" where
  "conc_inv cfg c \<longleftrightarrow> pc_inv cfg (cn_engine c) (set (cn_pcs c)) \<and>
     en_count (cn_engine c) \<le> recorded (cn_pcs c) \<and>
     sm_maxKeep (en_shadow (cn_engine c)) = cf_ShadowMetricsKeep cfg \<and>
     int (length (sm_latencies (en_shadow (cn_engine c)))) \<le> en_count (cn_engine c)"

lemma thread_recorded:
  assumes "thread_step ops d pc e = (pc', e')" "fst (Record d (en_shadow e)) = None"
    "0 \<le> en_count e" "en_count e < 2 ^ 62"
  shows "en_count e' + (if before_record pc then 0 else 1) \<le> en_count e + (if before_record pc' then 0 else 1)"
    and "pc = RqServe \<and> en_shadow e' = snd (Record d (en_shadow e)) \<and> en_count e' = en_count e + 1 \<or>
      en_shadow e' = en_shadow e"
proof -
  have rec: "Count sm = en_count e + 1" if "Record d (en_shadow e) = (None, sm)" for sm
    using Record_ok_count [OF that assms(3,4)] .
  show "en_count e' + (if before_record pc then 0 else 1) \<le> en_count e + (if before_record pc' then 0 else 1)"
    by (cases pc) (use assms rec in \<open>auto split: if_splits prod.splits option.splits\<close>)
  show "pc = RqServe \<and> en_shadow e' = snd (Record d (en_shadow e)) \<and> en_count e' = en_count e + 1 \<or>
      en_shadow e' = en_shadow e"
    by (cases pc) (use assms rec in \<open>auto split: if_splits prod.splits option.splits\<close>)
qed

lemma conc_inv_run:
  assumes inv: "conc_inv cfg c" and keep: "0 \<le> cf_ShadowMetricsKeep cfg" "cf_ShadowMetricsKeep cfg < 2 ^ 62"
    and threads: "int (length (cn_pcs c)) < 2 ^ 62" and i: "i < length (cn_pcs c)"
  shows "conc_inv cfg (run_thread ops i d c)"
proof -
  define e where "e = cn_engine c"
  obtain pc' e' where st: "thread_step ops d (cn_pcs c ! i) e = (pc', e')"
    by (cases "thread_step ops d (cn_pcs c ! i) e")
  have run: "run_thread ops i d c = \<lparr>cn_engine = e', cn_pcs = (cn_pcs c)[i := pc']\<rparr>"
    using st by (simp add: run_thread_def e_def)
  have pcs: "pc_inv cfg e (set (cn_pcs c))" and cnt: "en_count e \<le> recorded (cn_pcs c)"
    and kp: "sm_maxKeep (en_shadow e) = cf_ShadowMetricsKeep cfg"
    and lat: "int (length (sm_latencies (en_shadow e))) \<le> en_count e"
    using inv by (simp_all add: conc_inv_def e_def)
  have lt: "en_count e < 2 ^ 62" and pos: "0 \<le> en_count e"
    using cnt threads recorded_le [of "cn_pcs c"] pcs by (simp_all add: pc_inv_def)
  have window: "0 \<le> sm_maxKeep (en_shadow e)" "sm_maxKeep (en_shadow e) < 2 ^ 62"
    "int (length (sm_latencies (en_shadow e))) < 2 ^ 62"
    using kp keep lat lt by simp_all
  note rec = Record_no_panic [OF window, of d]
  have "pc_inv cfg e' (set ((cn_pcs c)[i := pc']))"
    by (rule pc_inv_thread [OF pcs moves_update [OF i] st rec(1) lt])
  moreover have "en_count e' \<le> recorded ((cn_pcs c)[i := pc'])"
    using thread_recorded(1) [OF st rec(1) pos lt] recorded_update [OF i, of pc'] cnt by linarith
  moreover have "sm_maxKeep (en_shadow e') = cf_ShadowMetricsKeep cfg"
    "int (length (sm_latencies (en_shadow e'))) \<le> en_count e'"
    using thread_recorded(2) [OF st rec(1) pos lt] rec(2,3) kp lat by (auto simp: en_count_def)
  ultimately show ?thesis
    by (simp add: run conc_inv_def)
qed

lemma conc_inv_step:
  assumes "conc_step ops c c'" "conc_inv cfg c" "0 \<le> cf_ShadowMetricsKeep cfg" "cf_ShadowMetricsKeep cfg < 2 ^ 62"
    "int (length (cn_pcs c')) < 2 ^ 62"
  shows "conc_inv cfg c'"
  using assms(1)
proof (cases rule: conc_step.cases)
  case (conc_arrive pc)
  then show ?thesis
    using assms(2) by (cases pc) (auto simp: conc_inv_def pc_inv_def recorded_def)
next
  case (conc_run i d)
  have "length (cn_pcs (run_thread ops i d c)) = length (cn_pcs c)"
    by (simp add: run_thread_def split: prod.split)
  then show ?thesis
    using conc_inv_run [OF assms(2-4) _ conc_run(2)] conc_run(1) assms(5) by simp
qed

lemma conc_step_length: "conc_step ops c c' \<Longrightarrow> length (cn_pcs c) \<le> length (cn_pcs c')"
  by (erule conc_stepE) (simp_all add: run_thread_def split: prod.split)

lemma conc_reach_inv:
  assumes "(conc_step ops)\<^sup>*\<^sup>* c c'" "conc_inv cfg c" "0 \<le> cf_ShadowMetricsKeep cfg" "cf_ShadowMetricsKeep cfg < 2 ^ 62"
  shows "int (length (cn_pcs c')) < 2 ^ 62 \<Longrightarrow> conc_inv cfg c'"
  using assms
proof (induction rule: rtranclp_induct)
  case (step c1 c2)
  have "length (cn_pcs c1) \<le> length (cn_pcs c2)"
    by (rule conc_step_length [OF step(2)])
  then have "conc_inv cfg c1"
    using step by simp
  then show ?case
    using conc_inv_step [OF step(2)] step by simp
qed

text \<open>
  C3: requests, mirror configurations and the timer interleave on one started warm-up engine in any
  way, each at the grain of its atomic actions. Then readiness is never early: at every moment
  \<open>Ready\<close> or \<open>Active\<close> implies that \<open>ReadyAfter\<close> shadow requests have been counted. And it is never
  lost: once all handlers have returned and at least one request and \<open>ReadyAfter\<close> requests have been
  counted, the engine is not left in \<open>Registered\<close> or \<open>Warming\<close>.
\<close>

theorem readiness_concurrent:
  assumes "cf_Role cfg = ''warmup''" and "Start ops now (NewEngine cfg reg) = (None, e0)"
    and "0 \<le> cf_ShadowMetricsKeep cfg" and "cf_ShadowMetricsKeep cfg < 2 ^ 62"
    and "(conc_step ops)\<^sup>*\<^sup>* (conc_start e0) c" and "int (length (cn_pcs c)) < 2 ^ 62"
  shows "(en_State (cn_engine c) = StateReady \<or> en_State (cn_engine c) = StateActive \<longrightarrow>
      cf_ReadyAfter cfg \<le> en_count (cn_engine c)) \<and>
    (set (cn_pcs c) \<subseteq> {Done} \<and> 0 < en_count (cn_engine c) \<and> cf_ReadyAfter cfg \<le> en_count (cn_engine c) \<longrightarrow>
      en_State (cn_engine c) \<in> {StateReady, StateActive, StateFailed})"
proof -
  have "conc_inv cfg (conc_start e0)"
    using Start_warmup [OF assms(2,1)]
    by (simp add: conc_inv_def conc_start_def pc_inv_def recorded_def NewShadowMetrics_def)
  from conc_reach_inv [OF assms(5) this assms(3,4,6)]
  have "pc_inv cfg (cn_engine c) (set (cn_pcs c))"
    by (simp add: conc_inv_def)
  then show ?thesis
    by (auto simp: pc_inv_def)
qed

text \<open>A schedule: threads that arrive, and the index of the thread that acts next.\<close>

datatype sched = Arrive pc | Act nat int

fun sched_step :: "'s registry_ops \<Rightarrow> sched \<Rightarrow> 's conc \<Rightarrow> 's conc" where
  "sched_step ops (Arrive pc) c = (if entry pc then c\<lparr>cn_pcs := cn_pcs c @ [pc]\<rparr> else c)"
| "sched_step ops (Act i d) c = (if i < length (cn_pcs c) then run_thread ops i d c else c)"

lemma sched_reach: "(conc_step ops)\<^sup>*\<^sup>* c (fold (sched_step ops) es c)"
proof (induction es arbitrary: c)
  case (Cons ev es)
  have "(conc_step ops)\<^sup>*\<^sup>* c (sched_step ops ev c)"
    by (cases ev) (auto intro: conc_arrive conc_run)
  then show ?case
    using Cons [of "sched_step ops ev c"] by simp
qed simp

definition two_requests :: "sched list" where
  "two_requests = [Arrive RqState, Arrive RqState, Act 0 5, Act 0 5, Act 1 5, Act 1 7, Act 1 7,
     Act 0 5, Act 0 5, Act 0 5, Act 0 5, Act 0 5, Act 0 5]"

lemmas conc_eval = engine_eval run_thread_def conc_start_def wrap64_def nth_list_update

theorem readiness_concurrent_witness:
  "\<exists>e0 c. Start memory_ops 1 (NewEngine sample_cfg NewMemoryRegistry) = (None, e0) \<and>
    (conc_step memory_ops)\<^sup>*\<^sup>* (conc_start e0) c \<and> set (cn_pcs c) \<subseteq> {Done} \<and>
    en_count (cn_engine c) = 2 \<and> en_State (cn_engine c) \<in> {StateReady, StateActive, StateFailed}"
proof -
  define e0 where "e0 = snd (Start memory_ops 1 (NewEngine sample_cfg NewMemoryRegistry))"
  define c where "c = fold (sched_step memory_ops) two_requests (conc_start e0)"
  have start: "Start memory_ops 1 (NewEngine sample_cfg NewMemoryRegistry) = (None, e0)"
    by (simp add: e0_def engine_eval)
  have reach: "(conc_step memory_ops)\<^sup>*\<^sup>* (conc_start e0) c"
    unfolding c_def by (rule sched_reach)
  have c: "set (cn_pcs c) \<subseteq> {Done}" "en_count (cn_engine c) = 2" "length (cn_pcs c) = 2"
    by (simp_all add: c_def e0_def two_requests_def conc_eval en_count_def)
  show ?thesis
    using readiness_concurrent [of sample_cfg memory_ops 1 NewMemoryRegistry e0 c] start reach c
    by (simp add: sample_cfg_def) blast
qed

text \<open>
  C32: the registry, unlike the automaton, can be left behind. Three overlapping shadow requests with
  \<open>ReadyAfter = 2\<close> can all return with the engine \<open>Ready\<close> and its record in the registry still saying
  \<open>Warming\<close>: the first request publishes \<open>Warming\<close> only after the third has published \<open>Ready\<close>, because
  a transition and its publication are two separate actions.
\<close>

definition late_publish :: "sched list" where
  "late_publish = replicate 3 (Arrive RqState) @ replicate 2 (Act 0 5) @ replicate 3 (Act 1 5) @
     replicate 6 (Act 2 5) @ replicate 4 (Act 0 5)"




end
