(* ===== verification/System.thy ===== *)
theory System
  imports Mirroring Sessions EngineConc
begin

text \<open>
  Properties that span the services: the coordinator, the proxy and the instances act on one store.
\<close>

section \<open>Readiness as the coordinator sees it\<close>

lemma instanceReady_look:
  assumes "zk_reliable c view alive" and "zk_live view alive (co_zk co)" and "part_ok (co_service co)" and "part_ok iid"
  shows "instanceReady c j iid co =
    (case zk_look view j (co_zk co) (co_service co) iid of
       None \<Rightarrow> False | Some rec \<Rightarrow> ir_State rec = StateReady \<or> ir_State rec = StateActive)"
proof -
  have "alive (co_zk co)" using assms(2) by (simp add: zk_live_def)
  from zk_reliableD(2) [OF assms(1) this parts_ok_instance [OF assms(3,4)]] show ?thesis
    by (simp add: instanceReady_def instance_path_of zk_look_def split: option.split)
qed

text \<open>
  C5: with a store that answers, the coordinator's readiness check of a warm-up instance and the
  instance's own readiness probe agree after every history of the instance's handlers, each run to its
  end: the ramp ends its hold exactly when the probe answers 200.
\<close>

theorem coordinator_sees_readiness:
  fixes app :: "http_request \<Rightarrow> http_response"
  assumes "zk_reliable c view alive" and "codec_ok j" and "zk_live view alive z"
    and "part_ok (cf_ServiceName cfg)" and "part_ok (cf_InstanceID cfg)" and "cf_Role cfg = ''warmup''"
    and "ascii (cf_ListenAddr cfg)" and "in_i64 now" and "co_service co = cf_ServiceName cfg"
    and "Start (zk_ops c j) now (NewEngine cfg z) = (err, e0)" and "e = fold (engine_step (zk_ops c j) app) es e0"
  shows "err = None \<and>
    instanceReady c j (cf_InstanceID cfg) (co\<lparr>co_zk := en_reg e\<rparr>) = (rs_Status (ReadinessHandler e) = 200)"
proof -
  note contract = zk_registry_contract [OF assms(1,2)]
  let ?rec = "\<lparr>ir_Addr = cf_ListenAddr cfg, ir_State = StateRegistered, ir_Role = ''warmup'', ir_StartedAt = now\<rparr>"
  have "plain_inst ?rec"
    using assms(7,8) by (simp add: wf_simps)
  then obtain e0' where e0: "Start (zk_ops c j) now (NewEngine cfg z) = (None, e0')" "en_cfg e0' = cfg"
      "en_synced (zk_look view j) (zk_live view alive) plain_inst ?rec e0'"
    using registry_contract.synced_start [OF contract assms(3-6) _ refl] by blast
  then have "e0' = e0" "err = None" using assms(10) by simp_all
  then have "en_synced (zk_look view j) (zk_live view alive) plain_inst ?rec e" "en_cfg e = cfg"
    using registry_contract.synced_run [OF contract e0(3)] e0(2) assms(4,5,11) by simp_all
  then have "zk_live view alive (en_reg e)"
    "zk_look view j (en_reg e) (cf_ServiceName cfg) (cf_InstanceID cfg) = Some (?rec\<lparr>ir_State := en_State e\<rparr>)"
    by (simp_all add: en_synced_def)
  then show ?thesis
    using instanceReady_look [OF assms(1), of "co\<lparr>co_zk := en_reg e\<rparr>" "cf_InstanceID cfg" j] assms(4,5,9) \<open>err = None\<close>
    by (simp add: ReadinessHandler_def Let_def)
qed

theorem coordinator_sees_readiness_witness:
  "instanceReady tree_conn plain_codec ''i1'' (sample_coordinator\<lparr>co_zk :=
     en_reg (fold (engine_step (zk_ops tree_conn plain_codec) sample_app)
       [EvRequest shadow_request 7, EvRequest shadow_request 8]
       (snd (Start (zk_ops tree_conn plain_codec) 1 (NewEngine sample_cfg Map.empty))))\<rparr>) =
   (rs_Status (ReadinessHandler (fold (engine_step (zk_ops tree_conn plain_codec) sample_app)
       [EvRequest shadow_request 7, EvRequest shadow_request 8]
       (snd (Start (zk_ops tree_conn plain_codec) 1 (NewEngine sample_cfg Map.empty))))) = 200)"
proof -
  have p: "part_ok (cf_ServiceName sample_cfg)" "part_ok (cf_InstanceID sample_cfg)"
    "cf_Role sample_cfg = ''warmup''" "ascii (cf_ListenAddr sample_cfg)" "in_i64 1"
    "co_service sample_coordinator = cf_ServiceName sample_cfg"
    by (simp_all add: sample_cfg_def wf_simps sample_coordinator_def)
  obtain err e0 where s: "Start (zk_ops tree_conn plain_codec) 1 (NewEngine sample_cfg Map.empty) = (err, e0)"
    by (cases "Start (zk_ops tree_conn plain_codec) 1 (NewEngine sample_cfg Map.empty)")
  have "cf_InstanceID sample_cfg = ''i1''" by (simp add: sample_cfg_def)
  then show ?thesis
    using coordinator_sees_readiness [OF tree_reliable plain_codec_ok tree_empty_live p s refl,
      of sample_app "[EvRequest shadow_request 7, EvRequest shadow_request 8]", THEN conjunct2]
    by (simp only: s snd_conv)
qed

section \<open>Completion as the clients see it\<close>

text \<open>
  C6: once the proxy has read the configuration that a completion wrote, every client request goes to
  the promoted instance and none is mirrored, whatever the draws.
\<close>

theorem completion_switches_traffic:
  assumes "zk_reliable c view alive" and "codec_ok j" and "zk_live view alive (co_zk co)"
    and "part_ok (co_service co)" and "in_i64 (now div 1000000)" and "co_wf co"
    and "co_sessions co sid = Some p" and "ss_Status (co_heap co ! p) \<noteq> ''completed''"
    and "ascii sid" and "ascii (ss_TargetInstanceID (co_heap co ! p))"
    and "px_service px = co_service co" and "px_inst px (ss_TargetInstanceID (co_heap co ! p)) = Some addr"
    and "addr \<noteq> []" and "addr_ok ul addr" and "forward addr r = Some resp"
  shows "ServeHTTP forward ul u r (refresh_cfg c j (co_zk (snd (completeSession c j now sid co))) px) =
    (PxForwarded addr resp, None)"
proof -
  have p: "p < length (co_heap co)"
    using assms(6,7) by (simp add: co_wf_def)
  obtain co1 where co1: "completeSession c j now sid co = (CoSession 200 (completed (co_heap co ! p)), co1)"
    "ReadMirrorConfig c j (co_service co) (co_zk co1) =
      ((complete_cfg sid (ss_TargetInstanceID (co_heap co ! p)))\<lparr>mc_UpdatedAtUnixMilli := now div 1000000\<rparr>, None)"
    by (rule complete_written [OF assms(1-5,7) p assms(8-10)])
  then have "refresh_cfg c j (co_zk (snd (completeSession c j now sid co))) px = px\<lparr>px_cfg :=
      (complete_cfg sid (ss_TargetInstanceID (co_heap co ! p)))\<lparr>mc_UpdatedAtUnixMilli := now div 1000000\<rparr>\<rparr>"
    using assms(11) by (simp add: refresh_cfg_def)
  then show ?thesis
    using assms(12-15) by (simp add: ServeHTTP_def complete_cfg_def mirrors_def Let_def)
qed

theorem completion_switches_traffic_witness:
  "ServeHTTP (\<lambda>a r. Some (sample_app r)) sample_url (Fin 0) shadow_request
     (refresh_cfg tree_conn plain_codec (co_zk (snd (completeSession tree_conn plain_codec 0 ''t'' one_session)))
       \<lparr>px_service = ''svc'', px_cfg = empty_mirror, px_inst = [''w1'' \<mapsto> ''h:1'']\<rparr>) =
   (PxForwarded ''h:1'' (sample_app shadow_request), None)"
proof -
  have "zk_live (\<lambda>z. z) (\<lambda>_. True) (co_zk one_session)" "part_ok (co_service one_session)"
    "ascii (ss_TargetInstanceID (co_heap one_session ! 0))" "in_i64 (0 div 1000000)"
    by (simp_all add: one_session_facts tree_empty_live in_i64_def)
  note l = this
  show ?thesis
    by (rule completion_switches_traffic [OF tree_reliable plain_codec_ok l(1,2,4) one_session_facts(5,1,6,9) l(3)])
      (simp_all add: one_session_facts addr_ok_def sample_addrs)
qed

end
