(* ===== verification/WarmUp.thy ===== *)
theory WarmUp
  imports System
begin

text \<open>
  A whole dynamic warm-up: an active instance and an instance that warms up, the coordinator's session
  and its ramp, the proxy and its clients, and the completion, all on one store. The services hold a
  session each; here their state is one value, which the documented behaviour of the store allows as
  long as no session is closed.
\<close>

section \<open>What the services leave of the store\<close>

lemma refresh_look:
  assumes "zk_reliable c view alive" and "zk_live view alive z" and "part_ok svc" and "part_ok iid"
  shows "refresh_one j iid (zk_get c ((''/services/'' @ svc @ ''/instances/'') @ iid) z) m =
    (case zk_look view j z svc iid of None \<Rightarrow> m | Some rec \<Rightarrow> m(iid \<mapsto> ir_Addr rec))"
proof -
  have "(''/services/'' @ svc @ ''/instances/'') @ iid = path_of [''services'', svc, ''instances'', iid]"
    by (simp add: path_of_def)
  moreover have "alive z"
    using assms(2) by (simp add: zk_live_def)
  ultimately show ?thesis
    using zk_reliableD(2) [OF assms(1) _ parts_ok_instance [OF assms(3,4)]]
    by (simp add: refresh_one_def zk_look_def split: option.split)
qed

lemma refresh_loop_look:
  assumes "zk_reliable c view alive" and "zk_live view alive z" and "part_ok svc"
  shows "list_all part_ok ids \<Longrightarrow>
    refresh_loop c j (''/services/'' @ svc @ ''/instances/'') m ids (replicate (length ids) z) iid =
      (case zk_look view j z svc iid of
         Some rec \<Rightarrow> if iid \<in> set ids then Some (ir_Addr rec) else m iid
       | None \<Rightarrow> m iid)"
proof (induction ids arbitrary: m)
  case (Cons i ids)
  have "refresh_one j i (zk_get c ((''/services/'' @ svc @ ''/instances/'') @ i) z) m =
      (case zk_look view j z svc i of None \<Rightarrow> m | Some rec \<Rightarrow> m(i \<mapsto> ir_Addr rec))"
    by (rule refresh_look [OF assms]) (use Cons.prems in simp)
  then show ?case
    using Cons by (auto split: option.split)
qed (simp split: option.split)

lemma progress_reg [simp]: "progress_inv cfg k (e\<lparr>en_reg := z\<rparr>) = progress_inv cfg k e"
  by (simp add: progress_inv_def en_count_def en_State_def)

text \<open>Both instances have come up: the store has their records and the warm-up engine is in step with its own.\<close>

lemma instances_up:
  assumes rel: "zk_reliable c view alive" "codec_ok j" and live: "zk_live view alive z"
    and names: "part_ok (cf_ServiceName cfg)" "part_ok (cf_InstanceID cfg)" "part_ok aid" "aid \<noteq> cf_InstanceID cfg"
    and plain: "cf_Role cfg = ''warmup''" "ascii (cf_ListenAddr cfg)" "ascii aaddr" "in_i64 t0"
  obtains z0 e0 where "RegisterActive c j t0 (cf_ServiceName cfg) aid aaddr z = (None, z0)"
    "Start (zk_ops c j) t0 (NewEngine cfg z0) = (None, e0)" "en_cfg e0 = cfg"
    "en_synced (zk_look view j) (zk_live view alive) plain_inst
      \<lparr>ir_Addr = cf_ListenAddr cfg, ir_State = StateRegistered, ir_Role = ''warmup'', ir_StartedAt = t0\<rparr> e0"
    "zk_look view j (en_reg e0) (cf_ServiceName cfg) aid =
      Some \<lparr>ir_Addr = aaddr, ir_State = StateActive, ir_Role = ''active'', ir_StartedAt = t0\<rparr>"
proof -
  note contract = zk_registry_contract [OF rel]
  let ?arec = "\<lparr>ir_Addr = aaddr, ir_State = StateActive, ir_Role = ''active'', ir_StartedAt = t0\<rparr>"
  let ?wrec = "\<lparr>ir_Addr = cf_ListenAddr cfg, ir_State = StateRegistered, ir_Role = ''warmup'', ir_StartedAt = t0\<rparr>"
  have recs: "plain_inst ?arec" "plain_inst ?wrec"
    using plain by (simp_all add: wf_simps)
  from zk_register_ok [OF rel live names(1,3) recs(1)] obtain z0 where
    z0: "zk_RegisterInstance c j (cf_ServiceName cfg) aid ?arec z = (None, z0)" "zk_live view alive z0"
      "zk_look view j z0 (cf_ServiceName cfg) aid = Some ?arec" by blast
  have start: "RegisterActive c j t0 (cf_ServiceName cfg) aid aaddr z = (None, z0)"
    using z0(1) by (simp add: RegisterActive_def)
  obtain e0 where e0: "Start (zk_ops c j) t0 (NewEngine cfg z0) = (None, e0)" "en_cfg e0 = cfg"
      "en_synced (zk_look view j) (zk_live view alive) plain_inst ?wrec e0"
    using registry_contract.synced_start [OF contract z0(2) names(1,2) plain(1) recs(2) refl] by blast
  have "zk_look view j (en_reg e0) (cf_ServiceName cfg) aid = Some ?arec"
    using registry_contract.start_others [OF contract z0(2) names(1,2) plain(1) recs(2) names(1,3)] names(4) e0(1) z0(3)
    by simp
  then show thesis
    using that start e0 by blast
qed

lemma ramp_times:
  assumes "\<And>i. delay i \<le> d" "0 \<le> t1" "t1 + int n * (int d + co_interval co) < 2 ^ 63" "0 < co_interval co" "i < n"
  shows "in_i64 (fst (ramp_run c j env delay i (t1, ra, co)) div 1000000)"
proof -
  let ?t = "fst (ramp_run c j env delay i (t1, ra, co))"
  have t: "t1 \<le> ?t" "?t \<le> t1 + int i * (int d + co_interval co)"
    using ramp_time_bound [of delay d co t1 c j env i ra] assms(1,4) by simp_all
  have "int i * (int d + co_interval co) \<le> int n * (int d + co_interval co)"
    using assms(4,5) by (intro mult_right_mono) simp_all
  then have "0 \<le> ?t" "?t < 2 ^ 63"
    using t assms(2,3) by linarith+
  then have "0 \<le> ?t div 1000000" "?t div 1000000 \<le> ?t"
    using zdiv_mono2 [of ?t 1 1000000] by (simp_all add: pos_imp_zdiv_nonneg_iff)
  then show ?thesis using \<open>?t < 2 ^ 63\<close> by (simp add: in_i64_def)
qed

text \<open>
  A session whose ramp has run to its end with no other client of the store: the store says to mirror
  everything, the instances' records are as they were, and the session waits to be completed.
\<close>

lemma ramp_leaves:
  assumes rel: "zk_reliable c view alive" "codec_ok j" and live: "zk_live view alive (co_zk co)"
    and svc: "part_ok (co_service co)" and names: "ascii stamp" "ascii wid" "ascii aid"
    and new: "createSession dec stamp body co = (reply, co1, Some ra)" "dec body = Some (wid, k, aid)"
    and bound: "0 < co_interval co" "ramp_bound co \<le> n"
    and times: "\<And>i. delay i \<le> d" "0 \<le> t1" "t1 + int n * (int d + co_interval co) < 2 ^ 63"
  obtains t2 ra2 co2 t p where "ramp_run c j (\<lambda>i z. z) delay n (t1, ra, co1) = (t2, ra2, co2)"
    "zk_live view alive (co_zk co2)" "zk_look view j (co_zk co2) = zk_look view j (co_zk co)" "co_service co2 = co_service co"
    "ReadMirrorConfig c j (co_service co) (co_zk co2) = (\<lparr>mc_Enabled = True, mc_Ratio = Fin 1, mc_TargetInstanceID = wid,
       mc_ActiveInstanceID = aid, mc_SessionID = stamp, mc_UpdatedAtUnixMilli = t\<rparr>, None)"
    "co_sessions co2 stamp = Some p" "p < length (co_heap co2)" "ss_Status (co_heap co2 ! p) \<noteq> ''completed''"
    "ss_TargetInstanceID (co_heap co2 ! p) = wid"
proof -
  define s where "s = \<lparr>ss_ID = stamp, ss_TargetInstanceID = wid, ss_ActiveInstanceID = aid, ss_ReadyAfter = k,
      ss_Status = ''running''\<rparr>"
  have co1: "co1 = co\<lparr>co_heap := co_heap co @ [s], co_sessions := (co_sessions co)(stamp \<mapsto> length (co_heap co))\<rparr>"
    and ra: "ra = \<lparr>ra_sessionID = stamp, ra_target = wid, ra_active = aid, ra_deadline = 0, ra_pc = RpInit\<rparr>"
    using new by (auto simp: createSession_def s_def Let_def)
  obtain t2 ra2 co2 where run: "ramp_run c j (\<lambda>i z. z) delay n (t1, ra, co1) = (t2, ra2, co2)"
    by (cases "ramp_run c j (\<lambda>i z. z) delay n (t1, ra, co1)")
  have "0 < co_interval co1" "rm (t1, ra, co1) \<le> n"
    using bound by (simp_all add: co1 ra rm_def ramp_bound_def)
  from ramp_run_done [OF this, of c j "\<lambda>i z. z" delay] have fin: "ra_pc ra2 = RpDone"
    by (simp add: run)
  have st: "co_service co2 = co_service co" "ramp_cfg ra2 = ramp_cfg ra" "ra_sessionID ra2 = stamp"
    using ramp_run_static [of c j "\<lambda>i z. z" delay n t1 ra co1] ramp_cfg_static [of ra2 ra]
    unfolding run Let_def by (simp_all add: co1 ra)
  have "ramp_mirror c j view alive (t2, ra2, co2)"
    unfolding run [symmetric] using svc names live ramp_times [of delay d t1 n co1 _ c j "\<lambda>i z. z" ra] times bound(1)
    by (intro ramp_mirror_run [OF rel]) (simp_all add: ramp_mirror_def ramp_over_def co1 ra)
  then obtain t where t: "zk_live view alive (co_zk co2)" "ReadMirrorConfig c j (co_service co) (co_zk co2) =
      ((ramp_cfg ra f64_one)\<lparr>mc_UpdatedAtUnixMilli := t\<rparr>, None)"
    using fin st by (auto simp: ramp_mirror_def ramp_over_def)
  have same: "co_zk co1 = co_zk co" "co_service co1 = co_service co"
    by (simp_all add: co1)
  have "zk_live view alive (co_zk co2) \<and> zk_look view j (co_zk co2) = zk_look view j (co_zk co)"
    using ramp_store_run [where P = "\<lambda>z. zk_live view alive z \<and> zk_look view j z = zk_look view j (co_zk co)"
        and co = co1 and c = c and j = j and delay = delay and n = n and now = t1 and ra = ra] co_write_live [OF rel(1)] svc live
    by (simp add: run same)
  moreover have "ramp_heap (co_heap co1) (length (co_heap co)) (t2, ra2, co2)"
    unfolding run [symmetric] by (intro ramp_heap_run) (simp add: ramp_heap_def co1 ra)
  then have "co_sessions co2 stamp = Some (length (co_heap co))" "length (co_heap co) < length (co_heap co2)"
    "co_heap co2 ! length (co_heap co) = s\<lparr>ss_Status := ''holding''\<rparr>"
    using fin st(3) by (simp_all add: ramp_heap_def co1)
  moreover have "ramp_cfg ra f64_one = \<lparr>mc_Enabled = True, mc_Ratio = Fin 1, mc_TargetInstanceID = wid,
      mc_ActiveInstanceID = aid, mc_SessionID = stamp, mc_UpdatedAtUnixMilli = 0\<rparr>"
    by (simp add: ramp_cfg_def ra f64_one_def)
  ultimately show thesis
    using that [OF run] t st(1) by (simp add: s_def)
qed

text \<open>The proxy after it has read the configuration and the instances\<close>

lemma proxy_reads:
  assumes rel: "zk_reliable c view alive" and live: "zk_live view alive z" and svc: "part_ok (px_service px)"
    and ids: "list_all part_ok ids" "iid \<in> set ids" "zk_look view j z (px_service px) iid = Some rec"
    and read: "ReadMirrorConfig c j (px_service px) z = (m, None)"
  defines "px1 \<equiv> refreshInstances c j ids (replicate (length ids) z) (refresh_cfg c j z px)"
  shows "px_service px1 = px_service px" and "px_cfg px1 = m" and "px_inst px1 iid = Some (ir_Addr rec)"
  using refresh_loop_look [OF rel live svc ids(1), of j Map.empty iid] ids(2,3) read
  by (simp_all add: px1_def refreshInstances_def refresh_cfg_def)

text \<open>The engine after the mirrored traffic, when the configuration's writes have gone to its store\<close>

lemma warmed_engine:
  fixes ul :: url_lib and latency :: "http_request \<Rightarrow> int" and app :: "http_request \<Rightarrow> http_response"
  assumes rel: "zk_reliable c view alive" "codec_ok j"
    and names: "part_ok (cf_ServiceName cfg)" "part_ok (cf_InstanceID cfg)"
    and e0: "en_synced (zk_look view j) (zk_live view alive) plain_inst rec e0" "en_cfg e0 = cfg" "progress_inv cfg 0 e0"
    and z: "zk_live view alive z" "zk_look view j z = zk_look view j (en_reg e0)"
    and px: "full_mirror px" "\<And>a r. forward a r \<noteq> None" "\<forall>(u, r) \<in> set urs. \<exists>k < 2 ^ 53. u = draw k"
    and keep: "0 \<le> cf_ShadowMetricsKeep cfg" "cf_ShadowMetricsKeep cfg < 2 ^ 62"
    and gets: "n = length (filter is_get urs)" "0 < n" "cf_ReadyAfter cfg \<le> int n" "int n < 2 ^ 62"
    and co: "co_service co = cf_ServiceName cfg"
  defines "e1 \<equiv> fold (engine_step (zk_ops c j) app)
    (map (\<lambda>m. EvRequest m (latency m)) (mirror_traffic forward ul px urs)) (e0\<lparr>en_reg := z\<rparr>)"
  shows "rs_Status (ReadinessHandler e1) = 200" and "instanceReady c j (cf_InstanceID cfg) (co\<lparr>co_zk := en_reg e1\<rparr>)"
    and "zk_live view alive (en_reg e1)"
proof -
  let ?synced = "en_synced (zk_look view j) (zk_live view alive) plain_inst rec"
  have st: "en_State (e0\<lparr>en_reg := z\<rparr>) = en_State e0"
    by (simp add: en_State_def)
  have start: "?synced (e0\<lparr>en_reg := z\<rparr>)"
    using e0(1) z unfolding en_synced_def st by simp
  have sync: "?synced e1" "en_cfg e1 = cfg"
    using registry_contract.synced_run [OF zk_registry_contract [OF rel] start] names e0(2) by (simp_all add: e1_def)
  have "progress_inv cfg n e1"
    unfolding e1_def by (rule mirrored_progress [OF px _ keep gets(1,4)]) (simp add: e0(3))
  then have ready: "en_State e1 = StateReady"
    using gets by (simp add: progress_inv_def progress_state_def)
  then show "rs_Status (ReadinessHandler e1) = 200"
    by (simp add: ReadinessHandler_def)
  show "instanceReady c j (cf_InstanceID cfg) (co\<lparr>co_zk := en_reg e1\<rparr>)" "zk_live view alive (en_reg e1)"
    using instanceReady_look [OF rel(1), of "co\<lparr>co_zk := en_reg e1\<rparr>" "cf_InstanceID cfg" j] sync ready names co
    by (simp_all add: en_synced_def)
qed

section \<open>The whole warm-up\<close>

text \<open>
  What a warm-up is made of: the configuration of the instance to warm, the active instance, the
  session's stamp and the body that creates it, the children of the instance directory as the proxy
  lists them, and the times at which the parts start.
\<close>

record plan =
  pl_cfg :: Config
  pl_active :: string
  pl_activeAddr :: string
  pl_stamp :: string
  pl_body :: string
  pl_children :: "string list"
  pl_start :: int
  pl_ramp :: int
  pl_complete :: int

definition plan_ok :: "plan \<Rightarrow> bool" where
  "plan_ok pl \<longleftrightarrow> (let cfg = pl_cfg pl; wid = cf_InstanceID cfg; aid = pl_active pl in
     part_ok (cf_ServiceName cfg) \<and> list_all part_ok (pl_children pl) \<and> wid \<in> set (pl_children pl) \<and>
     aid \<in> set (pl_children pl) \<and> aid \<noteq> wid \<and> ascii wid \<and> ascii aid \<and> ascii (pl_stamp pl) \<and>
     cf_Role cfg = ''warmup'' \<and> 0 \<le> cf_ShadowMetricsKeep cfg \<and> cf_ShadowMetricsKeep cfg < 2 ^ 62 \<and>
     cf_ListenAddr cfg \<noteq> [] \<and> plain_addr (cf_ListenAddr cfg) \<and> ascii (cf_ListenAddr cfg) \<and>
     pl_activeAddr pl \<noteq> [] \<and> plain_addr (pl_activeAddr pl) \<and> ascii (pl_activeAddr pl) \<and>
     in_i64 (pl_start pl) \<and> 0 \<le> pl_ramp pl \<and> in_i64 (pl_complete pl div 1000000))"

text \<open>
  The first half: both instances start, a session is created and its ramp runs for \<open>n\<close> actions, and the
  proxy reads the configuration and the instances.
\<close>

type_synonym 'z warming = "'z engine \<times> 'z coordinator \<times> proxyRouter"

definition bring_up :: "('z, 'b) zk_conn \<Rightarrow> 'b codec \<Rightarrow> (string \<Rightarrow> (string \<times> int \<times> string) option) \<Rightarrow> (nat \<Rightarrow> nat) \<Rightarrow> nat \<Rightarrow>
    plan \<Rightarrow> 'z coordinator \<Rightarrow> proxyRouter \<Rightarrow> 'z \<Rightarrow> 'z warming" where
  "bring_up c j dec delay n pl co px z =
     (let cfg = pl_cfg pl;
          (r0, z0) = RegisterActive c j (pl_start pl) (cf_ServiceName cfg) (pl_active pl) (pl_activeAddr pl) z;
          (r1, e) = Start (zk_ops c j) (pl_start pl) (NewEngine cfg z0);
          (r2, co1, ra) = createSession dec (pl_stamp pl) (pl_body pl) (co\<lparr>co_zk := en_reg e\<rparr>);
          (t2, ra2, co2) = ramp_run c j (\<lambda>i z. z) delay n (pl_ramp pl, the ra, co1);
          z2 = co_zk co2
      in (e, co2, refreshInstances c j (pl_children pl) (replicate (length (pl_children pl)) z2) (refresh_cfg c j z2 px)))"

text \<open>
  The second half: the clients' requests \<open>urs\<close> pass through the proxy and their mirrored copies reach
  the instance, the session is completed, and the proxy reads the configuration again. The result is
  the engine after the traffic, the coordinator's view of it, the reply of the completion, and the proxy.
\<close>

definition warm_and_switch :: "('z, 'b) zk_conn \<Rightarrow> 'b codec \<Rightarrow> (string \<Rightarrow> http_request \<Rightarrow> http_response option) \<Rightarrow>
    url_lib \<Rightarrow> (http_request \<Rightarrow> http_response) \<Rightarrow> (http_request \<Rightarrow> int) \<Rightarrow> plan \<Rightarrow> (f64 \<times> http_request) list \<Rightarrow>
    'z warming \<Rightarrow> 'z engine \<times> bool \<times> co_reply \<times> proxyRouter" where
  "warm_and_switch c j forward ul app latency pl urs st =
     (let (e, co2, px) = st;
          e1 = fold (engine_step (zk_ops c j) app)
            (map (\<lambda>m. EvRequest m (latency m)) (mirror_traffic forward ul px urs)) (e\<lparr>en_reg := co_zk co2\<rparr>);
          co3 = co2\<lparr>co_zk := en_reg e1\<rparr>;
          (reply, co4) = completeSession c j (pl_complete pl) (pl_stamp pl) co3
      in (e1, instanceReady c j (cf_InstanceID (pl_cfg pl)) co3, reply, refresh_cfg c j (co_zk co4) px))"

text \<open>Between the halves: the instance is not ready, and the proxy mirrors everything to it.\<close>

definition warming_ok :: "('z \<Rightarrow> string list \<Rightarrow> 'b znode option) \<Rightarrow> ('z \<Rightarrow> bool) \<Rightarrow> 'b codec \<Rightarrow> plan \<Rightarrow>
    'z engine \<Rightarrow> 'z coordinator \<Rightarrow> proxyRouter \<Rightarrow> bool" where
  "warming_ok view alive j pl e co px \<longleftrightarrow>
     (let cfg = pl_cfg pl; wid = cf_InstanceID cfg in
        en_cfg e = cfg \<and> progress_inv cfg 0 e \<and>
        en_synced (zk_look view j) (zk_live view alive) plain_inst \<lparr>ir_Addr = cf_ListenAddr cfg,
          ir_State = StateRegistered, ir_Role = ''warmup'', ir_StartedAt = pl_start pl\<rparr> e \<and>
        co_service co = cf_ServiceName cfg \<and> zk_live view alive (co_zk co) \<and>
        zk_look view j (co_zk co) = zk_look view j (en_reg e) \<and>
        (\<exists>p. co_sessions co (pl_stamp pl) = Some p \<and> p < length (co_heap co) \<and>
          ss_Status (co_heap co ! p) \<noteq> ''completed'' \<and> ss_TargetInstanceID (co_heap co ! p) = wid) \<and>
        px_service px = cf_ServiceName cfg \<and> px_inst px wid = Some (cf_ListenAddr cfg) \<and>
        px_inst px (pl_active pl) = Some (pl_activeAddr pl) \<and> mc_Enabled (px_cfg px) \<and> mc_Ratio (px_cfg px) = Fin 1 \<and>
        mc_TargetInstanceID (px_cfg px) = wid \<and> mc_ActiveInstanceID (px_cfg px) = pl_active pl)"

lemma bring_up_ok:
  assumes "zk_reliable c view alive" and "codec_ok j" and "zk_live view alive z" and "plan_ok pl"
    and "co_service co = cf_ServiceName (pl_cfg pl)" and "px_service px = cf_ServiceName (pl_cfg pl)"
    and "dec (pl_body pl) = Some (cf_InstanceID (pl_cfg pl), k, pl_active pl)"
    and "0 < co_interval co" and "ramp_bound co \<le> n" and "\<And>i. delay i \<le> d"
    and "pl_ramp pl + int n * (int d + co_interval co) < 2 ^ 63"
    and "bring_up c j dec delay n pl co px z = (e, co2, px0)"
  shows "warming_ok view alive j pl e co2 px0"
proof -
  let ?cfg = "pl_cfg pl" and ?aid = "pl_active pl"
  let ?svc = "cf_ServiceName ?cfg" and ?wid = "cf_InstanceID ?cfg"
  let ?wrec = "\<lparr>ir_Addr = cf_ListenAddr ?cfg, ir_State = StateRegistered, ir_Role = ''warmup'', ir_StartedAt = pl_start pl\<rparr>"
  let ?arec = "\<lparr>ir_Addr = pl_activeAddr pl, ir_State = StateActive, ir_Role = ''active'', ir_StartedAt = pl_start pl\<rparr>"
  have pl: "part_ok ?svc" "part_ok ?wid" "part_ok ?aid" "?aid \<noteq> ?wid" "cf_Role ?cfg = ''warmup''"
    "ascii (cf_ListenAddr ?cfg)" "ascii (pl_activeAddr pl)" "in_i64 (pl_start pl)"
    using assms(4) by (auto simp: plan_ok_def Let_def list_all_iff)
  have more: "ascii ?wid" "ascii ?aid" "ascii (pl_stamp pl)" "0 \<le> cf_ShadowMetricsKeep ?cfg" "cf_ShadowMetricsKeep ?cfg < 2 ^ 62"
    "cf_ListenAddr ?cfg \<noteq> []" "plain_addr (cf_ListenAddr ?cfg)" "pl_activeAddr pl \<noteq> []" "plain_addr (pl_activeAddr pl)"
    "0 \<le> pl_ramp pl" "in_i64 (pl_complete pl div 1000000)"
    "list_all part_ok (pl_children pl)" "?wid \<in> set (pl_children pl)" "?aid \<in> set (pl_children pl)"
    using assms(4) by (auto simp: plan_ok_def Let_def)
  obtain z0 e' where up: "RegisterActive c j (pl_start pl) ?svc ?aid (pl_activeAddr pl) z = (None, z0)"
      "Start (zk_ops c j) (pl_start pl) (NewEngine ?cfg z0) = (None, e')" "en_cfg e' = ?cfg"
      "en_synced (zk_look view j) (zk_live view alive) plain_inst ?wrec e'" "zk_look view j (en_reg e') ?svc ?aid = Some ?arec"
    by (rule instances_up [OF assms(1-3) pl])
  obtain r2 co1 ra where new: "createSession dec (pl_stamp pl) (pl_body pl) (co\<lparr>co_zk := en_reg e'\<rparr>) = (r2, co1, Some ra)"
    using assms(7) by (simp add: createSession_def Let_def)
  have co: "zk_live view alive (co_zk (co\<lparr>co_zk := en_reg e'\<rparr>))" "part_ok (co_service (co\<lparr>co_zk := en_reg e'\<rparr>))"
    "0 < co_interval (co\<lparr>co_zk := en_reg e'\<rparr>)" "ramp_bound (co\<lparr>co_zk := en_reg e'\<rparr>) \<le> n"
    "pl_ramp pl + int n * (int d + co_interval (co\<lparr>co_zk := en_reg e'\<rparr>)) < 2 ^ 63"
    using assms(5,8,9,11) pl(1) up(4) by (simp_all add: en_synced_def ramp_bound_def)
  obtain t2 ra2 co2' t p where
    ramp: "ramp_run c j (\<lambda>i z. z) delay n (pl_ramp pl, ra, co1) = (t2, ra2, co2')" "zk_live view alive (co_zk co2')"
      "zk_look view j (co_zk co2') = zk_look view j (co_zk (co\<lparr>co_zk := en_reg e'\<rparr>))"
      "co_service co2' = co_service (co\<lparr>co_zk := en_reg e'\<rparr>)"
      "ReadMirrorConfig c j (co_service (co\<lparr>co_zk := en_reg e'\<rparr>)) (co_zk co2') = (\<lparr>mc_Enabled = True, mc_Ratio = Fin 1,
        mc_TargetInstanceID = ?wid, mc_ActiveInstanceID = ?aid, mc_SessionID = pl_stamp pl, mc_UpdatedAtUnixMilli = t\<rparr>, None)"
    and sess: "co_sessions co2' (pl_stamp pl) = Some p" "p < length (co_heap co2')"
      "ss_Status (co_heap co2' ! p) \<noteq> ''completed''" "ss_TargetInstanceID (co_heap co2' ! p) = ?wid"
    by (rule ramp_leaves [OF assms(1,2) co(1,2) more(3,1,2) new assms(7) co(3,4) assms(10) more(10) co(5)])
  have svc: "px_service px = ?svc" "co_service co2' = ?svc"
    using ramp(4) assms(5,6) by simp_all
  define q where "q = refreshInstances c j (pl_children pl) (replicate (length (pl_children pl)) (co_zk co2'))
      (refresh_cfg c j (co_zk co2') px)"
  note reads = proxy_reads [OF assms(1) ramp(2), of px "pl_children pl" _ j, folded q_def, unfolded svc(1)]
  have px: "px_service q = ?svc" "px_inst q ?wid = Some (cf_ListenAddr ?cfg)" "px_inst q ?aid = Some (pl_activeAddr pl)"
    "mc_Enabled (px_cfg q)" "mc_Ratio (px_cfg q) = Fin 1" "mc_TargetInstanceID (px_cfg q) = ?wid"
    "mc_ActiveInstanceID (px_cfg q) = ?aid"
    using reads [of ?wid] reads [of ?aid] pl(1) more(12-14) ramp(3,5) up(3-5) assms(5) by (simp_all add: en_synced_def)
  have "bring_up c j dec delay n pl co px z = (e', co2', q)"
    unfolding bring_up_def Let_def up(1,2) prod.case new ramp(1) option.sel q_def by simp
  then have "e = e'" "co2 = co2'" "px0 = q"
    using assms(12) by simp_all
  then show ?thesis
    using up(3,4) progress_start [OF up(2) pl(5)] svc(2) ramp(2,3) sess px by (simp add: warming_ok_def Let_def)
qed

lemma warm_and_switch_ok:
  fixes app :: "http_request \<Rightarrow> http_response"
  assumes rel: "zk_reliable c view alive" "codec_ok j" and pl: "plan_ok pl" and ok: "warming_ok view alive j pl e co px"
    and traffic: "\<And>a r. forward a r \<noteq> None" "\<forall>(u, r) \<in> set urs. \<exists>k < 2 ^ 53. u = draw k"
    and gets: "gets = length (filter is_get urs)" "0 < gets" "cf_ReadyAfter (pl_cfg pl) \<le> int gets" "int gets < 2 ^ 62"
    and run: "warm_and_switch c j forward ul app latency pl urs (e, co, px) = (e1, seen, reply, px1)"
  shows "rs_Status (ReadinessHandler e1) = 200 \<and> seen \<and>
    (\<exists>s. reply = CoSession 200 s \<and> ss_Status s = ''completed'' \<and> ss_ActiveInstanceID s = cf_InstanceID (pl_cfg pl)) \<and>
    px_inst px1 = px_inst px \<and> px_cfg px1 =
      (complete_cfg (pl_stamp pl) (cf_InstanceID (pl_cfg pl)))\<lparr>mc_UpdatedAtUnixMilli := pl_complete pl div 1000000\<rparr>"
proof -
  let ?cfg = "pl_cfg pl"
  have pl: "part_ok (cf_ServiceName ?cfg)" "part_ok (cf_InstanceID ?cfg)" "ascii (cf_InstanceID ?cfg)" "ascii (pl_stamp pl)"
    "0 \<le> cf_ShadowMetricsKeep ?cfg" "cf_ShadowMetricsKeep ?cfg < 2 ^ 62" "in_i64 (pl_complete pl div 1000000)"
    using pl by (auto simp: plan_ok_def Let_def list_all_iff)
  note ok = ok [unfolded warming_ok_def Let_def]
  obtain p where p: "co_sessions co (pl_stamp pl) = Some p" "p < length (co_heap co)"
      "ss_Status (co_heap co ! p) \<noteq> ''completed''" "ss_TargetInstanceID (co_heap co ! p) = cf_InstanceID ?cfg"
    using ok by blast
  have full: "full_mirror px"
    using ok assms(3) by (simp add: full_mirror_def px_addr_def plan_ok_def Let_def)
  define e2 where "e2 = fold (engine_step (zk_ops c j) app)
      (map (\<lambda>m. EvRequest m (latency m)) (mirror_traffic forward ul px urs)) (e\<lparr>en_reg := co_zk co\<rparr>)"
  have eng: "en_synced (zk_look view j) (zk_live view alive) plain_inst \<lparr>ir_Addr = cf_ListenAddr ?cfg,
      ir_State = StateRegistered, ir_Role = ''warmup'', ir_StartedAt = pl_start pl\<rparr> e" "en_cfg e = ?cfg" "progress_inv ?cfg 0 e"
    "zk_live view alive (co_zk co)" "zk_look view j (co_zk co) = zk_look view j (en_reg e)" "co_service co = cf_ServiceName ?cfg"
    using ok by simp_all
  note warm = warmed_engine [where c = c and app = app and latency = latency and ul = ul and forward = forward,
      OF rel pl(1,2) eng(1-5) full traffic pl(5,6) gets eng(6), folded e2_def]
  define co3 where "co3 = co\<lparr>co_zk := en_reg e2\<rparr>"
  have co3: "zk_live view alive (co_zk co3)" "part_ok (co_service co3)" "co_sessions co3 (pl_stamp pl) = Some p"
    "p < length (co_heap co3)" "ss_Status (co_heap co3 ! p) \<noteq> ''completed''" "ascii (ss_TargetInstanceID (co_heap co3 ! p))"
    using warm(3) pl(1,3) eng(6) p by (simp_all add: co3_def)
  obtain co4 where co4: "completeSession c j (pl_complete pl) (pl_stamp pl) co3 = (CoSession 200 (completed (co_heap co3 ! p)), co4)"
      "ReadMirrorConfig c j (co_service co3) (co_zk co4) = ((complete_cfg (pl_stamp pl) (ss_TargetInstanceID (co_heap co3 ! p)))
         \<lparr>mc_UpdatedAtUnixMilli := pl_complete pl div 1000000\<rparr>, None)"
    by (rule complete_written [OF rel co3(1,2) pl(7) co3(3-5) pl(4) co3(6)])
  have "warm_and_switch c j forward ul app latency pl urs (e, co, px) =
      (e2, True, CoSession 200 (completed (co_heap co3 ! p)), refresh_cfg c j (co_zk co4) px)"
    unfolding warm_and_switch_def Let_def prod.case e2_def [symmetric] co3_def [symmetric] co4(1)
    using warm(2) by (simp add: co3_def)
  then have out: "e1 = e2" "seen" "reply = CoSession 200 (completed (co_heap co3 ! p))" "px1 = refresh_cfg c j (co_zk co4) px"
    using run by simp_all
  moreover have "px_service px = co_service co3" "ss_TargetInstanceID (co_heap co3 ! p) = cf_InstanceID ?cfg"
    using ok p(4) by (simp_all add: co3_def)
  ultimately show ?thesis
    using warm(1) co4(2) by (simp add: refresh_cfg_def completed_def)
qed


definition sample_plan :: plan where
  "sample_plan = \<lparr>pl_cfg = sample_cfg, pl_active = ''a1'', pl_activeAddr = ''h:2'', pl_stamp = ''t'', pl_body = ''{}'',
     pl_children = [''a1'', ''i1''], pl_start = 1, pl_ramp = 5, pl_complete = 9\<rparr>"


end
