(* ===== verification/World.thy ===== *)
theory World
  imports WarmUp
begin

text \<open>
  The services beside each other: the ramp, the proxy's two goroutines, the instance's watcher, its timer
  and its requests, and the clients act on one store in any order. A mirrored request travels on its own
  and may be lost. Every handler of the engine is one step here (theory EngineConc takes them apart), and
  so is every action of the ramp. Calls of the store succeed, no process stops, and neither a completion
  nor a benchmark reset is asked for.
\<close>

section \<open>The step relation\<close>

record 'z world =
  wd_engine :: "'z engine"
  wd_queue :: "MirrorConfig list"     \<comment> \<open>read by the instance's watcher and not yet handled\<close>
  wd_ramp :: ramp
  wd_co :: "'z coordinator"
  wd_px :: proxyRouter
  wd_flight :: "(string \<times> http_request) list"     \<comment> \<open>mirrored requests under way, with their hosts\<close>
  wd_store :: 'z     \<comment> \<open>the store; the services' own copies are overwritten with it before they act\<close>
  wd_arrived :: nat     \<comment> \<open>mirrored requests that reached the instance\<close>

definition wd_step_engine :: "('z, 'b) zk_conn \<Rightarrow> 'b codec \<Rightarrow> (http_request \<Rightarrow> http_response) \<Rightarrow> eng_event \<Rightarrow>
    'z world \<Rightarrow> 'z world" where
  "wd_step_engine c j app ev w =
     (let e = engine_step (zk_ops c j) app ev ((wd_engine w)\<lparr>en_reg := wd_store w\<rparr>)
      in w\<lparr>wd_engine := e, wd_store := en_reg e\<rparr>)"

inductive world_step :: "('z, 'b) zk_conn \<Rightarrow> 'b codec \<Rightarrow> (string \<Rightarrow> http_request \<Rightarrow> http_response option) \<Rightarrow> url_lib \<Rightarrow>
    (http_request \<Rightarrow> http_response) \<Rightarrow> 'z world \<Rightarrow> 'z world \<Rightarrow> bool" for c j forward ul app where
  ws_ramp: "in_i64 (t div 1000000) \<Longrightarrow> ramp_step c j t (wd_ramp w) ((wd_co w)\<lparr>co_zk := wd_store w\<rparr>) = (ra, co) \<Longrightarrow>
    world_step c j forward ul app w (w\<lparr>wd_ramp := ra, wd_co := co, wd_store := co_zk co\<rparr>)"
| ws_config: "world_step c j forward ul app w (w\<lparr>wd_px := refresh_cfg c j (wd_store w) (wd_px w)\<rparr>)"
| ws_instances: "list_all part_ok ids \<Longrightarrow> world_step c j forward ul app w
    (w\<lparr>wd_px := refreshInstances c j ids (replicate (length ids) (wd_store w)) (wd_px w)\<rparr>)"
| ws_watch: "zk_get c (mirror_path (cf_ServiceName (en_cfg (wd_engine w)))) (wd_store w) = Inr (b, v) \<Longrightarrow>
    world_step c j forward ul app w (w\<lparr>wd_queue := wd_queue w @ [watch_decode j b]\<rparr>)"
| ws_mirror: "wd_queue w = m # ms \<Longrightarrow>
    world_step c j forward ul app w (wd_step_engine c j app (EvMirror m) (w\<lparr>wd_queue := ms\<rparr>))"
| ws_engine: "ev \<in> {EvBegin, EvFire, EvTimeout} \<Longrightarrow> world_step c j forward ul app w (wd_step_engine c j app ev w)"
| ws_client: "k < 2 ^ 53 \<Longrightarrow> snd (ServeHTTP forward ul (draw k) r (wd_px w)) = sent \<Longrightarrow>
    world_step c j forward ul app w (w\<lparr>wd_flight := wd_flight w @ (case sent of None \<Rightarrow> [] | Some s \<Rightarrow> [s])\<rparr>)"
| ws_lost: "wd_flight w = fs @ s # gs \<Longrightarrow> world_step c j forward ul app w (w\<lparr>wd_flight := fs @ gs\<rparr>)"
| ws_arrive: "wd_flight w = fs @ (cf_ListenAddr (en_cfg (wd_engine w)), m) # gs \<Longrightarrow> wd_arrived w < 2 ^ 62 \<Longrightarrow>
    world_step c j forward ul app w
      (wd_step_engine c j app (EvRequest m d) (w\<lparr>wd_flight := fs @ gs, wd_arrived := Suc (wd_arrived w)\<rparr>))"

section \<open>What the store keeps\<close>

text \<open>
  A configuration steers a warm-up if it names the active instance, or none, and mirrors to the instance
  to be warmed or not at all.
\<close>

definition steers :: "plan \<Rightarrow> MirrorConfig \<Rightarrow> bool" where
  "steers pl m \<longleftrightarrow> (mc_ActiveInstanceID m = pl_active pl \<or> mc_ActiveInstanceID m = []) \<and>
     (mc_Enabled m \<longrightarrow> mc_TargetInstanceID m = cf_InstanceID (pl_cfg pl))"

definition store_ok :: "('z \<Rightarrow> string list \<Rightarrow> 'b znode option) \<Rightarrow> ('z \<Rightarrow> bool) \<Rightarrow> 'b codec \<Rightarrow> plan \<Rightarrow> 'z \<Rightarrow> bool" where
  "store_ok view alive j pl z \<longleftrightarrow> zk_live view alive z \<and>
     (\<exists>rec. zk_look view j z (cf_ServiceName (pl_cfg pl)) (cf_InstanceID (pl_cfg pl)) = Some rec \<and> plain_inst rec \<and>
        ir_Addr rec = cf_ListenAddr (pl_cfg pl)) \<and>
     (\<exists>rec. zk_look view j z (cf_ServiceName (pl_cfg pl)) (pl_active pl) = Some rec \<and> ir_Addr rec = pl_activeAddr pl) \<and>
     (\<forall>n. config_view view z [''config'', cf_ServiceName (pl_cfg pl), ''mirror''] = Some n \<longrightarrow>
        steers pl (watch_decode j (zn_data n)))"

lemma store_ok_update:
  assumes rel: "zk_reliable c view alive" "codec_ok j" and pl: "plan_ok pl" and ok: "store_ok view alive j pl z"
    and st: "named_state st"
  shows "store_ok view alive j pl (snd (zk_UpdateInstanceState c j (cf_ServiceName (pl_cfg pl)) (cf_InstanceID (pl_cfg pl)) st z))"
proof -
  have names: "part_ok (cf_ServiceName (pl_cfg pl))" "part_ok (cf_InstanceID (pl_cfg pl))" "pl_active pl \<noteq> cf_InstanceID (pl_cfg pl)"
    using pl by (auto simp: plan_ok_def Let_def list_all_iff)
  obtain rec where rec: "zk_live view alive z"
      "zk_look view j z (cf_ServiceName (pl_cfg pl)) (cf_InstanceID (pl_cfg pl)) = Some rec" "plain_inst rec"
      "ir_Addr rec = cf_ListenAddr (pl_cfg pl)"
    using ok by (auto simp: store_ok_def)
  obtain z' where z': "zk_UpdateInstanceState c j (cf_ServiceName (pl_cfg pl)) (cf_InstanceID (pl_cfg pl)) st z = (None, z')"
      "zk_live view alive z'"
      "zk_look view j z' (cf_ServiceName (pl_cfg pl)) (cf_InstanceID (pl_cfg pl)) = Some (rec\<lparr>ir_State := st\<rparr>)"
      "zk_look view j z' (cf_ServiceName (pl_cfg pl)) (pl_active pl) = zk_look view j z (cf_ServiceName (pl_cfg pl)) (pl_active pl)"
      "config_view view z' = config_view view z"
    using zk_update_ok [OF rel rec(1) names(1,2) rec(2,3) st] names(3) by auto
  have "plain_inst (rec\<lparr>ir_State := st\<rparr>)"
    using rec(3) st by (simp add: plain_inst_def)
  then show ?thesis
    using ok z' rec(4) by (simp add: store_ok_def)
qed

text \<open>What every update of the own record keeps of the store, the engine keeps.\<close>

lemma enter_reg: "en_reg (enter ops st e) =
    snd (rg_UpdateInstanceState ops (cf_ServiceName (en_cfg e)) (cf_InstanceID (en_cfg e)) st (en_reg e))"
  by (simp add: enter_def e_publish_def e_transition_def)

lemma step_reg:
  assumes "\<And>st s. named_state st \<Longrightarrow> P s \<Longrightarrow>
      P (snd (rg_UpdateInstanceState ops (cf_ServiceName (en_cfg e)) (cf_InstanceID (en_cfg e)) st s))"
    and "P (en_reg e)"
  shows "P (en_reg (engine_step ops app ev e))"
proof -
  have enter: "P (en_reg (enter ops st e1))" if "named_state st" "P (en_reg e1)" "en_cfg e1 = en_cfg e" for st e1
    using assms(1) that by (simp add: enter_reg)
  have mirror: "P (en_reg (handleMirrorConfig ops m e))" for m
    using assms(2) by (auto simp: handleMirrorConfig_def Let_def intro!: enter)
  show ?thesis
  proof (cases ev)
    case (EvMirror m)
    then show ?thesis using assms(2) mirror by (simp add: rmw_mirror_def Let_def)
  next
    case (EvRequest r d)
    have "P (en_reg (if en_State e = StateRegistered then enter ops StateWarming e else e))"
      using assms(2) enter by simp
    then show ?thesis
      using assms(2) enter EvRequest by (auto simp: ShadowMiddleware_def Let_def split: prod.split option.split)
  next
    case EvReset
    then show ?thesis
      using assms by (auto simp: ResetBenchmark_def Let_def split: prod.split) (metis named_state.simps snd_conv)
  qed (use assms(2) enter in \<open>auto simp: rmw_begin_def rmw_timeout_def rmw_return_def Let_def e_transition_def split: option.split\<close>)
qed

text \<open>The node of the mirror configuration after a write of the ramp\<close>

lemma mirror_write_node:
  assumes rel: "zk_reliable c view alive" "codec_ok j" and live: "zk_live view alive z" and svc: "part_ok svc"
    and plain: "is_finite (mc_Ratio m) \<Longrightarrow> plain_mirror (m\<lparr>mc_UpdatedAtUnixMilli := now\<rparr>)"
    and n: "view (snd (WriteMirrorConfig c j now svc m z)) [''config'', svc, ''mirror''] = Some n"
  shows "watch_decode j (zn_data n) = m\<lparr>mc_UpdatedAtUnixMilli := now\<rparr> \<or> view z [''config'', svc, ''mirror''] = Some n"
proof (cases "is_finite (mc_Ratio m)")
  case True
  obtain b where b: "cd_enc_mirror j (m\<lparr>mc_UpdatedAtUnixMilli := now\<rparr>) = Some b" "\<not> cd_is_empty j b"
      "cd_dec_mirror j b = (m\<lparr>mc_UpdatedAtUnixMilli := now\<rparr>, True)"
    using rel(2) plain [OF True] by (auto simp: codec_ok_def)
  obtain z' n' where "WriteMirrorConfig c j now svc m z = (None, z')" "view z' [''config'', svc, ''mirror''] = Some n'"
      "zn_data n' = b"
    using mirror_stored [OF rel(1) live svc b(1)] by blast
  then show ?thesis using n b by (simp add: watch_decode_def)
next
  case False
  obtain z1 d where z1: "ensurePath c j (''/config/'' @ svc) z = (None, z1)" "zk_live view alive z1"
      "grows [''config'', svc] (view z) (view z1)" "view z1 [''config'', svc] = Some d"
    by (rule mirror_dir [OF rel(1) live svc])
  have "snd (WriteMirrorConfig c j now svc m z) = z1"
    using rel(2) False z1(1) by (simp add: WriteMirrorConfig_def codec_ok_def)
  then show ?thesis
    using n z1(3) by (simp add: grows_def)
qed

lemma store_ok_write:
  assumes rel: "zk_reliable c view alive" "codec_ok j" and pl: "plan_ok pl" and ok: "store_ok view alive j pl (co_zk co)"
    and svc: "co_service co = cf_ServiceName (pl_cfg pl)" and t: "in_i64 (t div 1000000)"
    and m: "steers pl m" "is_finite (mc_Ratio m) \<Longrightarrow> plain_mirror (m\<lparr>mc_UpdatedAtUnixMilli := t div 1000000\<rparr>)"
  shows "store_ok view alive j pl (co_zk (snd (co_write c j t m co))) \<and>
    zk_look view j (co_zk (snd (co_write c j t m co))) = zk_look view j (co_zk co)"
proof -
  let ?svc = "cf_ServiceName (pl_cfg pl)"
  define z' where "z' = snd (WriteMirrorConfig c j (t div 1000000) ?svc m (co_zk co))"
  have part: "part_ok ?svc" and live: "zk_live view alive (co_zk co)"
    using pl ok by (auto simp: plan_ok_def store_ok_def Let_def)
  have z': "co_zk (snd (co_write c j t m co)) = z'"
    by (simp add: co_write_def z'_def svc split: prod.split)
  note keep = mirror_write_live [OF rel(1) live part, of j "t div 1000000" m, folded z'_def]
  have "steers pl (watch_decode j (zn_data n))" if "view z' [''config'', ?svc, ''mirror''] = Some n" for n
    using mirror_write_node [OF rel live part m(2) that [unfolded z'_def]] m(1) ok
    by (auto simp: steers_def store_ok_def config_view_def)
  then show ?thesis
    using keep ok unfolding z' by (simp add: store_ok_def config_view_def)
qed

section \<open>The invariant\<close>

fun pc_steps :: "ramp_pc \<Rightarrow> f64 list" where
  "pc_steps (RpStep rs) = rs"
| "pc_steps (RpSlept rs) = rs"
| "pc_steps pc = []"

definition ramp_ready :: "plan \<Rightarrow> ramp \<Rightarrow> 'z coordinator \<Rightarrow> bool" where
  "ramp_ready pl ra co \<longleftrightarrow> ra_target ra = cf_InstanceID (pl_cfg pl) \<and> ra_active ra = pl_active pl \<and>
     ra_sessionID ra = pl_stamp pl \<and> co_service co = cf_ServiceName (pl_cfg pl) \<and>
     list_all is_f64 (co_steps co) \<and> list_all is_f64 (pc_steps (ra_pc ra))"

text \<open>The proxy knows at most the right addresses, and its configuration steers.\<close>

definition proxy_ok :: "plan \<Rightarrow> proxyRouter \<Rightarrow> bool" where
  "proxy_ok pl px \<longleftrightarrow> px_service px = cf_ServiceName (pl_cfg pl) \<and> steers pl (px_cfg px) \<and> px_inst px [] = None \<and>
     (\<forall>a. px_inst px (pl_active pl) = Some a \<longrightarrow> a = pl_activeAddr pl) \<and>
     (\<forall>a. px_inst px (cf_InstanceID (pl_cfg pl)) = Some a \<longrightarrow> a = cf_ListenAddr (pl_cfg pl))"

definition world_inv :: "('z \<Rightarrow> string list \<Rightarrow> 'b znode option) \<Rightarrow> ('z \<Rightarrow> bool) \<Rightarrow> 'b codec \<Rightarrow> plan \<Rightarrow> 'z world \<Rightarrow> bool" where
  "world_inv view alive j pl w \<longleftrightarrow> store_ok view alive j pl (wd_store w) \<and>
     en_good (pl_cfg pl) (wd_engine w) \<and> en_count (wd_engine w) = int (wd_arrived w) \<and> wd_arrived w \<le> 2 ^ 62 \<and>
     en_State (wd_engine w) \<noteq> StateActive \<and>
     (\<exists>rec. en_synced (zk_look view j) (zk_live view alive) plain_inst rec ((wd_engine w)\<lparr>en_reg := wd_store w\<rparr>)) \<and>
     list_all (steers pl) (wd_queue w) \<and> ramp_ready pl (wd_ramp w) (wd_co w) \<and> proxy_ok pl (wd_px w) \<and>
     list_all (\<lambda>(host, m). host = cf_ListenAddr (pl_cfg pl) \<and> shadow_get m) (wd_flight w)"

lemma ramp_cfg_steers: "ramp_ready pl ra co \<Longrightarrow> steers pl (ramp_cfg ra r)"
  by (simp add: ramp_ready_def steers_def ramp_cfg_def)

lemma ramp_cfg_plain:
  assumes "plan_ok pl" "ramp_ready pl ra co" "is_f64 r" "is_finite r" "in_i64 t"
  shows "plain_mirror ((ramp_cfg ra r)\<lparr>mc_UpdatedAtUnixMilli := t\<rparr>)"
  using assms by (simp add: plain_mirror_def ramp_cfg_def ramp_ready_def plan_ok_def Let_def)

lemma is_f64_const: "is_f64 (Fin 0)" "is_f64 f64_one"
  using fl_of_int [of 0] fl_of_int [of 1] by (simp_all add: f64_one_def)

lemma ramp_step_ok:
  assumes rel: "zk_reliable c view alive" "codec_ok j" and pl: "plan_ok pl" and ok: "store_ok view alive j pl (co_zk co)"
    and ready: "ramp_ready pl ra co" and t: "in_i64 (t div 1000000)" and step: "ramp_step c j t ra co = (ra', co')"
  shows "store_ok view alive j pl (co_zk co')" and "ramp_ready pl ra' co'"
    and "zk_look view j (co_zk co') = zk_look view j (co_zk co)"
proof -
  have w: "store_ok view alive j pl (co_zk (snd (co_write c j t (ramp_cfg ra r) co))) \<and>
      zk_look view j (co_zk (snd (co_write c j t (ramp_cfg ra r) co))) = zk_look view j (co_zk co)" if "is_f64 r" for r
  proof (rule store_ok_write [OF rel pl ok _ t ramp_cfg_steers [OF ready]])
    show "co_service co = cf_ServiceName (pl_cfg pl)"
      using ready by (simp add: ramp_ready_def)
    show "plain_mirror ((ramp_cfg ra r)\<lparr>mc_UpdatedAtUnixMilli := t div 1000000\<rparr>)" if "is_finite (mc_Ratio (ramp_cfg ra r))"
      using ramp_cfg_plain [OF pl ready \<open>is_f64 r\<close> _ t] that by (simp add: ramp_cfg_def)
  qed
  have "store_ok view alive j pl (co_zk co') \<and> ramp_ready pl ra' co' \<and>
      zk_look view j (co_zk co') = zk_look view j (co_zk co)"
  proof (cases "ra_pc ra")
    case (RpStep rs)
    then show ?thesis
      using step ok ready w by (cases rs) (auto simp: ramp_step_def ramp_ready_def)
  qed (use step ok ready w is_f64_const in \<open>auto simp: ramp_step_def ramp_ready_def\<close>)
  then show "store_ok view alive j pl (co_zk co')" "ramp_ready pl ra' co'" "zk_look view j (co_zk co') = zk_look view j (co_zk co)"
    by simp_all
qed

lemma proxy_ok_config:
  assumes rel: "zk_reliable c view alive" and pl: "plan_ok pl" and ok: "store_ok view alive j pl z" and px: "proxy_ok pl px"
  shows "proxy_ok pl (refresh_cfg c j z px)"
proof -
  let ?svc = "cf_ServiceName (pl_cfg pl)"
  have part: "part_ok ?svc" and live: "zk_live view alive z"
    using pl ok by (auto simp: plan_ok_def store_ok_def Let_def)
  have "steers pl m" if "ReadMirrorConfig c j ?svc z = (m, None)" for m
    using that ok unfolding read_mirror_view [OF rel live part]
    by (auto simp: store_ok_def config_view_def watch_decode_def split: option.splits if_splits)
  then show ?thesis
    using px by (auto simp: proxy_ok_def refresh_cfg_def split: prod.split option.split)
qed

lemma proxy_ok_instances:
  assumes rel: "zk_reliable c view alive" and pl: "plan_ok pl" and ok: "store_ok view alive j pl z" and px: "proxy_ok pl px"
    and ids: "list_all part_ok ids"
  shows "proxy_ok pl (refreshInstances c j ids (replicate (length ids) z) px)"
proof -
  let ?svc = "cf_ServiceName (pl_cfg pl)"
  have part: "part_ok ?svc" and live: "zk_live view alive z"
    using pl ok by (auto simp: plan_ok_def store_ok_def Let_def)
  have "[] \<notin> set ids"
    using ids by (auto simp: list_all_iff part_ok_def)
  then show ?thesis
    using px ok refresh_loop_look [OF rel live part ids, of j Map.empty]
    by (auto simp: proxy_ok_def refreshInstances_def store_ok_def split: option.splits if_splits)
qed

section \<open>Every step keeps the invariant\<close>

lemma not_active_step:
  assumes "en_State e \<noteq> StateActive" "\<And>m. ev = EvMirror m \<Longrightarrow> mc_ActiveInstanceID m \<noteq> cf_InstanceID (en_cfg e)"
  shows "en_State (engine_step ops app ev e) \<noteq> StateActive"
proof (cases ev)
  case (EvMirror m)
  then show ?thesis
    using assms by (simp add: rmw_mirror_def handleMirrorConfig_def Let_def)
next
  case (EvRequest r d)
  then show ?thesis
    using assms(1) by (simp add: ShadowMiddleware_def Let_def split: prod.split option.split)
next
  case EvReset
  then show ?thesis
    using assms(1) by (simp add: ResetBenchmark_def Let_def split: prod.split)
qed (use assms(1) in \<open>auto simp: rmw_begin_def rmw_timeout_def rmw_return_def Let_def split: option.split\<close>)

lemma world_inv_engine:
  assumes rel: "zk_reliable c view alive" "codec_ok j" and pl: "plan_ok pl" and inv: "world_inv view alive j pl w"
    and queue: "list_all (steers pl) ms" and flight: "list_all (\<lambda>(host, m). host = cf_ListenAddr (pl_cfg pl) \<and> shadow_get m) fs"
    and ev: "\<And>m. ev = EvMirror m \<Longrightarrow> steers pl m" "ev \<noteq> EvReset" "\<And>r d. ev = EvRequest r d \<Longrightarrow> shadow_get r"
    and n: "n = wd_arrived w + (if \<exists>r d. ev = EvRequest r d then 1 else 0)" "n \<le> 2 ^ 62"
  shows "world_inv view alive j pl (wd_step_engine c j app ev (w\<lparr>wd_queue := ms, wd_flight := fs, wd_arrived := n\<rparr>))"
proof -
  let ?e = "(wd_engine w)\<lparr>en_reg := wd_store w\<rparr>"
  let ?e1 = "engine_step (zk_ops c j) app ev ?e"
  have names: "part_ok (cf_ServiceName (pl_cfg pl))" "part_ok (cf_InstanceID (pl_cfg pl))" "cf_Role (pl_cfg pl) = ''warmup''"
    "pl_active pl \<noteq> cf_InstanceID (pl_cfg pl)" "cf_InstanceID (pl_cfg pl) \<noteq> []"
    using pl by (auto simp: plan_ok_def Let_def list_all_iff part_ok_def)
  have e: "en_good (pl_cfg pl) ?e" "en_count ?e = int (wd_arrived w)" "en_State ?e \<noteq> StateActive" "en_cfg ?e = pl_cfg pl"
    using inv by (auto simp: world_inv_def en_good_def)
  obtain rec where sync: "en_synced (zk_look view j) (zk_live view alive) plain_inst rec ?e"
    using inv by (auto simp: world_inv_def)
  have "en_good (pl_cfg pl) ?e1"
    using en_good_step(1) [OF e(1)] inv e(2) by (simp add: world_inv_def)
  moreover have "en_count ?e1 = int n"
    using step_count [of ?e "zk_ops c j" app ev] e(2,4) names(3) ev n
    by (cases ev) (auto simp: in_i64_def)
  moreover have "en_State ?e1 \<noteq> StateActive"
    by (rule not_active_step [OF e(3)]) (use ev(1) names(4,5) e(4) in \<open>auto simp: steers_def\<close>)
  moreover have "en_synced (zk_look view j) (zk_live view alive) plain_inst rec ?e1"
    using registry_contract.synced_run [OF zk_registry_contract [OF rel] sync, of app "[ev]"] e(4) names(1,2) by simp
  moreover have "store_ok view alive j pl (en_reg ?e1)"
    by (rule step_reg [where P = "store_ok view alive j pl"])
      (use store_ok_update [OF rel pl] inv e(4) in \<open>simp_all add: world_inv_def zk_ops_def\<close>)
  ultimately show ?thesis
    using inv queue flight n(2) by (auto simp: world_inv_def wd_step_engine_def Let_def)
qed

lemma mirrored_shadow:
  assumes pl: "plan_ok pl" and px: "proxy_ok pl px" and sent: "snd (ServeHTTP forward ul u r px) = Some (host, m)"
  shows "host = cf_ListenAddr (pl_cfg pl) \<and> shadow_get m"
proof -
  let ?t = "px_addr px (mc_TargetInstanceID (px_cfg px))"
  have t: "mirrors u r (px_cfg px)" "?t \<noteq> []" "mirrorRequest ul r ?t = Some (host, m)"
    using sent by (auto simp: ServeHTTP_addr Let_def split: if_splits option.splits)
  then have "mc_TargetInstanceID (px_cfg px) = cf_InstanceID (pl_cfg pl)"
    using px by (simp add: proxy_ok_def steers_def mirrors_def)
  then have "?t = cf_ListenAddr (pl_cfg pl)"
    using t(2) px by (auto simp: proxy_ok_def px_addr_def split: option.splits)
  moreover have "plain_addr (cf_ListenAddr (pl_cfg pl))"
    using pl by (simp add: plan_ok_def Let_def)
  ultimately show ?thesis
    using t(3) by (auto simp: mirrorRequest_plain shadow_copy_get)
qed

lemma world_inv_step:
  assumes rel: "zk_reliable c view alive" "codec_ok j" and pl: "plan_ok pl" and inv: "world_inv view alive j pl w"
    and step: "world_step c j forward ul app w w'"
  shows "world_inv view alive j pl w'"
  using step
proof cases
  case (ws_ramp t ra co)
  have "store_ok view alive j pl (co_zk ((wd_co w)\<lparr>co_zk := wd_store w\<rparr>))"
    "ramp_ready pl (wd_ramp w) ((wd_co w)\<lparr>co_zk := wd_store w\<rparr>)"
    using inv by (auto simp: world_inv_def ramp_ready_def)
  note ok = ramp_step_ok [OF rel pl this ws_ramp(2,3)]
  obtain rec where "en_synced (zk_look view j) (zk_live view alive) plain_inst rec ((wd_engine w)\<lparr>en_reg := wd_store w\<rparr>)"
    using inv by (auto simp: world_inv_def)
  then have "en_synced (zk_look view j) (zk_live view alive) plain_inst rec ((wd_engine w)\<lparr>en_reg := co_zk co\<rparr>)"
    using ok(1,3) by (simp add: en_synced_def store_ok_def)
  then show ?thesis
    using inv ok(1,2) ws_ramp(1) by (auto simp: world_inv_def)
next
  case ws_config
  then show ?thesis
    using inv proxy_ok_config [OF rel(1) pl] by (simp add: world_inv_def)
next
  case (ws_instances ids)
  then show ?thesis
    using inv proxy_ok_instances [OF rel(1) pl] by (simp add: world_inv_def)
next
  case (ws_watch b v)
  have svc: "en_cfg (wd_engine w) = pl_cfg pl" "part_ok (cf_ServiceName (pl_cfg pl))" "alive (wd_store w)"
    using inv pl by (auto simp: world_inv_def en_good_def plan_ok_def store_ok_def zk_live_def Let_def)
  obtain n where "view (wd_store w) [''config'', cf_ServiceName (pl_cfg pl), ''mirror''] = Some n" "b = zn_data n"
    using ws_watch(2) zk_reliableD(2) [OF rel(1) svc(3) mirror_parts_ok [OF svc(2)]] svc(1)
    by (auto simp: mirror_path_of split: option.splits)
  then have "steers pl (watch_decode j b)"
    using inv by (auto simp: world_inv_def store_ok_def config_view_def)
  then show ?thesis
    using inv ws_watch(1) by (auto simp: world_inv_def)
next
  case (ws_mirror m ms)
  then show ?thesis
    using world_inv_engine [OF rel pl inv, of ms "wd_flight w" "EvMirror m" "wd_arrived w" app] inv
    by (simp add: world_inv_def)
next
  case (ws_engine ev)
  then show ?thesis
    using world_inv_engine [OF rel pl inv, of "wd_queue w" "wd_flight w" ev "wd_arrived w" app] inv
    by (auto simp: world_inv_def)
next
  case (ws_client k r sent)
  have "proxy_ok pl (wd_px w)"
    using inv by (simp add: world_inv_def)
  then show ?thesis
    using inv ws_client mirrored_shadow [OF pl, of "wd_px w" forward ul "draw k" r]
    by (cases sent) (auto simp: world_inv_def)
next
  case (ws_lost fs s gs)
  then show ?thesis using inv by (simp add: world_inv_def)
next
  case (ws_arrive fs m gs d)
  then show ?thesis
    using world_inv_engine [OF rel pl inv, of "wd_queue w" "fs @ gs" "EvRequest m d" "Suc (wd_arrived w)" app] inv
    by (simp add: world_inv_def)
qed

section \<open>Safety\<close>

lemma store_ok_start:
  assumes rel: "zk_reliable c view alive" "codec_ok j" and live: "zk_live view alive z" and pl: "plan_ok pl"
    and conf: "\<And>n. view z [''config'', cf_ServiceName (pl_cfg pl), ''mirror''] = Some n \<Longrightarrow> steers pl (watch_decode j (zn_data n))"
    and up: "RegisterActive c j (pl_start pl) (cf_ServiceName (pl_cfg pl)) (pl_active pl) (pl_activeAddr pl) z = (r0, z0)"
      "Start (zk_ops c j) (pl_start pl) (NewEngine (pl_cfg pl) z0) = (r1, e)"
  shows "store_ok view alive j pl (en_reg e)" and "r1 = None"
    and "\<exists>rec. en_synced (zk_look view j) (zk_live view alive) plain_inst rec e"
proof -
  let ?cfg = "pl_cfg pl"
  let ?wrec = "\<lparr>ir_Addr = cf_ListenAddr ?cfg, ir_State = StateRegistered, ir_Role = ''warmup'', ir_StartedAt = pl_start pl\<rparr>"
  let ?Q = "\<lambda>v. \<forall>n. v [''config'', cf_ServiceName ?cfg, ''mirror''] = Some n \<longrightarrow> steers pl (watch_decode j (zn_data n))"
  have names: "part_ok (cf_ServiceName ?cfg)" "part_ok (cf_InstanceID ?cfg)" "part_ok (pl_active pl)"
    "pl_active pl \<noteq> cf_InstanceID ?cfg" "cf_Role ?cfg = ''warmup''" "ascii (cf_ListenAddr ?cfg)" "ascii (pl_activeAddr pl)"
    "in_i64 (pl_start pl)"
    using pl by (auto simp: plan_ok_def Let_def list_all_iff)
  have recs: "plain_inst ?wrec" "plain_inst \<lparr>ir_Addr = pl_activeAddr pl, ir_State = StateActive, ir_Role = ''active'', ir_StartedAt = pl_start pl\<rparr>"
    using names(6-8) by (simp_all add: wf_simps)
  obtain z0' e' where inst: "RegisterActive c j (pl_start pl) (cf_ServiceName ?cfg) (pl_active pl) (pl_activeAddr pl) z = (None, z0')"
    "Start (zk_ops c j) (pl_start pl) (NewEngine ?cfg z0') = (None, e')" "en_cfg e' = ?cfg"
    "en_synced (zk_look view j) (zk_live view alive) plain_inst ?wrec e'"
    "zk_look view j (en_reg e') (cf_ServiceName ?cfg) (pl_active pl) =
      Some \<lparr>ir_Addr = pl_activeAddr pl, ir_State = StateActive, ir_Role = ''active'', ir_StartedAt = pl_start pl\<rparr>"
    by (rule instances_up [OF rel live names])
  have same: "z0' = z0" "e' = e" "r1 = None"
    using inst(1,2) up by simp_all
  have "config_view view z0 = config_view view z" "zk_live view alive z0"
    using zk_register_ok [OF rel live names(1,3) recs(2)] up(1) by (auto simp: RegisterActive_def)
  then have "zk_live view alive z0 \<and> ?Q (config_view view z0)"
    using conf by (simp add: config_view_def)
  note live' = this
  have contract: "registry_contract (zk_ops c j) (zk_look view j) (\<lambda>z. zk_live view alive z \<and> ?Q (config_view view z)) part_ok plain_inst"
    by (rule zk_contract_keeping [OF rel])
  obtain e'' where "Start (zk_ops c j) (pl_start pl) (NewEngine ?cfg z0) = (None, e'')"
    "en_synced (zk_look view j) (\<lambda>z. zk_live view alive z \<and> ?Q (config_view view z)) plain_inst ?wrec e''"
    using registry_contract.synced_start [OF contract, of z0 ?cfg ?wrec "pl_start pl"] live' names(1,2,5) recs(1) by blast
  then have "?Q (config_view view (en_reg e))"
    using up(2) unfolding en_synced_def by simp
  then show "store_ok view alive j pl (en_reg e)"
    using inst(3-5) recs(1) unfolding same by (simp add: store_ok_def en_synced_def plain_inst_def)
  show "r1 = None" "\<exists>rec. en_synced (zk_look view j) (zk_live view alive) plain_inst rec e"
    using inst(4) same by auto
qed



end
