(* ===== verification/Workload.thy ===== *)
theory Workload
  imports Fsm
begin

text \<open>
  LoadedService/internal/workload/engine.go: the index-build workload. The random source of
  \<open>math/rand\<close> is a parameter: \<open>intn seed k n\<close> is the result of the \<open>k\<close>-th call \<open>Intn(n)\<close> on a new
  source with that seed, and lies in \<open>[0, n)\<close> for positive \<open>n\<close>. Durations are parameters as well.
\<close>

section \<open>State and operations\<close>

record workload =
  wl_indexKeys :: int
  wl_index :: "int \<rightharpoonup> int"
  wl_indexBuilt :: bool
  wl_indexCold :: bool

definition wl_New :: "int \<Rightarrow> workload" where
  "wl_New indexKeys = \<lparr>wl_indexKeys = indexKeys, wl_index = Map.empty, wl_indexBuilt = False, wl_indexCold = True\<rparr>"

definition wl_SnapshotState :: "workload \<Rightarrow> bool" where
  "wl_SnapshotState e = wl_indexCold e"

text \<open>The loop \<open>for i := 0; i < indexKeys; i++ { index[i] = i }\<close>.\<close>

definition build_index :: "int \<Rightarrow> (int \<rightharpoonup> int)" where
  "build_index n = fold (\<lambda>i m. m(i \<mapsto> i)) [0..n - 1] Map.empty"

definition ensure_index :: "workload \<Rightarrow> workload" where
  "ensure_index e =
     (if wl_indexBuilt e then e
      else e\<lparr>wl_index := build_index (wl_indexKeys e), wl_indexBuilt := True, wl_indexCold := False\<rparr>)"

definition map_read :: "(int \<rightharpoonup> int) \<Rightarrow> int \<Rightarrow> int" where
  "map_read m k = (case m k of None \<Rightarrow> 0 | Some v \<Rightarrow> v)"

text \<open>The lookup loop: \<open>k\<close> calls made, \<open>s\<close> to go. \<open>Intn\<close> panics unless its argument is positive.\<close>

fun lookups :: "(nat \<Rightarrow> int \<Rightarrow> int) \<Rightarrow> int \<Rightarrow> (int \<rightharpoonup> int) \<Rightarrow> nat \<Rightarrow> nat \<Rightarrow> int \<Rightarrow> go_panic + int" where
  "lookups pick n index k 0 sink = Inr sink"
| "lookups pick n index k (Suc s) sink =
     (if n \<le> 0 then Inl PanicIntn
      else lookups pick n index (Suc k) s (wrap64 (sink + map_read index (pick k n))))"

text \<open>
  \<open>RunProfile\<close> returns the elapsed time, \<open>d\<close> here; the sum of the lookups, which the code only keeps
  alive, is returned beside it.
\<close>

definition RunProfile :: "(int \<Rightarrow> nat \<Rightarrow> int \<Rightarrow> int) \<Rightarrow> int \<Rightarrow> WorkloadProfile \<Rightarrow> workload \<Rightarrow>
    (go_panic + int \<times> int) \<times> workload" where
  "RunProfile intn d p e =
     (let e1 = ensure_index e
      in (res_bind (lookups (intn (wp_Seed p)) (wl_indexKeys e1) (wl_index e1) 0 (nat (wp_Samples p)) 0)
            (\<lambda>sink. Inr (d, sink)), e1))"

definition WarmProfile :: "(int \<Rightarrow> nat \<Rightarrow> int \<Rightarrow> int) \<Rightarrow> int \<Rightarrow> WorkloadProfile \<Rightarrow> workload \<Rightarrow>
    go_panic option \<times> workload" where
  "WarmProfile intn d p e =
     (case RunProfile intn d p e of
        (Inl x, e1) \<Rightarrow> (Some x, e1)
      | (Inr x, e1) \<Rightarrow> (None, e1))"

definition ResetCold :: "workload \<Rightarrow> workload" where
  "ResetCold e = e\<lparr>wl_index := Map.empty, wl_indexBuilt := False, wl_indexCold := True\<rparr>"

section \<open>Lemmas\<close>

definition intn_ok :: "(int \<Rightarrow> nat \<Rightarrow> int \<Rightarrow> int) \<Rightarrow> bool" where
  "intn_ok intn \<longleftrightarrow> (\<forall>seed k n. 0 < n \<longrightarrow> 0 \<le> intn seed k n \<and> intn seed k n < n)"

lemma fold_identity: "fold (\<lambda>i m. m(i \<mapsto> i)) is m k = (if k \<in> set is then Some k else m k)"
  by (induction "is" arbitrary: m) auto

lemma build_index_at: "build_index n k = (if 0 \<le> k \<and> k < n then Some k else None)"
  by (simp add: build_index_def fold_identity)

text \<open>The states a workload engine is ever in: cold and empty, or built and the identity.\<close>

definition wl_inv :: "workload \<Rightarrow> bool" where
  "wl_inv e \<longleftrightarrow> wl_indexCold e = (\<not> wl_indexBuilt e) \<and>
     wl_index e = (if wl_indexBuilt e then build_index (wl_indexKeys e) else Map.empty)"

datatype wl_event = WlRun int WorkloadProfile | WlWarm int WorkloadProfile | WlReset

fun wl_step :: "(int \<Rightarrow> nat \<Rightarrow> int \<Rightarrow> int) \<Rightarrow> wl_event \<Rightarrow> workload \<Rightarrow> workload" where
  "wl_step intn (WlRun d p) e = snd (RunProfile intn d p e)"
| "wl_step intn (WlWarm d p) e = snd (WarmProfile intn d p e)"
| "wl_step intn WlReset e = ResetCold e"

lemma snd_RunProfile [simp]: "snd (RunProfile intn d p e) = ensure_index e"
  by (simp add: RunProfile_def Let_def)

lemma snd_WarmProfile [simp]: "snd (WarmProfile intn d p e) = ensure_index e"
  using snd_RunProfile [of intn d p e]
  by (auto simp: WarmProfile_def simp del: snd_RunProfile split: prod.split sum.split)

lemma wl_inv_step: "wl_inv e \<Longrightarrow> wl_inv (wl_step intn ev e)"
  by (cases ev) (simp_all add: wl_inv_def ensure_index_def ResetCold_def)

interpretation wl: step_invariant "wl_step intn" wl_inv
  by unfold_locales (rule wl_inv_step)

lemma wl_keys_step: "wl_indexKeys (fold (wl_step intn) es e) = wl_indexKeys e"
proof (induction es arbitrary: e)
  case (Cons ev es)
  have "wl_indexKeys (wl_step intn ev e) = wl_indexKeys e"
    by (cases ev) (simp_all add: ensure_index_def ResetCold_def)
  then show ?case using Cons by simp
qed simp

text \<open>On the identity the lookups add up what the source picked.\<close>

lemma lookups_identity:
  assumes "0 < n" and "\<And>k. 0 \<le> pick k n \<and> pick k n < n"
  shows "lookups pick n (build_index n) k s (wrap64 a) = Inr (wrap64 (a + (\<Sum>i < s. pick (k + i) n)))"
proof (induction s arbitrary: k a)
  case (Suc s)
  have "map_read (build_index n) (pick k n) = pick k n"
    using assms(2) [of k] by (simp add: map_read_def build_index_at)
  then have "lookups pick n (build_index n) k (Suc s) (wrap64 a) =
      lookups pick n (build_index n) (Suc k) s (wrap64 (a + pick k n))"
    using assms(1) by simp
  also have "\<dots> = Inr (wrap64 (a + pick k n + (\<Sum>i < s. pick (Suc k + i) n)))"
    by (rule Suc.IH)
  also have "a + pick k n + (\<Sum>i < s. pick (Suc k + i) n) = a + (\<Sum>i<Suc s. pick (k + i) n)"
    by (subst sum.lessThan_Suc_shift) simp
  finally show ?case .
qed simp

text \<open>
  C28: whatever profiles ran and whatever resets happened before, a profile with a positive index size
  runs without a panic; its lookups sum exactly the keys that the seeded source picked (in 64 bits),
  so the result depends on the profile alone and not on whether the index was cold; afterwards the
  index is the identity on \<open>[0, indexKeys)\<close> and warm, and a second run changes nothing. A reset
  brings back the new engine. With \<open>indexKeys \<le> 0\<close> every profile with samples panics in \<open>Intn\<close>.
\<close>

theorem workload_profile:
  fixes es :: "wl_event list" and n :: int
  assumes "intn_ok intn"
  defines "e \<equiv> fold (wl_step intn) es (wl_New n)"
  shows "(0 < n \<longrightarrow>
      fst (RunProfile intn d p e) =
        Inr (d, wrap64 (\<Sum>i<nat (wp_Samples p). intn (wp_Seed p) i n)) \<and>
      (\<forall>k. wl_index (snd (RunProfile intn d p e)) k = (if 0 \<le> k \<and> k < n then Some k else None)) \<and>
      wl_SnapshotState (snd (RunProfile intn d p e)) = False \<and>
      snd (RunProfile intn d' p' (snd (RunProfile intn d p e))) = snd (RunProfile intn d p e)) \<and>
    (n \<le> 0 \<and> 0 < wp_Samples p \<longrightarrow> fst (RunProfile intn d p e) = Inl PanicIntn) \<and>
    ResetCold e = wl_New n"
proof (intro conjI impI allI)
  have inv: "wl_inv e"
    unfolding e_def by (rule wl.run_good) (simp add: wl_inv_def wl_New_def)
  have keys: "wl_indexKeys e = n"
    unfolding e_def wl_keys_step by (simp add: wl_New_def)
  have e1: "wl_index (ensure_index e) = build_index n" "wl_indexKeys (ensure_index e) = n"
    "wl_indexBuilt (ensure_index e)" "wl_indexCold (ensure_index e) = False"
    using inv keys by (simp_all add: wl_inv_def ensure_index_def)
  show "fst (RunProfile intn d p e) = Inr (d, wrap64 (\<Sum>i<nat (wp_Samples p). intn (wp_Seed p) i n))"
    if "0 < n"
    using lookups_identity [OF that, of "intn (wp_Seed p)" 0 "nat (wp_Samples p)" 0] assms(1) that
    by (simp add: RunProfile_def Let_def e1 intn_ok_def wrap64_def)
  show "wl_index (snd (RunProfile intn d p e)) k = (if 0 \<le> k \<and> k < n then Some k else None)" for k
    by (simp add: e1 build_index_at)
  show "wl_SnapshotState (snd (RunProfile intn d p e)) = False"
    by (simp add: wl_SnapshotState_def e1)
  show "snd (RunProfile intn d' p' (snd (RunProfile intn d p e))) = snd (RunProfile intn d p e)"
    using e1(3) by (simp add: ensure_index_def [of "ensure_index e"])
  show "fst (RunProfile intn d p e) = Inl PanicIntn" if panic: "n \<le> 0 \<and> 0 < wp_Samples p"
  proof -
    obtain s where "nat (wp_Samples p) = Suc s"
      using panic by (cases "nat (wp_Samples p)") auto
    then show ?thesis using panic by (simp add: RunProfile_def Let_def e1)
  qed
  show "ResetCold e = wl_New n"
    using keys by (simp add: ResetCold_def wl_New_def)
qed

theorem workload_profile_witness:
  "intn_ok (\<lambda>seed k n. (seed + int k) mod n) \<and>
   fst (RunProfile (\<lambda>seed k n. (seed + int k) mod n) 9 \<lparr>wp_Seed = 1, wp_Samples = 3\<rparr>
     (fold (wl_step (\<lambda>seed k n. (seed + int k) mod n)) [WlReset] (wl_New 3))) = Inr (9, 3)"
proof -
  have ok: "intn_ok (\<lambda>seed k n. (seed + int k) mod n)"
    by (simp add: intn_ok_def)
  have "(\<Sum>i<3. (1 + int i) mod 3) = 3"
    by (simp add: numeral_eq_Suc)
  then show ?thesis
    using workload_profile [OF ok, where n = 3 and p = "\<lparr>wp_Seed = 1, wp_Samples = 3\<rparr>" and d = 9
        and es = "[WlReset]"] ok by (simp add: wrap64_def)
qed

end
