(* ===== verification/HttpServer.thy ===== *)
theory HttpServer
  imports Engine Workload GoParse
begin

text \<open>
  LoadedService/internal/httpserver/server.go: the HTTP interface of an instance, which puts the
  workload behind the shadow middleware of the engine. A handler that panics has no response; the
  panic passes through the middleware. Bodies are kept as the values that are encoded.
\<close>

section \<open>State and replies\<close>

record 's server =
  sv_role :: string
  sv_work :: workload
  sv_wk :: "'s engine option"

datatype sv_error = ParamsRequired | ScanFailed scan_error | BadJson | ResetFailed reg_error

datatype sv_body =
    TextBody string
  | DurationNs int
  | StatusWord string
  | StateBody bool "MetricsSnapshot option"
  | ErrorBody sv_error

type_synonym sv_reply = "int \<times> sv_body"

text \<open>\<open>New\<close>; its routes are in \<open>sv_mux\<close> and its middleware in \<open>serve\<close>.\<close>

definition sv_New :: "string \<Rightarrow> workload \<Rightarrow> 's engine option \<Rightarrow> 's server" where
  "sv_New role work wk = \<lparr>sv_role = role, sv_work = work, sv_wk = wk\<rparr>"

section \<open>Handlers\<close>

definition parseInt64 :: "string \<Rightarrow> sv_error + int" where
  "parseInt64 s = (case scan_int s of Inl e \<Rightarrow> Inl (ScanFailed e) | Inr v \<Rightarrow> Inr v)"

definition parseInt :: "string \<Rightarrow> sv_error + int" where
  "parseInt s = (case scan_int s of Inl e \<Rightarrow> Inl (ScanFailed e) | Inr v \<Rightarrow> Inr v)"

definition parseProfile :: "http_request \<Rightarrow> sv_error + WorkloadProfile" where
  "parseProfile r =
     (let seedStr = query_Get (rq_RawQuery r) ''seed''; samplesStr = query_Get (rq_RawQuery r) ''samples''
      in if seedStr = [] \<or> samplesStr = [] then Inl ParamsRequired
         else res_bind (parseInt64 seedStr) (\<lambda>seed.
                res_bind (parseInt samplesStr) (\<lambda>samples. Inr \<lparr>wp_Seed = seed, wp_Samples = samples\<rparr>)))"

definition handleHealth :: sv_reply where
  "handleHealth = (StatusOK, TextBody ''ok'')"

definition handleWork :: "(int \<Rightarrow> nat \<Rightarrow> int \<Rightarrow> int) \<Rightarrow> int \<Rightarrow> http_request \<Rightarrow> 's server \<Rightarrow>
    (go_panic + sv_reply) \<times> 's server" where
  "handleWork intn d r sv =
     (case parseProfile r of
        Inl e \<Rightarrow> (Inr (StatusBadRequest, ErrorBody e), sv)
      | Inr p \<Rightarrow>
          (case RunProfile intn d p (sv_work sv) of
             (Inl x, w) \<Rightarrow> (Inl x, sv\<lparr>sv_work := w\<rparr>)
           | (Inr (ns, sink), w) \<Rightarrow> (Inr (StatusOK, DurationNs ns), sv\<lparr>sv_work := w\<rparr>)))"

text \<open>\<open>dec\<close> decodes the body; one that cannot be read is answered like one that cannot be decoded.\<close>

definition handleWarmup :: "(int \<Rightarrow> nat \<Rightarrow> int \<Rightarrow> int) \<Rightarrow> (string \<Rightarrow> WorkloadProfile option) \<Rightarrow> int \<Rightarrow> http_request \<Rightarrow>
    's server \<Rightarrow> (go_panic + sv_reply) \<times> 's server" where
  "handleWarmup intn dec d r sv =
     (case dec (rq_Body r) of
        None \<Rightarrow> (Inr (StatusBadRequest, ErrorBody BadJson), sv)
      | Some p \<Rightarrow>
          (case WarmProfile intn d p (sv_work sv) of
             (Some x, w) \<Rightarrow> (Inl x, sv\<lparr>sv_work := w\<rparr>)
           | (None, w) \<Rightarrow> (Inr (StatusOK, StatusWord ''warmed''), sv\<lparr>sv_work := w\<rparr>)))"

definition handleReset :: "'s registry_ops \<Rightarrow> 's server \<Rightarrow> sv_reply \<times> 's server" where
  "handleReset ops sv =
     (let sv1 = sv\<lparr>sv_work := ResetCold (sv_work sv)\<rparr>
      in case sv_wk sv1 of
           None \<Rightarrow> ((StatusOK, StatusWord ''reset''), sv1)
         | Some e \<Rightarrow>
             (case ResetBenchmark ops e of
                (Some err, e1) \<Rightarrow> ((StatusInternalServerError, ErrorBody (ResetFailed err)), sv1\<lparr>sv_wk := Some e1\<rparr>)
              | (None, e1) \<Rightarrow> ((StatusOK, StatusWord ''reset''), sv1\<lparr>sv_wk := Some e1\<rparr>)))"

definition handleState :: "'s server \<Rightarrow> go_panic + sv_reply" where
  "handleState sv =
     (case sv_wk sv of
        None \<Rightarrow> Inr (StatusOK, StateBody (wl_SnapshotState (sv_work sv)) None)
      | Some e \<Rightarrow> res_bind (Snapshot e) (\<lambda>m. Inr (StatusOK, StateBody (wl_SnapshotState (sv_work sv)) (Some m))))"

text \<open>The routes, for a clean path: a pattern with \<open>GET\<close> also takes \<open>HEAD\<close>; another method on a known path gives 405.\<close>

definition sv_reads :: "string \<Rightarrow> bool" where
  "sv_reads m \<longleftrightarrow> m = MethodGet \<or> m = ''HEAD''"

definition sv_mux :: "'s registry_ops \<Rightarrow> (int \<Rightarrow> nat \<Rightarrow> int \<Rightarrow> int) \<Rightarrow> (string \<Rightarrow> WorkloadProfile option) \<Rightarrow> int \<Rightarrow>
    http_request \<Rightarrow> 's server \<Rightarrow> (go_panic + sv_reply) \<times> 's server" where
  "sv_mux ops intn dec d r sv =
     (let m = rq_Method r; path = rq_Path r; refuse = (Inr (StatusMethodNotAllowed, TextBody ''Method Not Allowed''), sv)
      in if path = ''/healthz'' then (if sv_reads m then (Inr handleHealth, sv) else refuse)
         else if path = ''/readyz'' \<and> sv_role sv = ''warmup'' \<and> sv_wk sv \<noteq> None then
           (if sv_reads m
            then (let resp = ReadinessHandler (the (sv_wk sv)) in (Inr (rs_Status resp, TextBody (rs_Body resp)), sv))
            else refuse)
         else if path = ''/work'' then (if sv_reads m then handleWork intn d r sv else refuse)
         else if path = ''/warmup'' then (if m = MethodPost then handleWarmup intn dec d r sv else refuse)
         else if path = ''/reset'' then
           (if m = MethodPost then (case handleReset ops sv of (rep, sv1) \<Rightarrow> (Inr rep, sv1)) else refuse)
         else if path = ''/state'' then (if sv_reads m then (handleState sv, sv) else refuse)
         else (Inr (StatusNotFound, TextBody ''404 page not found''), sv))"

section \<open>The middleware around the routes\<close>

text \<open>
  \<open>ShadowMiddleware\<close> in the two parts before and after the inner handler, which here has a state of its
  own and may panic.
\<close>

definition shadow_begin :: "'s registry_ops \<Rightarrow> 's engine \<Rightarrow> 's engine" where
  "shadow_begin ops e = (if en_State e = StateRegistered then enter ops StateWarming e else e)"

definition shadow_end :: "'s registry_ops \<Rightarrow> int \<Rightarrow> 's engine \<Rightarrow> go_panic option \<times> 's engine" where
  "shadow_end ops d e =
     (case Record d (en_shadow e) of
        (Some p, sm) \<Rightarrow> (Some p, e\<lparr>en_shadow := sm\<rparr>)
      | (None, sm) \<Rightarrow>
          (let e2 = e\<lparr>en_shadow := sm\<rparr>
           in (None, if cf_ReadyAfter (en_cfg e2) \<le> Count (en_shadow e2) \<and> en_State e2 = StateWarming
                     then enter ops StateReady e2 else e2)))"

lemma ShadowMiddleware_phases:
  "ShadowMiddleware ops app d r e =
     (if \<not> IsShadowRequest r then (Inr (app r), e)
      else if rq_Method r \<noteq> MethodGet then (Inr forbidden, e)
      else case shadow_end ops d (shadow_begin ops e) of
        (Some p, e1) \<Rightarrow> (Inl p, e1) | (None, e1) \<Rightarrow> (Inr (app r), e1))"
  by (simp add: ShadowMiddleware_def shadow_begin_def shadow_end_def Let_def split: prod.split option.split)

text \<open>\<open>d\<close> is the duration the workload reports, \<open>lat\<close> the latency the middleware measures.\<close>

definition serve :: "'s registry_ops \<Rightarrow> (int \<Rightarrow> nat \<Rightarrow> int \<Rightarrow> int) \<Rightarrow> (string \<Rightarrow> WorkloadProfile option) \<Rightarrow> int \<Rightarrow> int \<Rightarrow>
    http_request \<Rightarrow> 's server \<Rightarrow> (go_panic + sv_reply) \<times> 's server" where
  "serve ops intn dec d lat r sv =
     (case sv_wk sv of
        None \<Rightarrow> sv_mux ops intn dec d r sv
      | Some e \<Rightarrow>
          if \<not> IsShadowRequest r then sv_mux ops intn dec d r sv
          else if rq_Method r \<noteq> MethodGet then (Inr (StatusForbidden, TextBody ''shadow mutations forbidden''), sv)
          else case sv_mux ops intn dec d r (sv\<lparr>sv_wk := Some (shadow_begin ops e)\<rparr>) of
            (Inl p, sv2) \<Rightarrow> (Inl p, sv2)
          | (Inr resp, sv2) \<Rightarrow>
              (case shadow_end ops lat (the (sv_wk sv2)) of
                 (Some p, e3) \<Rightarrow> (Inl p, sv2\<lparr>sv_wk := Some e3\<rparr>)
               | (None, e3) \<Rightarrow> (Inr resp, sv2\<lparr>sv_wk := Some e3\<rparr>)))"

section \<open>What the routes touch\<close>

definition is_reset :: "http_request \<Rightarrow> bool" where
  "is_reset r \<longleftrightarrow> rq_Method r = MethodPost \<and> rq_Path r = ''/reset''"

lemma RunProfile_state: "RunProfile intn d p e = (res, w) \<Longrightarrow> w = ensure_index e"
  using snd_RunProfile [of intn d p e] by simp

lemma handleWork_wk [simp]:
  "sv_wk (snd (handleWork intn d r sv)) = sv_wk sv" "sv_role (snd (handleWork intn d r sv)) = sv_role sv"
  "sv_work (snd (handleWork intn d r sv)) = (if is_ok (parseProfile r) then ensure_index (sv_work sv) else sv_work sv)"
  by (auto simp: handleWork_def dest: RunProfile_state split: sum.split prod.split)

lemma handleWarmup_wk [simp]:
  "sv_wk (snd (handleWarmup intn dec d r sv)) = sv_wk sv" "sv_role (snd (handleWarmup intn dec d r sv)) = sv_role sv"
  by (auto simp: handleWarmup_def split: option.split prod.split)

lemma handleReset_wk [simp]:
  "sv_wk (snd (handleReset ops sv)) = map_option (\<lambda>e. snd (ResetBenchmark ops e)) (sv_wk sv)"
  "sv_work (snd (handleReset ops sv)) = ResetCold (sv_work sv)" "sv_role (snd (handleReset ops sv)) = sv_role sv"
  by (auto simp: handleReset_def Let_def split: option.split prod.split)

lemma mux_wk:
  "sv_wk (snd (sv_mux ops intn dec d r sv)) =
     (if is_reset r then map_option (\<lambda>e. snd (ResetBenchmark ops e)) (sv_wk sv) else sv_wk sv)"
  by (auto simp: sv_mux_def Let_def is_reset_def split: prod.split) (metis handleReset_wk(1) snd_conv)+

lemma mux_role: "sv_role (snd (sv_mux ops intn dec d r sv)) = sv_role sv"
  by (auto simp: sv_mux_def Let_def split: prod.split) (metis handleReset_wk(3) snd_conv)+

text \<open>The engine after a request\<close>

lemma serve_wk:
  assumes "sv_wk sv = Some e"
  shows "sv_wk (snd (serve ops intn dec d lat r sv)) =
    Some (if shadow_get r then
            (case fst (sv_mux ops intn dec d r (sv\<lparr>sv_wk := Some (shadow_begin ops e)\<rparr>)) of
               Inl p \<Rightarrow> shadow_begin ops e
             | Inr resp \<Rightarrow> snd (shadow_end ops lat (shadow_begin ops e)))
          else if \<not> IsShadowRequest r \<and> is_reset r then snd (ResetBenchmark ops e) else e)"
proof (cases "shadow_get r")
  case True
  let ?sv = "sv\<lparr>sv_wk := Some (shadow_begin ops e)\<rparr>"
  have "\<not> is_reset r"
    using True by (auto simp: shadow_get_def is_reset_def MethodGet_def MethodPost_def)
  then have "sv_wk (snd (sv_mux ops intn dec d r ?sv)) = Some (shadow_begin ops e)"
    by (simp add: mux_wk)
  then show ?thesis
    using True assms
    by (cases "sv_mux ops intn dec d r ?sv")
      (auto simp: serve_def shadow_get_def split: sum.split prod.split option.split)
next
  case False
  then show ?thesis
    using assms mux_wk [of ops intn dec d r sv] by (auto simp: serve_def shadow_get_def)
qed

end
