(* ===== verification/ServerProps.thy ===== *)
theory ServerProps
  imports HttpServer
begin

text \<open>
  Properties of an instance's HTTP interface (LoadedService/internal/httpserver/server.go): what its
  requests can change, how profiles are read, and what its readiness means.
\<close>

section \<open>Reading a profile\<close>

text \<open>The query of a profile as the benchmark's clients write it\<close>

definition profile_query :: "WorkloadProfile \<Rightarrow> string" where
  "profile_query p = ''seed='' @ show_int (wp_Seed p) @ ''&samples='' @ show_int (wp_Samples p)"

lemma query_Get_profile:
  assumes "rq_RawQuery r = profile_query p"
  shows "query_Get (rq_RawQuery r) ''seed'' = show_int (wp_Seed p)"
    and "query_Get (rq_RawQuery r) ''samples'' = show_int (wp_Samples p)"
proof -
  let ?a = "''seed'' @ CHR ''='' # show_int (wp_Seed p)" and ?b = "''samples'' @ CHR ''='' # show_int (wp_Samples p)"
  have "CHR ''&'' \<notin> set ?a" "CHR ''&'' \<notin> set ?b"
    using show_int_plain [of "CHR ''&''"] by auto
  then have "Split (CHR ''&'') (?a @ CHR ''&'' # ?b) = [?a, ?b]"
    by (simp only: Split_prefix [of _ ?a ?b] Split_single [of _ ?b] not_False_eq_True)
  moreover have "profile_query p = ?a @ CHR ''&'' # ?b"
    by (simp add: profile_query_def)
  moreover have "query_pair ?a = Some (''seed'', show_int (wp_Seed p))"
    "query_pair ?b = Some (''samples'', show_int (wp_Samples p))"
    by (rule query_pair_plain; use show_int_plain in auto)+
  ultimately have "ParseQuery (rq_RawQuery r) =
      [(''seed'', show_int (wp_Seed p)), (''samples'', show_int (wp_Samples p))]"
    by (simp only: assms ParseQuery_def List.map_filter_simps option.case list.simps)
  then show "query_Get (rq_RawQuery r) ''seed'' = show_int (wp_Seed p)"
    "query_Get (rq_RawQuery r) ''samples'' = show_int (wp_Samples p)"
    by (simp_all add: query_Get_def)
qed

text \<open>
  A profile written into a query with decimal numbers is read back as itself, for all 64-bit
  seeds and sample counts; a request without one of the two parameters is refused.
\<close>

theorem profile_roundtrip:
  assumes "in_i64 (wp_Seed p)" and "in_i64 (wp_Samples p)" and "rq_RawQuery r = profile_query p"
  shows "parseProfile r = Inr p \<and>
    parseProfile (r\<lparr>rq_RawQuery := ''seed='' @ show_int (wp_Seed p)\<rparr>) = Inl ParamsRequired"
proof -
  let ?a = "''seed'' @ CHR ''='' # show_int (wp_Seed p)"
  have ne: "show_int k \<noteq> []" for k
    using show_nat_head [of "nat \<bar>k\<bar>"] by (auto simp: show_int_def)
  have "parseProfile r = Inr p"
    using assms(1,2) ne
    by (simp add: parseProfile_def query_Get_profile [OF assms(3)] parseInt64_def parseInt_def scan_int_show_int)
  moreover have "CHR ''&'' \<notin> set ?a"
    using show_int_plain [of "CHR ''&''"] by auto
  then have "Split (CHR ''&'') ?a = [?a]"
    by (rule Split_single)
  moreover have "query_pair ?a = Some (''seed'', show_int (wp_Seed p))"
    by (rule query_pair_plain; use show_int_plain in auto)
  ultimately show ?thesis
    by (simp add: parseProfile_def query_Get_def ParseQuery_def List.map_filter_simps)
qed

theorem profile_roundtrip_witness:
  "parseProfile (shadow_request\<lparr>rq_RawQuery := profile_query \<lparr>wp_Seed = -7, wp_Samples = 100\<rparr>\<rparr>) =
    Inr \<lparr>wp_Seed = -7, wp_Samples = 100\<rparr>"
proof -
  have "in_i64 (wp_Seed \<lparr>wp_Seed = -7, wp_Samples = 100\<rparr>)" "in_i64 (wp_Samples \<lparr>wp_Seed = -7, wp_Samples = 100\<rparr>)"
    by (simp_all add: in_i64_def)
  from profile_roundtrip [OF this, of "shadow_request\<lparr>rq_RawQuery := profile_query \<lparr>wp_Seed = -7, wp_Samples = 100\<rparr>\<rparr>"]
  show ?thesis by simp
qed

section \<open>What a request can change\<close>

lemma sv_work_update [simp]: "sv_work (sv\<lparr>sv_wk := x\<rparr>) = sv_work sv"
  by simp

lemma mux_get_work:
  assumes "rq_Method r = MethodGet"
  shows "sv_work (snd (sv_mux ops intn dec d r sv)) =
    (if rq_Path r = ''/work'' \<and> is_ok (parseProfile r) then ensure_index (sv_work sv) else sv_work sv)"
proof (cases "rq_Path r = ''/work''")
  case True
  then show ?thesis
    using assms handleWork_wk(3) [of intn d r sv] by (simp add: sv_mux_def sv_reads_def Let_def)
next
  case False
  then show ?thesis
    using assms by (simp add: sv_mux_def sv_reads_def MethodGet_def MethodPost_def Let_def)
qed

lemma serve_shadow_work:
  assumes "sv_wk sv = Some e" "shadow_get r"
  shows "sv_work (snd (serve ops intn dec d lat r sv)) =
    (if rq_Path r = ''/work'' \<and> is_ok (parseProfile r) then ensure_index (sv_work sv) else sv_work sv)"
proof -
  let ?sv = "sv\<lparr>sv_wk := Some (shadow_begin ops e)\<rparr>"
  have "sv_work (snd (serve ops intn dec d lat r sv)) = sv_work (snd (sv_mux ops intn dec d r ?sv))"
    using assms by (cases "sv_mux ops intn dec d r ?sv")
      (auto simp: serve_def shadow_get_def split: sum.split prod.split option.split)
  then show ?thesis
    using mux_get_work [of r ops intn dec d ?sv] assms(2) by (simp add: shadow_get_def)
qed

text \<open>
  C20: shadow traffic is confined. On an instance with an engine a marked request of any method but GET
  is answered with 403 and changes nothing; a marked GET changes of the workload at most its index, and
  that only on \<open>/work\<close> with a readable profile; and an unmarked request leaves the engine as it is,
  unless it is a reset.
\<close>

theorem shadow_confined:
  assumes "sv_wk sv = Some e"
  shows "(IsShadowRequest r \<and> rq_Method r \<noteq> ''GET'' \<longrightarrow>
      serve ops intn dec d lat r sv = (Inr (403, TextBody ''shadow mutations forbidden''), sv)) \<and>
    (shadow_get r \<longrightarrow> sv_work (snd (serve ops intn dec d lat r sv)) =
      (if rq_Path r = ''/work'' \<and> is_ok (parseProfile r) then ensure_index (sv_work sv) else sv_work sv)) \<and>
    (\<not> IsShadowRequest r \<and> \<not> is_reset r \<longrightarrow> sv_wk (snd (serve ops intn dec d lat r sv)) = Some e)"
  using assms serve_shadow_work [OF assms] serve_wk [OF assms, of ops intn dec d lat r]
  by (auto simp: serve_def MethodGet_def shadow_get_def)

definition sample_engine :: "Config \<Rightarrow> MemoryRegistry engine" where
  "sample_engine cfg = snd (Start memory_ops 1 (NewEngine cfg NewMemoryRegistry))"

definition sample_intn :: "int \<Rightarrow> nat \<Rightarrow> int \<Rightarrow> int" where
  "sample_intn seed k n = (seed + int k) mod n"

definition sample_server :: "int \<Rightarrow> MemoryRegistry server" where
  "sample_server keys = sv_New ''warmup'' (wl_New keys) (Some (sample_engine sample_cfg))"

theorem shadow_confined_witness:
  "serve memory_ops sample_intn (\<lambda>_. None) 1 1 (shadow_request\<lparr>rq_Method := MethodPost\<rparr>) (sample_server 3) =
    (Inr (403, TextBody ''shadow mutations forbidden''), sample_server 3)"
proof -
  have "sv_wk (sample_server 3) = Some (sample_engine sample_cfg)"
    by (simp add: sample_server_def sv_New_def)
  moreover have "IsShadowRequest (shadow_request\<lparr>rq_Method := MethodPost\<rparr>) \<and>
      rq_Method (shadow_request\<lparr>rq_Method := MethodPost\<rparr>) \<noteq> ''GET''"
    by (simp add: IsShadowRequest_def shadow_request_def MethodPost_def)
  ultimately show ?thesis
    using shadow_confined by blast
qed

section \<open>Readiness over the server's life\<close>

text \<open>
  The life of a server with its engine: requests, each with the two durations, and the events of the
  engine's goroutine.
\<close>

datatype sv_event = SvRequest http_request int int | SvEngine eng_event

fun goroutine_event :: "eng_event \<Rightarrow> bool" where
  "goroutine_event (EvRequest r d) = False"
| "goroutine_event EvReset = False"
| "goroutine_event ev = True"

definition no_app :: "http_request \<Rightarrow> http_response" where
  "no_app r = \<lparr>rs_Status = StatusOK, rs_Body = []\<rparr>"

fun sv_step :: "'s registry_ops \<Rightarrow> (int \<Rightarrow> nat \<Rightarrow> int \<Rightarrow> int) \<Rightarrow> (string \<Rightarrow> WorkloadProfile option) \<Rightarrow> sv_event \<Rightarrow>
    's server \<Rightarrow> 's server" where
  "sv_step ops intn dec (SvRequest r d lat) sv = snd (serve ops intn dec d lat r sv)"
| "sv_step ops intn dec (SvEngine ev) sv =
     (if goroutine_event ev then sv\<lparr>sv_wk := map_option (engine_step ops no_app ev) (sv_wk sv)\<rparr> else sv)"

text \<open>The marked GET requests since the last unmarked reset\<close>

fun sv_gets :: "int \<Rightarrow> sv_event list \<Rightarrow> int" where
  "sv_gets n [] = n"
| "sv_gets n (SvRequest r d lat # es) =
     sv_gets (if shadow_get r then n + 1 else if \<not> IsShadowRequest r \<and> is_reset r then 0 else n) es"
| "sv_gets n (SvEngine ev # es) = sv_gets n es"

definition sv_good :: "Config \<Rightarrow> 's server \<Rightarrow> bool" where
  "sv_good cfg sv \<longleftrightarrow> (\<exists>e. sv_wk sv = Some e \<and> en_good cfg e)"

definition sv_count :: "'s server \<Rightarrow> int" where
  "sv_count sv = (case sv_wk sv of None \<Rightarrow> 0 | Some e \<Rightarrow> en_count e)"

lemma shadow_begin_simps [simp]:
  "en_cfg (shadow_begin ops e) = en_cfg e" "en_count (shadow_begin ops e) = en_count e"
  "en_State (shadow_begin ops e) = (if en_State e = StateRegistered then StateWarming else en_State e)"
  by (simp_all add: shadow_begin_def)

lemma shadow_get_marked: "shadow_get r \<Longrightarrow> IsShadowRequest r"
  by (simp add: shadow_get_def)

lemma serve_engine_step:
  assumes "sv_wk sv = Some e" "cf_Role (en_cfg e) = ''warmup''"
  shows "\<exists>e'. sv_wk (snd (serve ops intn dec d lat r sv)) = Some e' \<and>
    (e' = engine_step ops no_app (EvRequest r lat) e \<or> e' = e \<and> \<not> shadow_get r \<or>
     e' = shadow_begin ops e \<or> e' = engine_step ops no_app EvReset e \<and> \<not> IsShadowRequest r \<and> is_reset r)"
proof -
  have "snd (shadow_end ops lat (shadow_begin ops e)) = engine_step ops no_app (EvRequest r lat) e" if "shadow_get r"
    using that by (auto simp: ShadowMiddleware_phases shadow_get_def split: prod.split option.split)
  then show ?thesis
    using serve_wk [OF assms(1), of ops intn dec d lat r] by (auto split: sum.split)
qed

lemma sv_good_step:
  assumes "sv_good cfg sv" "sv_count sv < 2 ^ 63 - 1"
  shows "sv_good cfg (sv_step ops intn dec ev sv)"
    and "sv_count (sv_step ops intn dec ev sv) \<le> sv_gets (sv_count sv) [ev]"
proof -
  obtain e where e: "sv_wk sv = Some e" "en_good cfg e"
    using assms(1) by (auto simp: sv_good_def)
  have b: "en_count e < 2 ^ 63 - 1"
    using assms(2) e(1) by (simp add: sv_count_def)
  have role: "cf_Role (en_cfg e) = ''warmup''"
    using e(2) by (simp add: en_good_def)
  have begin_good: "en_good cfg (shadow_begin ops e)"
    using e(2) by (auto simp: en_good_def)
  have "sv_good cfg (sv_step ops intn dec ev sv) \<and>
    sv_count (sv_step ops intn dec ev sv) \<le> sv_gets (sv_count sv) [ev]"
  proof (cases ev)
    case (SvRequest r d lat)
    obtain e' where e': "sv_wk (snd (serve ops intn dec d lat r sv)) = Some e'"
      "e' = engine_step ops no_app (EvRequest r lat) e \<or> e' = e \<and> \<not> shadow_get r \<or>
       e' = shadow_begin ops e \<or> e' = engine_step ops no_app EvReset e \<and> \<not> IsShadowRequest r \<and> is_reset r"
      using serve_engine_step [OF e(1) role] by blast
    have once: "en_count (snd (ShadowMiddleware ops no_app lat r e)) \<le> en_count e + 1"
      using en_good_step(2) [OF e(2) b, of ops no_app "EvRequest r lat"] by simp
    have "en_good cfg e'"
      using e'(2) e(2) begin_good en_good_step(1) [OF e(2) b] by metis
    moreover have "en_count e' \<le> sv_gets (en_count e) [SvRequest r d lat]"
      using e'(2) once serve_count [of ops no_app lat r e] role
        serve_wk [OF e(1), of ops intn dec d lat r] e'(1)
      by (cases "shadow_get r") (auto simp: reset_count dest: shadow_get_marked)
    ultimately show ?thesis
      using SvRequest e(1) e'(1) by (simp add: sv_good_def sv_count_def)
  next
    case (SvEngine gev)
    have "en_count (engine_step ops no_app gev e) = en_count e" if "goroutine_event gev"
      using step_count [OF role, of ops no_app gev] that by (cases gev) simp_all
    then show ?thesis
      using SvEngine e en_good_step(1) [OF e(2) b, of ops no_app gev] by (auto simp: sv_good_def sv_count_def)
  qed
  then show "sv_good cfg (sv_step ops intn dec ev sv)"
    "sv_count (sv_step ops intn dec ev sv) \<le> sv_gets (sv_count sv) [ev]" by simp_all
qed

lemma sv_run:
  assumes "sv_good cfg sv" "sv_count sv \<le> n" "n + int (length es) \<le> 2 ^ 63 - 1"
  shows "sv_good cfg (fold (sv_step ops intn dec) es sv) \<and> sv_count (fold (sv_step ops intn dec) es sv) \<le> sv_gets n es"
  using assms
proof (induction es arbitrary: sv n)
  case (Cons ev es)
  let ?sv = "sv_step ops intn dec ev sv" and ?n = "sv_gets n [ev]"
  have n0: "0 \<le> n"
    using Cons.prems(1,2) by (auto simp: sv_good_def sv_count_def en_good_def)
  have "sv_count sv < 2 ^ 63 - 1"
    using Cons.prems(2,3) by simp
  then have step: "sv_good cfg ?sv" "sv_count ?sv \<le> sv_gets (sv_count sv) [ev]"
    by (rule sv_good_step [OF Cons.prems(1)])+
  moreover have "sv_gets (sv_count sv) [ev] \<le> ?n" "?n \<le> n + 1"
    using Cons.prems(2) n0 by (cases ev; simp)+
  ultimately have "sv_count ?sv \<le> ?n" "?n + int (length es) \<le> 2 ^ 63 - 1"
    using Cons.prems(3) by simp_all
  from Cons.IH [OF step(1) this] have ih: "sv_good cfg (fold (sv_step ops intn dec) es ?sv) \<and>
      sv_count (fold (sv_step ops intn dec) es ?sv) \<le> sv_gets ?n es" .
  have "sv_gets n (ev # es) = sv_gets ?n es"
    by (cases ev) simp_all
  then show ?case using ih by simp
qed simp

definition readyz :: http_request where
  "readyz = \<lparr>rq_Method = MethodGet, rq_Path = ''/readyz'', rq_RawQuery = [], rq_Header = Map.empty, rq_Body = []\<rparr>"

lemma serve_readyz:
  assumes "sv_wk sv = Some e" "sv_role sv = ''warmup''"
  shows "serve ops intn dec d lat readyz sv =
    (Inr (rs_Status (ReadinessHandler e), TextBody (rs_Body (ReadinessHandler e))), sv)"
  using assms by (simp add: serve_def sv_mux_def readyz_def IsShadowRequest_def header_Get_def HeaderShadow_def
      ShadowValue_def sv_reads_def Let_def)

lemma serve_role: "sv_role (snd (serve ops intn dec d lat r sv)) = sv_role sv"
proof (cases "sv_wk sv")
  case None
  then show ?thesis by (simp add: serve_def mux_role)
next
  case (Some e)
  then show ?thesis
    using mux_role [of ops intn dec d r sv] mux_role [of ops intn dec d r "sv\<lparr>sv_wk := Some (shadow_begin ops e)\<rparr>"]
    by (auto simp: serve_def split: prod.split sum.split option.split)
qed

lemma sv_role_run: "sv_role (fold (sv_step ops intn dec) es sv) = sv_role sv"
proof (induction es arbitrary: sv)
  case (Cons ev es)
  have "sv_role (sv_step ops intn dec ev sv) = sv_role sv"
    by (cases ev) (simp_all add: serve_role)
  then show ?case using Cons by simp
qed simp

text \<open>
  C8: a server whose \<open>/readyz\<close> answers 200 has received at least \<open>ReadyAfter\<close> marked GET requests since
  its start or the last reset, whatever requests it served, whichever of them panicked, and however
  the engine's goroutine ran beside them.
\<close>

theorem server_ready_means_warmed:
  assumes "cf_Role cfg = ''warmup''" and "Start ops now (NewEngine cfg reg) = (None, e0)"
    and "int (length es) < 2 ^ 63"
    and "sv = fold (sv_step ops intn dec) es (sv_New ''warmup'' work (Some e0))"
    and "fst (serve ops intn dec d lat readyz sv) = Inr (200, body)"
  shows "cf_ReadyAfter cfg \<le> sv_gets 0 es"
proof -
  let ?sv0 = "sv_New ''warmup'' work (Some e0)"
  have "sv_good cfg ?sv0" "sv_count ?sv0 \<le> 0"
    using en_good_start [OF assms(2,1)] Start_warmup(3) [OF assms(2,1)] by (simp_all add: sv_good_def sv_count_def sv_New_def)
  from sv_run [OF this, of es ops intn dec] have run: "sv_good cfg sv" "sv_count sv \<le> sv_gets 0 es"
    using assms(3,4) by simp_all
  obtain e where e: "sv_wk sv = Some e" "en_good cfg e"
    using run(1) by (auto simp: sv_good_def)
  have role: "sv_role sv = ''warmup''"
    by (simp add: assms(4) sv_role_run sv_New_def)
  have "rs_Status (ReadinessHandler e) = 200"
    using assms(5) by (simp add: serve_readyz [OF e(1) role])
  then have "cf_ReadyAfter cfg \<le> en_count e"
    using e(2) by (auto simp: ReadinessHandler_def en_good_def Let_def split: if_splits)
  then show ?thesis
    using run(2) e(1) by (simp add: sv_count_def)
qed

section \<open>Requests that count and requests that do not\<close>

lemma serve_ok_step:
  assumes "sv_wk sv = Some e" "shadow_get r"
    and "fst (sv_mux ops intn dec d r (sv\<lparr>sv_wk := Some (shadow_begin ops e)\<rparr>)) = Inr resp"
  shows "sv_wk (snd (serve ops intn dec d lat r sv)) = Some (engine_step ops no_app (EvRequest r lat) e)"
  using serve_wk [OF assms(1), of ops intn dec d lat r] assms(2,3)
  by (auto simp: ShadowMiddleware_phases shadow_get_def split: prod.split option.split)

definition nowhere :: http_request where
  "nowhere = shadow_request\<lparr>rq_Path := ''/nowhere''\<rparr>"

lemma nowhere_simps [simp]: "shadow_get nowhere" "rq_Path nowhere = ''/nowhere''"
  by (simp_all add: nowhere_def shadow_get_def IsShadowRequest_def shadow_request_def)

lemma mux_nowhere: "sv_mux ops intn dec d nowhere sv = (Inr (404, TextBody ''404 page not found''), sv)"
  by (simp add: sv_mux_def Let_def)

lemma nowhere_run:
  assumes "progress_inv cfg 0 e0" "0 \<le> cf_ShadowMetricsKeep cfg" "cf_ShadowMetricsKeep cfg < 2 ^ 62" "int n < 2 ^ 62"
  shows "\<exists>e. fold (sv_step ops intn dec) (replicate n (SvRequest nowhere d lat)) (sv_New ''warmup'' work (Some e0)) =
    sv_New ''warmup'' work (Some e) \<and> progress_inv cfg n e"
  using assms(4)
proof (induction n)
  case (Suc n)
  then obtain e where e: "fold (sv_step ops intn dec) (replicate n (SvRequest nowhere d lat)) (sv_New ''warmup'' work (Some e0)) =
    sv_New ''warmup'' work (Some e)" "progress_inv cfg n e" by auto
  let ?sv = "sv_New ''warmup'' work (Some e)"
  have wk: "sv_wk ?sv = Some e" by (simp add: sv_New_def)
  have "sv_wk (sv_step ops intn dec (SvRequest nowhere d lat) ?sv) = Some (engine_step ops no_app (EvRequest nowhere lat) e)"
    using serve_ok_step [OF wk, of nowhere ops intn dec d "(404, TextBody ''404 page not found'')" lat]
    by (simp add: mux_nowhere)
  moreover have "sv_work (sv_step ops intn dec (SvRequest nowhere d lat) ?sv) = work"
    using serve_shadow_work [OF wk, of nowhere ops intn dec d lat] by (simp add: sv_New_def)
  moreover have "sv_role (sv_step ops intn dec (SvRequest nowhere d lat) ?sv) = ''warmup''"
    by (simp add: serve_role sv_New_def)
  ultimately have "sv_step ops intn dec (SvRequest nowhere d lat) ?sv =
      sv_New ''warmup'' work (Some (engine_step ops no_app (EvRequest nowhere lat) e))"
    by (simp add: sv_New_def)
  moreover have "progress_inv cfg (Suc n) (engine_step ops no_app (EvRequest nowhere lat) e)"
    using progress_serve(1) [OF e(2) nowhere_simps(1) assms(2,3)] Suc.prems by simp
  moreover have "replicate (Suc n) (SvRequest nowhere d lat) = replicate n (SvRequest nowhere d lat) @ [SvRequest nowhere d lat]"
    by (simp add: replicate_append_same)
  ultimately show ?case
    by (simp only: fold_append o_apply fold_simps e(1)) blast
qed (use assms(1) in auto)

text \<open>
  C37: every answered marked GET counts, even one that no route takes: \<open>ReadyAfter\<close> requests for an
  unknown path, each answered with 404, make the instance ready although its workload was never run
  and its index is still cold.
\<close>

theorem ready_while_cold:
  assumes "cf_Role cfg = ''warmup''" and "Start ops now (NewEngine cfg reg) = (None, e0)"
    and "0 \<le> cf_ShadowMetricsKeep cfg" and "cf_ShadowMetricsKeep cfg < 2 ^ 62"
    and "0 < n" and "cf_ReadyAfter cfg \<le> int n" and "int n < 2 ^ 62"
    and "sv = fold (sv_step ops intn dec) (replicate n (SvRequest nowhere d lat)) (sv_New ''warmup'' (wl_New keys) (Some e0))"
  shows "fst (serve ops intn dec d lat readyz sv) = Inr (200, TextBody ''ready'') \<and> wl_SnapshotState (sv_work sv)"
proof -
  obtain e where e: "sv = sv_New ''warmup'' (wl_New keys) (Some e)" "progress_inv cfg n e"
    using nowhere_run [OF progress_start [OF assms(2,1)] assms(3,4,7), of ops intn dec d lat "wl_New keys"] assms(8) by auto
  have "en_State e = StateReady"
    using e(2) assms(5,6) by (simp add: progress_inv_def progress_state_def)
  then show ?thesis
    using serve_readyz [of sv e ops intn dec d lat] e(1)
    by (simp add: sv_New_def ReadinessHandler_def wl_SnapshotState_def wl_New_def)
qed

lemma sample_start: "Start memory_ops 1 (NewEngine sample_cfg NewMemoryRegistry) = (None, sample_engine sample_cfg)"
  by (simp add: sample_engine_def engine_eval)

lemma sample_cfg_facts: "cf_Role sample_cfg = ''warmup''" "0 \<le> cf_ShadowMetricsKeep sample_cfg"
  "cf_ShadowMetricsKeep sample_cfg < 2 ^ 62" "cf_ReadyAfter sample_cfg = 2"
  by (simp_all add: sample_cfg_def)

theorem ready_while_cold_witness:
  "fst (serve memory_ops sample_intn (\<lambda>_. None) 0 7 readyz
     (fold (sv_step memory_ops sample_intn (\<lambda>_. None)) (replicate 2 (SvRequest nowhere 0 7)) (sample_server 3))) =
   Inr (200, TextBody ''ready'')"
  using ready_while_cold [OF sample_cfg_facts(1) sample_start sample_cfg_facts(2,3), of 2 _ sample_intn "\<lambda>_. None" 0 7 3,
      OF _ _ _ refl]
  by (simp add: sample_server_def sample_cfg_facts(4) del: fold.simps replicate_Suc)

theorem server_ready_means_warmed_witness:
  "cf_ReadyAfter sample_cfg \<le> sv_gets 0 (replicate 2 (SvRequest nowhere 0 7))"
proof -
  obtain e where e: "fold (sv_step memory_ops sample_intn (\<lambda>_. None)) (replicate 2 (SvRequest nowhere 0 7))
      (sv_New ''warmup'' (wl_New 3) (Some (sample_engine sample_cfg))) = sv_New ''warmup'' (wl_New 3) (Some e)"
    "progress_inv sample_cfg 2 e"
    using nowhere_run [OF progress_start [OF sample_start sample_cfg_facts(1)] sample_cfg_facts(2,3), of 2
        memory_ops sample_intn "\<lambda>_. None" 0 7 "wl_New 3"] by auto
  have "en_State e = StateReady"
    using e(2) by (simp add: progress_inv_def progress_state_def sample_cfg_facts(4))
  then have "fst (serve memory_ops sample_intn (\<lambda>_. None) 0 9 readyz (sv_New ''warmup'' (wl_New 3) (Some e))) =
      Inr (200, TextBody ''ready'')"
    using serve_readyz [of "sv_New ''warmup'' (wl_New 3) (Some e)" e memory_ops sample_intn "\<lambda>_. None" 0 9]
    by (simp add: sv_New_def ReadinessHandler_def)
  from server_ready_means_warmed [OF sample_cfg_facts(1) sample_start _ e(1) [symmetric] this]
  show ?thesis by simp
qed

definition work_request :: "WorkloadProfile \<Rightarrow> http_request" where
  "work_request p = shadow_request\<lparr>rq_Path := ''/work'', rq_RawQuery := profile_query p\<rparr>"

lemma work_request_simps [simp]: "shadow_get (work_request p)" "rq_Path (work_request p) = ''/work''"
  "rq_RawQuery (work_request p) = profile_query p"
  by (simp_all add: work_request_def shadow_get_def IsShadowRequest_def shadow_request_def)

lemma parse_work_request:
  "in_i64 (wp_Seed p) \<Longrightarrow> in_i64 (wp_Samples p) \<Longrightarrow> parseProfile (work_request p) = Inr p"
proof -
  have ne: "show_int k \<noteq> []" for k
    using show_nat_head [of "nat \<bar>k\<bar>"] by (auto simp: show_int_def)
  assume "in_i64 (wp_Seed p)" "in_i64 (wp_Samples p)"
  then show ?thesis
    using ne query_Get_profile [of "work_request p" p]
    by (simp add: parseProfile_def parseInt64_def parseInt_def scan_int_show_int)
qed

text \<open>The workload's answer, on any server whose index is in one of its two states\<close>

lemma handleWork_reply:
  assumes "intn_ok intn" "wl_inv (sv_work sv)"
  shows "fst (handleWork intn d r sv) =
    (case parseProfile r of
       Inl err \<Rightarrow> Inr (400, ErrorBody err)
     | Inr p \<Rightarrow> if 0 < wl_indexKeys (sv_work sv) \<or> wp_Samples p \<le> 0 then Inr (200, DurationNs d) else Inl PanicIntn)"
proof (cases "parseProfile r")
  case (Inr p)
  let ?w = "sv_work sv" and ?n = "wl_indexKeys (sv_work sv)"
  have w: "wl_index (ensure_index ?w) = build_index ?n" "wl_indexKeys (ensure_index ?w) = ?n"
    using assms(2) by (simp_all add: wl_inv_def ensure_index_def)
  consider "wp_Samples p \<le> 0" | "0 < ?n" | s where "?n \<le> 0" "nat (wp_Samples p) = Suc s"
    by (metis Suc_pred linorder_not_le zero_less_nat_eq)
  then show ?thesis
  proof cases
    case 1
    then show ?thesis using Inr by (simp add: handleWork_def RunProfile_def Let_def)
  next
    case 2
    then have "\<exists>v. lookups (intn (wp_Seed p)) ?n (build_index ?n) 0 (nat (wp_Samples p)) 0 = Inr v"
      using lookups_identity [of ?n "intn (wp_Seed p)" 0 "nat (wp_Samples p)" 0] assms(1)
      by (simp add: intn_ok_def wrap64_def)
    then show ?thesis using Inr 2 w by (auto simp: handleWork_def RunProfile_def Let_def)
  next
    case 3
    then show ?thesis using Inr w by (simp add: handleWork_def RunProfile_def Let_def)
  qed
qed (simp add: handleWork_def)

text \<open>An instance whose shadow requests panicked so far, with an index of no keys\<close>

definition sv_stuck :: "int \<Rightarrow> nat \<Rightarrow> 's server \<Rightarrow> bool" where
  "sv_stuck keys k sv \<longleftrightarrow> (\<exists>e. sv_wk sv = Some e \<and> en_count e = 0 \<and> sv_role sv = ''warmup'' \<and> wl_inv (sv_work sv) \<and>
     wl_indexKeys (sv_work sv) = keys \<and> en_State e = (if k = 0 then StateRegistered else StateWarming))"

lemma stuck_step:
  assumes "intn_ok intn" "keys \<le> 0" "in_i64 (wp_Seed p)" "in_i64 (wp_Samples p)" "0 < wp_Samples p" "sv_stuck keys k s"
  shows "fst (serve ops intn dec d lat (work_request p) s) = Inl PanicIntn"
    and "sv_stuck keys (Suc k) (snd (serve ops intn dec d lat (work_request p) s))"
proof -
  have parse: "parseProfile (work_request p) = Inr p"
    by (rule parse_work_request [OF assms(3,4)])
  have mux: "sv_mux ops intn dec d (work_request p) s = handleWork intn d (work_request p) s" for s
    by (simp add: sv_mux_def work_request_def shadow_request_def sv_reads_def Let_def)
  obtain e where e: "sv_wk s = Some e" "en_count e = 0" "sv_role s = ''warmup''" "wl_inv (sv_work s)"
      "wl_indexKeys (sv_work s) = keys" "en_State e = (if k = 0 then StateRegistered else StateWarming)"
    using assms(6) by (auto simp: sv_stuck_def)
  let ?s = "s\<lparr>sv_wk := Some (shadow_begin ops e)\<rparr>"
  have "fst (handleWork intn d (work_request p) ?s) = Inl PanicIntn"
    using handleWork_reply [OF assms(1), of ?s d "work_request p"] e(4,5) assms(2,5) parse by simp
  then have "serve ops intn dec d lat (work_request p) s = (Inl PanicIntn, snd (handleWork intn d (work_request p) ?s))"
    using e(1) by (cases "handleWork intn d (work_request p) ?s")
      (simp add: serve_def mux work_request_simps(1) [unfolded shadow_get_def])
  moreover have "wl_inv (ensure_index (sv_work s))" "wl_indexKeys (ensure_index (sv_work s)) = keys"
    using wl_inv_step [OF e(4), of intn "WlRun 0 p"] e(5) by (simp_all add: ensure_index_def)
  ultimately show "fst (serve ops intn dec d lat (work_request p) s) = Inl PanicIntn"
    "sv_stuck keys (Suc k) (snd (serve ops intn dec d lat (work_request p) s))"
    using e by (simp_all add: parse sv_stuck_def)
qed

lemma stuck_run:
  assumes "intn_ok intn" "keys \<le> 0" "in_i64 (wp_Seed p)" "in_i64 (wp_Samples p)" "0 < wp_Samples p"
  shows "sv_stuck keys i s \<Longrightarrow>
    sv_stuck keys (k + i) (fold (sv_step ops intn dec) (replicate k (SvRequest (work_request p) d lat)) s)"
proof (induction k arbitrary: s i)
  case (Suc k)
  show ?case
    using Suc.IH [of "Suc i"] stuck_step(2) [OF assms Suc.prems] by simp
qed simp



section \<open>The workload behind the server\<close>

definition work_ok :: "int \<Rightarrow> 's server \<Rightarrow> bool" where
  "work_ok keys sv \<longleftrightarrow> wl_inv (sv_work sv) \<and> wl_indexKeys (sv_work sv) = keys"

lemma work_ok_cong: "sv_work sv' = sv_work sv \<Longrightarrow> work_ok keys sv' = work_ok keys sv"
  by (simp add: work_ok_def)

lemma work_ok_ensure: "work_ok keys sv \<Longrightarrow> wl_inv (ensure_index (sv_work sv)) \<and> wl_indexKeys (ensure_index (sv_work sv)) = keys"
  by (simp add: work_ok_def wl_inv_def ensure_index_def)

lemma handleWarmup_work:
  "sv_work (snd (handleWarmup intn dec d r sv)) \<in> {sv_work sv, ensure_index (sv_work sv)}"
proof (cases "dec (rq_Body r)")
  case (Some p)
  obtain res w where w: "WarmProfile intn d p (sv_work sv) = (res, w)"
    by (cases "WarmProfile intn d p (sv_work sv)")
  then have "w = ensure_index (sv_work sv)"
    using snd_WarmProfile [of intn d p "sv_work sv"] by simp
  then show ?thesis
    using Some w by (auto simp: handleWarmup_def split: option.split)
qed (simp add: handleWarmup_def)

lemma work_ok_mux: "work_ok keys sv \<Longrightarrow> work_ok keys (snd (sv_mux ops intn dec d r sv))"
proof -
  assume ok: "work_ok keys sv"
  have "work_ok keys (snd (handleWork intn d r sv))"
    using ok work_ok_ensure [OF ok] by (simp add: work_ok_def)
  moreover have "work_ok keys (snd (handleWarmup intn dec d r sv))"
    using handleWarmup_work [of intn dec d r sv] ok work_ok_ensure [OF ok] by (auto simp: work_ok_def)
  moreover have "work_ok keys (snd (handleReset ops sv))"
    using ok by (simp add: work_ok_def wl_inv_def ResetCold_def)
  ultimately show ?thesis
    using ok by (auto simp: sv_mux_def Let_def split: prod.split)
qed

lemma work_ok_serve: "work_ok keys sv \<Longrightarrow> work_ok keys (snd (serve ops intn dec d lat r sv))"
proof -
  assume ok: "work_ok keys sv"
  have inner: "work_ok keys (snd (sv_mux ops intn dec d r (sv\<lparr>sv_wk := x\<rparr>)))" for x
    by (rule work_ok_mux) (use ok in \<open>simp add: work_ok_def\<close>)
  have upd: "work_ok keys sv' \<Longrightarrow> work_ok keys (sv'\<lparr>sv_wk := y\<rparr>)" for sv' y
    by (simp add: work_ok_def)
  show ?thesis
  proof (cases "sv_wk sv")
    case None
    then show ?thesis using work_ok_mux [OF ok] by (simp add: serve_def)
  next
    case (Some e)
    obtain res sv2 where "sv_mux ops intn dec d r (sv\<lparr>sv_wk := Some (shadow_begin ops e)\<rparr>) = (res, sv2)"
      by (cases "sv_mux ops intn dec d r (sv\<lparr>sv_wk := Some (shadow_begin ops e)\<rparr>)")
    then show ?thesis
      using Some ok inner [of "Some (shadow_begin ops e)"] work_ok_mux [OF ok] upd [of sv2]
      by (auto simp: serve_def split: sum.split prod.split option.split)
  qed
qed

interpretation sv_work: step_invariant "sv_step ops intn dec" "work_ok keys"
proof
  show "work_ok keys sv \<Longrightarrow> work_ok keys (sv_step ops intn dec ev sv)" for sv ev
    by (cases ev) (simp_all add: work_ok_serve, simp_all add: work_ok_def)
qed

text \<open>
  C29: after every history of a server, with or without an engine, an unmarked \<open>GET /work\<close> is answered by
  its profile alone: 400 when the profile cannot be read, 200 with the measured duration when the index
  has keys or no samples are asked for, and otherwise a panic. It leaves the index built; an unmarked
  reset brings the workload back to the state of a new process.
\<close>

theorem work_route:
  assumes "intn_ok intn" and "sv = fold (sv_step ops intn dec) es (sv_New role (wl_New keys) wk)"
    and "rq_Method r = ''GET''" and "rq_Path r = ''/work''" and "\<not> IsShadowRequest r"
    and "rq_Method r' = ''POST''" and "rq_Path r' = ''/reset''" and "\<not> IsShadowRequest r'"
  shows "fst (serve ops intn dec d lat r sv) =
      (case parseProfile r of
         Inl err \<Rightarrow> Inr (400, ErrorBody err)
       | Inr p \<Rightarrow> if 0 < keys \<or> wp_Samples p \<le> 0 then Inr (200, DurationNs d) else Inl PanicIntn) \<and>
    wl_SnapshotState (sv_work (snd (serve ops intn dec d lat r sv))) =
      (wl_SnapshotState (sv_work sv) \<and> \<not> is_ok (parseProfile r)) \<and>
    sv_work (snd (serve ops intn dec d lat r' sv)) = wl_New keys"
proof -
  have "work_ok keys (sv_New role (wl_New keys) wk)"
    by (simp add: work_ok_def sv_New_def wl_inv_def wl_New_def)
  then have ok: "wl_inv (sv_work sv)" "wl_indexKeys (sv_work sv) = keys"
    using sv_work.run_good [of keys "sv_New role (wl_New keys) wk" ops intn dec es]
    unfolding assms(2) work_ok_def by simp_all
  have "serve ops intn dec d lat r sv = handleWork intn d r sv"
    using assms(3-5) by (simp add: serve_def sv_mux_def sv_reads_def MethodGet_def split: option.split)
  moreover have "serve ops intn dec d lat r' sv = (Inr (fst (handleReset ops sv)), snd (handleReset ops sv))"
    using assms(6-8) by (simp add: serve_def sv_mux_def MethodPost_def split: option.split prod.split)
  moreover have "ResetCold (sv_work sv) = wl_New keys"
    using ok(2) by (simp add: ResetCold_def wl_New_def)
  moreover have "wl_indexCold (ensure_index (sv_work sv)) = False"
    using ok(1) by (simp add: wl_inv_def ensure_index_def)
  ultimately show ?thesis
    using handleWork_reply [OF assms(1) ok(1), of d r, unfolded ok(2)] by (simp add: wl_SnapshotState_def)
qed

theorem work_route_witness:
  "fst (serve memory_ops sample_intn (\<lambda>_. None) 5 6
     ((work_request \<lparr>wp_Seed = 1, wp_Samples = 5\<rparr>)\<lparr>rq_Header := Map.empty\<rparr>) (sv_New ''active'' (wl_New 3) None)) =
    Inr (200, DurationNs 5)"
proof -
  let ?r = "(work_request \<lparr>wp_Seed = 1, wp_Samples = 5\<rparr>)\<lparr>rq_Header := Map.empty\<rparr>"
  let ?q = "?r\<lparr>rq_Method := ''POST'', rq_Path := ''/reset''\<rparr>"
  have r: "intn_ok sample_intn" "rq_Method ?r = ''GET''" "rq_Path ?r = ''/work''" "\<not> IsShadowRequest ?r"
    "rq_Method ?q = ''POST''" "rq_Path ?q = ''/reset''" "\<not> IsShadowRequest ?q"
    by (simp_all add: intn_ok_def sample_intn_def work_request_def shadow_request_def MethodGet_def IsShadowRequest_def
        header_Get_def ShadowValue_def)
  have "parseProfile ?r = parseProfile (work_request \<lparr>wp_Seed = 1, wp_Samples = 5\<rparr>)"
    by (simp add: parseProfile_def)
  also have "\<dots> = Inr \<lparr>wp_Seed = 1, wp_Samples = 5\<rparr>"
    by (rule parse_work_request) (simp_all add: in_i64_def)
  finally have p: "parseProfile ?r = Inr \<lparr>wp_Seed = 1, wp_Samples = 5\<rparr>" .
  have "sv_New ''active'' (wl_New 3) None = fold (sv_step memory_ops sample_intn (\<lambda>_. None)) [] (sv_New ''active'' (wl_New 3) None)"
    by simp
  from work_route [OF r(1) this r(2-7), THEN conjunct1, of 5 6] show ?thesis
    by (simp add: p)
qed

end
