(* ===== verification/Settings.thy ===== *)
theory Settings
  imports Engine Envcfg GoParse
begin

text \<open>
  Configuration of the processes: LoadedService/internal/config/config.go, and
  internal/pprofserver/pprofserver.go, whose server is only its address and its routes here (the
  profiles themselves are the library's).
\<close>

section \<open>Settings of an instance\<close>

record Settings =
  st_HTTPAddr :: string
  st_Role :: string
  st_InstanceID :: string
  st_MmapFile :: string
  st_MmapSizeMB :: int
  st_IndexKeys :: int
  st_ServiceName :: string
  st_ZKEndpoints :: "string list"
  st_ReadyAfter :: int
  st_WarmupTimeout :: int
  st_ShadowKeep :: int

definition Load :: "env \<Rightarrow> env_error + Settings" where
  "Load env =
     res_bind (Required env ''DWSS_HTTP_ADDR'') (\<lambda>addr.
     res_bind (Required env ''DWSS_ROLE'') (\<lambda>role.
     res_bind (Required env ''DWSS_INSTANCE_ID'') (\<lambda>iid.
     res_bind (Required env ''DWSS_MMAP_FILE'') (\<lambda>file.
     res_bind (RequiredInt env ''DWSS_MMAP_SIZE_MB'') (\<lambda>sizeMB.
     res_bind (RequiredInt env ''DWSS_INDEX_KEYS'') (\<lambda>keys.
     res_bind (Required env ''DWSS_SERVICE_NAME'') (\<lambda>service.
     res_bind (RequiredCSV env ''DWSS_ZK_ENDPOINTS'') (\<lambda>endpoints.
     res_bind (RequiredInt env ''DWSS_WARMUP_READY_AFTER'') (\<lambda>readyAfter.
     res_bind (RequiredDurationFromSeconds env ''DWSS_WARMUP_TIMEOUT_SEC'') (\<lambda>timeout.
     res_bind (RequiredInt env ''DWSS_SHADOW_METRICS_KEEP'') (\<lambda>keep.
       Inr \<lparr>st_HTTPAddr = addr, st_Role = role, st_InstanceID = iid, st_MmapFile = file,
         st_MmapSizeMB = sizeMB, st_IndexKeys = keys, st_ServiceName = service, st_ZKEndpoints = endpoints,
         st_ReadyAfter = readyAfter, st_WarmupTimeout = timeout, st_ShadowKeep = keep\<rparr>)))))))))))"

definition WarmkitConfig :: "Settings \<Rightarrow> Config" where
  "WarmkitConfig s = \<lparr>cf_ServiceName = st_ServiceName s, cf_InstanceID = st_InstanceID s,
     cf_ListenAddr = st_HTTPAddr s, cf_Role = st_Role s, cf_ReadyAfter = st_ReadyAfter s,
     cf_WarmupTimeout = st_WarmupTimeout s, cf_ShadowMetricsKeep = st_ShadowKeep s\<rparr>"

text \<open>An environment that spells out given settings\<close>

definition settings_env :: "Settings \<Rightarrow> env" where
  "settings_env s = [
     ''DWSS_HTTP_ADDR'' \<mapsto> st_HTTPAddr s, ''DWSS_ROLE'' \<mapsto> st_Role s, ''DWSS_INSTANCE_ID'' \<mapsto> st_InstanceID s,
     ''DWSS_MMAP_FILE'' \<mapsto> st_MmapFile s, ''DWSS_MMAP_SIZE_MB'' \<mapsto> show_int (st_MmapSizeMB s),
     ''DWSS_INDEX_KEYS'' \<mapsto> show_int (st_IndexKeys s), ''DWSS_SERVICE_NAME'' \<mapsto> st_ServiceName s,
     ''DWSS_ZK_ENDPOINTS'' \<mapsto> Join '','' (st_ZKEndpoints s),
     ''DWSS_WARMUP_READY_AFTER'' \<mapsto> show_int (st_ReadyAfter s),
     ''DWSS_WARMUP_TIMEOUT_SEC'' \<mapsto> show_int (st_WarmupTimeout s div Second),
     ''DWSS_SHADOW_METRICS_KEEP'' \<mapsto> show_int (st_ShadowKeep s)]"

definition plain_part :: "string \<Rightarrow> bool" where
  "plain_part p \<longleftrightarrow> p \<noteq> [] \<and> list_all printable p \<and> CHR '','' \<notin> set p"

definition settings_ok :: "Settings \<Rightarrow> bool" where
  "settings_ok s \<longleftrightarrow>
     TrimSpace (st_HTTPAddr s) \<noteq> [] \<and> TrimSpace (st_Role s) \<noteq> [] \<and> TrimSpace (st_InstanceID s) \<noteq> [] \<and>
     TrimSpace (st_MmapFile s) \<noteq> [] \<and> TrimSpace (st_ServiceName s) \<noteq> [] \<and> in_i64 (st_MmapSizeMB s) \<and>
     in_i64 (st_IndexKeys s) \<and> in_i64 (st_ReadyAfter s) \<and> in_i64 (st_ShadowKeep s) \<and>
     st_ZKEndpoints s \<noteq> [] \<and> list_all plain_part (st_ZKEndpoints s) \<and>
     in_i64 (st_WarmupTimeout s) \<and> st_WarmupTimeout s mod Second = 0"

lemma Required_at: "env key = Some v \<Longrightarrow> TrimSpace v \<noteq> [] \<Longrightarrow> Required env key = Inr v"
  by (simp add: Required_Inr_iff)

lemma RequiredInt_at: "env key = Some (show_int n) \<Longrightarrow> in_i64 n \<Longrightarrow> RequiredInt env key = Inr n"
proof -
  assume "env key = Some (show_int n)" "in_i64 n"
  moreover have "show_int n \<noteq> []"
    using show_nat_head [of "nat \<bar>n\<bar>"] by (auto simp: show_int_def)
  ultimately show ?thesis
    by (simp add: RequiredInt_Inr_iff TrimSpace_show_int parse_int_show_int)
qed

lemma TrimSpace_all_printable: "list_all printable s \<Longrightarrow> TrimSpace s = s"
proof (cases "s = []")
  case True
  then show ?thesis by (simp add: TrimSpace_def)
next
  case False
  assume "list_all printable s"
  then show ?thesis
    using False by (intro TrimSpace_printable) (auto simp: list_all_iff)
qed

lemma Join_printable: "printable sep \<Longrightarrow> list_all (list_all printable) ps \<Longrightarrow> list_all printable (Join [sep] ps)"
  by (induction "[sep]" ps rule: Join.induct) auto

lemma RequiredCSV_at:
  assumes "env key = Some (Join '','' ps)" "ps \<noteq> []" "list_all plain_part ps"
  shows "RequiredCSV env key = Inr ps"
proof -
  have parts: "list_all (list_all printable) ps" "\<forall>p \<in> set ps. p \<noteq> [] \<and> CHR '','' \<notin> set p \<and> TrimSpace p = p"
    using assms(3) TrimSpace_all_printable by (auto simp: list_all_iff plain_part_def)
  have "printable CHR '',''"
    by (simp add: printable_def)
  then have "TrimSpace (Join '','' ps) = Join '','' ps"
    by (intro TrimSpace_all_printable Join_printable parts(1))
  moreover have "Join '','' ps \<noteq> []"
    using assms(2) parts(2) by (cases "('','', ps)" rule: Join.cases) auto
  moreover have "Split (CHR '','') (Join '','' ps) = ps"
    using Split_Join [of ps "CHR '',''"] assms(2) parts(2) by simp
  moreover have "filter (\<lambda>t. t \<noteq> []) (map TrimSpace ps) = ps"
    using parts(2) by (simp add: map_idI filter_id_conv)
  ultimately show ?thesis
    using assms(1,2) by (simp add: RequiredCSV_def Required_at csv_parts_eq)
qed

lemma timeout_exact:
  assumes "settings_ok s"
  shows "in_i64 (st_WarmupTimeout s div Second)" "seconds (st_WarmupTimeout s div Second) = st_WarmupTimeout s"
proof -
  let ?q = "st_WarmupTimeout s div Second"
  have t: "?q * Second = st_WarmupTimeout s"
    using assms by (auto simp: settings_ok_def dest: dvd_imp_mod_0 intro: dvd_div_mult_self)
  have "- (2 ^ 63) \<le> ?q * Second" "?q * Second < 2 ^ 63"
    unfolding t using assms by (simp_all add: settings_ok_def in_i64_def)
  then show "in_i64 ?q" by (simp add: in_i64_def)
  show "seconds ?q = st_WarmupTimeout s"
    unfolding seconds_def t using assms by (simp add: settings_ok_def)
qed

lemmas load_simps = settings_ok_def Load_def Required_at RequiredInt_at RequiredCSV_at RequiredDurationFromSeconds_def

text \<open>Any environment that agrees on the variables of the settings\<close>

lemma load_env:
  assumes "settings_ok s" and "\<And>key. key \<in> dom (settings_env s) \<Longrightarrow> env key = settings_env s key"
  shows "Load env = Inr s"
proof -
  have at: "env key = Some v" if "settings_env s key = Some v" for key v
    using assms(2) [of key] that by auto
  note vars = at [unfolded settings_env_def]
  show ?thesis
    using assms(1) timeout_exact [OF assms(1)] by (simp add: load_simps vars)
qed

lemma restrict_map_UNIV: "m |` UNIV = m"
  by (simp add: restrict_map_def)

text \<open>The variables in the order they are read\<close>

definition load_vars :: "string list" where
  "load_vars = [''DWSS_HTTP_ADDR'', ''DWSS_ROLE'', ''DWSS_INSTANCE_ID'', ''DWSS_MMAP_FILE'', ''DWSS_MMAP_SIZE_MB'',
     ''DWSS_INDEX_KEYS'', ''DWSS_SERVICE_NAME'', ''DWSS_ZK_ENDPOINTS'', ''DWSS_WARMUP_READY_AFTER'',
     ''DWSS_WARMUP_TIMEOUT_SEC'', ''DWSS_SHADOW_METRICS_KEEP'']"

lemma Required_unset:
  "env key = None \<Longrightarrow> Required env key = Inl (NotSet key)"
  "env key = None \<Longrightarrow> RequiredInt env key = Inl (NotSet key)"
  "env key = None \<Longrightarrow> RequiredCSV env key = Inl (NotSet key)"
  by (simp_all add: RequiredInt_def RequiredCSV_def Required_def)

lemma res_bind_if: "res_bind (if b then Inl e else Inr v) f = (if b then Inl e else f v)"
  by simp

lemma case_option_if:
  "(case (if b then Some k else y) of None \<Rightarrow> z | Some x \<Rightarrow> f x) = (if b then f k else case y of None \<Rightarrow> z | Some x \<Rightarrow> f x)"
  by simp

text \<open>
  C30: settings written into the environment, with decimal numbers, whole seconds and a
  comma-separated list of endpoints, are loaded as themselves. With any of the variables unset the
  loader fails, and it reports the first of them in its order.
\<close>

theorem load_roundtrip:
  assumes "settings_ok s"
  shows "Load ((settings_env s) |` (- K)) =
    (case find (\<lambda>key. key \<in> K) load_vars of None \<Rightarrow> Inr s | Some key \<Rightarrow> Inl (NotSet key))"
proof -
  note vals = assms [unfolded settings_ok_def] timeout_exact [OF assms]
  have env: "((settings_env s) |` (- K)) key = (if key \<in> K then None else settings_env s key)" for key
    by (simp add: restrict_map_def)
  let ?env = "(settings_env s) |` (- K)"
  have req: "Required ?env key = (if key \<in> K then Inl (NotSet key) else Inr v)"
    if "settings_env s key = Some v" "TrimSpace v \<noteq> []" for key v
    using that Required_at [of ?env key v] Required_unset(1) [of ?env key] by (simp add: env)
  have int: "RequiredInt ?env key = (if key \<in> K then Inl (NotSet key) else Inr n)"
    if "settings_env s key = Some (show_int n)" "in_i64 n" for key n
    using that RequiredInt_at [of ?env key n] Required_unset(2) [of ?env key] by (simp add: env)
  have csv: "RequiredCSV ?env key = (if key \<in> K then Inl (NotSet key) else Inr (st_ZKEndpoints s))"
    if "settings_env s key = Some (Join '','' (st_ZKEndpoints s))" for key
    using that vals RequiredCSV_at [of ?env key "st_ZKEndpoints s"] Required_unset(3) [of ?env key] by (simp add: env)
  have vars: "settings_env s ''DWSS_HTTP_ADDR'' = Some (st_HTTPAddr s)"
    "settings_env s ''DWSS_ROLE'' = Some (st_Role s)"
    "settings_env s ''DWSS_INSTANCE_ID'' = Some (st_InstanceID s)"
    "settings_env s ''DWSS_MMAP_FILE'' = Some (st_MmapFile s)"
    "settings_env s ''DWSS_MMAP_SIZE_MB'' = Some (show_int (st_MmapSizeMB s))"
    "settings_env s ''DWSS_INDEX_KEYS'' = Some (show_int (st_IndexKeys s))"
    "settings_env s ''DWSS_SERVICE_NAME'' = Some (st_ServiceName s)"
    "settings_env s ''DWSS_ZK_ENDPOINTS'' = Some (Join '','' (st_ZKEndpoints s))"
    "settings_env s ''DWSS_WARMUP_READY_AFTER'' = Some (show_int (st_ReadyAfter s))"
    "settings_env s ''DWSS_WARMUP_TIMEOUT_SEC'' = Some (show_int (st_WarmupTimeout s div Second))"
    "settings_env s ''DWSS_SHADOW_METRICS_KEEP'' = Some (show_int (st_ShadowKeep s))"
    by (simp_all add: settings_env_def)
  have eta: "\<lparr>st_HTTPAddr = st_HTTPAddr s, st_Role = st_Role s, st_InstanceID = st_InstanceID s,
      st_MmapFile = st_MmapFile s, st_MmapSizeMB = st_MmapSizeMB s, st_IndexKeys = st_IndexKeys s,
      st_ServiceName = st_ServiceName s, st_ZKEndpoints = st_ZKEndpoints s, st_ReadyAfter = st_ReadyAfter s,
      st_WarmupTimeout = st_WarmupTimeout s, st_ShadowKeep = st_ShadowKeep s\<rparr> = s"
    by simp
  show ?thesis
    using vals
    by (simp add: eta Load_def RequiredDurationFromSeconds_def load_vars_def res_bind_if case_option_if
        req [OF vars(1)] req [OF vars(2)] req [OF vars(3)] req [OF vars(4)] int [OF vars(5)] int [OF vars(6)]
        req [OF vars(7)] csv [OF vars(8)] int [OF vars(9)] int [OF vars(10)] int [OF vars(11)] cong: if_cong split del: if_split)
qed

definition sample_settings :: Settings where
  "sample_settings = \<lparr>st_HTTPAddr = ''h:1'', st_Role = ''warmup'', st_InstanceID = ''i1'', st_MmapFile = ''f'',
     st_MmapSizeMB = 1, st_IndexKeys = 3, st_ServiceName = ''svc'', st_ZKEndpoints = [''a'', ''b''],
     st_ReadyAfter = 2, st_WarmupTimeout = 5000000000, st_ShadowKeep = 10\<rparr>"

theorem load_roundtrip_witness: "Load (settings_env sample_settings) = Inr sample_settings"
proof -
  have trim: "TrimSpace ''h:1'' = ''h:1''" "TrimSpace ''warmup'' = ''warmup''" "TrimSpace ''i1'' = ''i1''"
    "TrimSpace ''f'' = ''f''" "TrimSpace ''svc'' = ''svc''"
    by (rule TrimSpace_all_printable; simp add: printable_def)+
  have "settings_ok sample_settings"
    by (simp add: settings_ok_def sample_settings_def trim in_i64_def plain_part_def printable_def)
  from load_roundtrip [OF this, of "{}"] show ?thesis
    by (simp only: Compl_empty_eq restrict_map_UNIV) (simp add: load_vars_def)
qed

section \<open>The profiling server\<close>

text \<open>
  \<open>StartFromEnv\<close>: no server when disabled, else the address it listens on. A nil server is \<open>None\<close>.
\<close>

type_synonym pprof_server = "string option"

definition StartFromEnv :: "env \<Rightarrow> env_error + pprof_server" where
  "StartFromEnv env =
     res_bind (RequiredBool env ''DWSS_PPROF_ENABLED'') (\<lambda>enabled.
       if \<not> enabled then Inr None
       else res_bind (Required env ''DWSS_PPROF_HTTP_ADDR'') (\<lambda>addr. Inr (Some addr)))"

datatype pprof_route = PprofIndex | PprofCmdline | PprofProfile | PprofSymbol | PprofTrace | PprofNotFound

definition pprof_route :: "string \<Rightarrow> pprof_route" where
  "pprof_route path =
     (if path = ''/debug/pprof/cmdline'' then PprofCmdline
      else if path = ''/debug/pprof/profile'' then PprofProfile
      else if path = ''/debug/pprof/symbol'' then PprofSymbol
      else if path = ''/debug/pprof/trace'' then PprofTrace
      else if take 13 path = ''/debug/pprof/'' then PprofIndex
      else PprofNotFound)"

definition ProfileURL :: "env \<Rightarrow> env_error + string" where
  "ProfileURL env =
     res_bind (Required env ''DWSS_PPROF_HTTP_ADDR'') (\<lambda>addr.
     res_bind (RequiredInt env ''DWSS_PPROF_PROFILE_SECONDS'') (\<lambda>sec.
       Inr (''http://'' @ addr @ ''/debug/pprof/profile?seconds='' @ show_int sec)))"

text \<open>\<open>Stop\<close>; \<open>shutdown\<close> is the library's shutdown of the server with an address.\<close>

definition pprof_Stop :: "(string \<Rightarrow> 'e option) \<Rightarrow> pprof_server \<Rightarrow> 'e option" where
  "pprof_Stop shutdown srv = (case srv of None \<Rightarrow> None | Some addr \<Rightarrow> shutdown addr)"

text \<open>
  A process whose profiling is off needs no address, and stopping its absent server succeeds. With
  profiling on, the URL that clients build names the address the server listens on and a path that the
  server routes to the profile, and its query carries the configured number of seconds.
\<close>

theorem profile_url_served:
  assumes "env ''DWSS_PPROF_PROFILE_SECONDS'' = Some (show_int sec)" and "in_i64 sec"
    and "StartFromEnv env = Inr srv" and "CHR ''?'' \<notin> set addr" and "CHR ''/'' \<notin> set addr"
    and "env ''DWSS_PPROF_HTTP_ADDR'' = Some addr" and "TrimSpace addr \<noteq> []"
  shows "\<exists>url. ProfileURL env = Inr url \<and>
    (case Cut (CHR ''?'') url of (base, query) \<Rightarrow>
      base = ''http://'' @ addr @ ''/debug/pprof/profile'' \<and>
      pprof_route ''/debug/pprof/profile'' = PprofProfile \<and> scan_int (query_Get query ''seconds'') = Inr sec) \<and>
    (srv = None \<or> srv = Some addr) \<and> pprof_Stop shutdown (None :: pprof_server) = None \<and>
    (RequiredBool env ''DWSS_PPROF_ENABLED'' = Inr False \<longrightarrow>
      StartFromEnv (env(''DWSS_PPROF_HTTP_ADDR'' := None)) = Inr None)"
proof -
  let ?base = "''http://'' @ addr @ ''/debug/pprof/profile''" and ?q = "''seconds'' @ CHR ''='' # show_int sec"
  have url: "ProfileURL env = Inr (?base @ CHR ''?'' # ?q)"
    using RequiredInt_at [of env "''DWSS_PPROF_PROFILE_SECONDS''" sec] assms(1,2)
      Required_at [of env "''DWSS_PPROF_HTTP_ADDR''" addr] assms(6,7)
    by (simp add: ProfileURL_def)
  have "CHR ''?'' \<notin> set ?base"
    using assms(4) by simp
  then have "takeWhile (\<lambda>ch. ch \<noteq> CHR ''?'') (?base @ CHR ''?'' # ?q) = ?base"
    "dropWhile (\<lambda>ch. ch \<noteq> CHR ''?'') (?base @ CHR ''?'' # ?q) = CHR ''?'' # ?q"
    by (induction ?base) (auto simp: takeWhile_append dropWhile_append)
  then have cut: "Cut (CHR ''?'') (?base @ CHR ''?'' # ?q) = (?base, ?q)"
    by (simp add: Cut_def)
  have "CHR ''&'' \<notin> set ?q"
    using show_int_plain [of "CHR ''&''"] by auto
  then have "Split (CHR ''&'') ?q = [?q]"
    by (rule Split_single)
  moreover have "query_pair ?q = Some (''seconds'', show_int sec)"
    by (rule query_pair_plain; use show_int_plain in auto)
  ultimately have "query_Get ?q ''seconds'' = show_int sec"
    by (simp add: query_Get_def ParseQuery_def List.map_filter_simps)
  moreover have "srv = None \<or> srv = Some addr"
    using assms(3,6) by (auto simp: StartFromEnv_def res_bind_Inr_iff Required_Inr_iff split: if_splits)
  moreover have "StartFromEnv (env(''DWSS_PPROF_HTTP_ADDR'' := None)) = Inr None"
    if "RequiredBool env ''DWSS_PPROF_ENABLED'' = Inr False"
    using that by (simp add: StartFromEnv_def RequiredBool_def Required_def)
  ultimately show ?thesis
    using url cut scan_int_show_int [OF assms(2)] by (simp add: pprof_route_def pprof_Stop_def)
qed

theorem profile_url_served_witness:
  "\<exists>url. ProfileURL [''DWSS_PPROF_PROFILE_SECONDS'' \<mapsto> show_int 30, ''DWSS_PPROF_ENABLED'' \<mapsto> ''true'',
      ''DWSS_PPROF_HTTP_ADDR'' \<mapsto> ''h:6060''] = Inr url"
proof -
  let ?env = "[''DWSS_PPROF_PROFILE_SECONDS'' \<mapsto> show_int 30, ''DWSS_PPROF_ENABLED'' \<mapsto> ''true'',
      ''DWSS_PPROF_HTTP_ADDR'' \<mapsto> ''h:6060'']"
  have trim: "TrimSpace ''true'' = ''true''" "TrimSpace ''h:6060'' = ''h:6060''"
    by (rule TrimSpace_all_printable; simp add: printable_def)+
  have start: "StartFromEnv ?env = Inr (Some ''h:6060'')"
    by (simp add: StartFromEnv_def RequiredBool_def Required_at trim wrap_err_def parse_bool_def)
  have "?env ''DWSS_PPROF_PROFILE_SECONDS'' = Some (show_int 30)" "in_i64 30"
    "CHR ''?'' \<notin> set ''h:6060''" "CHR ''/'' \<notin> set ''h:6060''" "?env ''DWSS_PPROF_HTTP_ADDR'' = Some ''h:6060''"
    "TrimSpace ''h:6060'' \<noteq> []"
    by (simp_all add: in_i64_def trim)
  from profile_url_served [of ?env, OF this(1,2) start this(3-6)] show ?thesis by blast
qed

end
