(* ===== verification/ServerMain.thy ===== *)
theory ServerMain
  imports ServerProps Settings
begin

text \<open>
  LoadedService/cmd/server/main.go: how an instance is put together from its environment. Signals and
  listening are left out; the shutdown sequence is the list of the deferred calls in their order.
\<close>

section \<open>Start\<close>

datatype boot_error =
    BootConfig env_error | BootPprof env_error | BootConnect zk_error | BootStart start_error | BootActive reg_error

record 'z process =
  pr_pprof :: pprof_server
  pr_server :: "'z server"
  pr_reg :: "'z option"     \<comment> \<open>the session of an active instance; a warm-up engine holds its own\<close>

text \<open>\<open>connect\<close> is \<open>zk.Connect\<close>; \<open>now\<close> the start time in milliseconds. Any error ends the process.\<close>

definition boot :: "('z, 'b) zk_conn \<Rightarrow> 'b codec \<Rightarrow> (string list \<Rightarrow> int \<Rightarrow> zk_error + 'z) \<Rightarrow> int \<Rightarrow> env \<Rightarrow>
    boot_error + 'z process" where
  "boot c j connect now env =
     (case Load env of
        Inl err \<Rightarrow> Inl (BootConfig err)
      | Inr cfg \<Rightarrow>
          (let work = wl_New (st_IndexKeys cfg)
           in case StartFromEnv env of
                Inl err \<Rightarrow> Inl (BootPprof err)
              | Inr pprofSrv \<Rightarrow>
                  if st_Role cfg = ''warmup'' then
                    (case connect (st_ZKEndpoints cfg) (st_WarmupTimeout cfg) of
                       Inl err \<Rightarrow> Inl (BootConnect err)
                     | Inr reg \<Rightarrow>
                         (case Start (zk_ops c j) now (NewEngine (WarmkitConfig cfg) reg) of
                            (Some err, wk) \<Rightarrow> Inl (BootStart err)
                          | (None, wk) \<Rightarrow> Inr \<lparr>pr_pprof = pprofSrv,
                              pr_server = sv_New (st_Role cfg) work (Some wk), pr_reg = None\<rparr>))
                  else if st_Role cfg = ''active'' then
                    (case connect (st_ZKEndpoints cfg) (st_WarmupTimeout cfg) of
                       Inl err \<Rightarrow> Inl (BootConnect err)
                     | Inr z \<Rightarrow>
                         (case RegisterActive c j now (st_ServiceName cfg) (st_InstanceID cfg) (st_HTTPAddr cfg) z of
                            (Some err, reg) \<Rightarrow> Inl (BootActive err)
                          | (None, reg) \<Rightarrow> Inr \<lparr>pr_pprof = pprofSrv,
                              pr_server = sv_New (st_Role cfg) work None, pr_reg = Some reg\<rparr>))
                  else Inr \<lparr>pr_pprof = pprofSrv, pr_server = sv_New (st_Role cfg) work None, pr_reg = None\<rparr>))"

section \<open>Shutdown\<close>

text \<open>
  After the HTTP and profiling servers have stopped, the deferred calls run last to first: the session
  is closed, then a warm-up engine is stopped, which closes the session again. \<open>in_time\<close> tells whether
  the engine's goroutine returns before the timeout.
\<close>

definition shutdown :: "('z, 'b) zk_conn \<Rightarrow> 'b codec \<Rightarrow> bool \<Rightarrow> 'z process \<Rightarrow> 'z process" where
  "shutdown c j in_time p =
     (case sv_wk (pr_server p) of
        Some wk \<Rightarrow>
          (let wk1 = wk\<lparr>en_reg := zk_close c (en_reg wk)\<rparr>
           in p\<lparr>pr_server := (pr_server p)\<lparr>sv_wk := Some (snd (Stop (zk_ops c j) in_time wk1))\<rparr>\<rparr>)
      | None \<Rightarrow> p\<lparr>pr_reg := map_option (zk_close c) (pr_reg p)\<rparr>)"

section \<open>Properties\<close>

text \<open>The session that a process holds\<close>

definition pr_session :: "'z process \<Rightarrow> 'z option" where
  "pr_session p = (case sv_wk (pr_server p) of Some wk \<Rightarrow> Some (en_reg wk) | None \<Rightarrow> pr_reg p)"

lemma serve_readyz_none:
  assumes "sv_wk sv = None"
  shows "fst (serve ops intn dec d lat readyz sv) = Inr (404, TextBody ''404 page not found'')"
  using assms by (simp add: serve_def sv_mux_def readyz_def Let_def)

lemma shutdown_session:
  "pr_session (shutdown c j in_time p) =
     (case sv_wk (pr_server p) of
        None \<Rightarrow> map_option (zk_close c) (pr_reg p)
      | Some wk \<Rightarrow> Some (if in_time then zk_close c (zk_close c (en_reg wk)) else zk_close c (en_reg wk)))"
  by (auto simp: pr_session_def shutdown_def Stop_def zk_ops_def rmw_return_def Let_def split: option.split)

lemma shutdown_late: "pr_session (shutdown c j False p) = map_option (zk_close c) (pr_session p)"
  by (simp add: shutdown_session) (simp add: pr_session_def split: option.split)

lemma pr_session_new [simp]:
  "pr_session \<lparr>pr_pprof = pp, pr_server = sv_New role w (Some e), pr_reg = x\<rparr> = Some (en_reg e)"
  "pr_session \<lparr>pr_pprof = pp, pr_server = sv_New role w None, pr_reg = x\<rparr> = x"
  "sv_wk (sv_New role w wk) = wk" "sv_work (sv_New role w wk) = w"
  by (simp_all add: pr_session_def sv_New_def)

text \<open>The process that \<open>boot\<close> returns, role by role\<close>

lemma boot_warmup:
  assumes "zk_reliable c view alive" and "codec_ok j" and "zk_live view alive z"
    and "Load env = Inr cfg" and "StartFromEnv env = Inr pp"
    and "connect (st_ZKEndpoints cfg) (st_WarmupTimeout cfg) = Inr z"
    and "part_ok (st_ServiceName cfg)" and "part_ok (st_InstanceID cfg)" and "ascii (st_HTTPAddr cfg)" and "in_i64 now"
    and "st_Role cfg = ''warmup''"
  obtains e where "boot c j connect now env = Inr \<lparr>pr_pprof = pp,
      pr_server = sv_New ''warmup'' (wl_New (st_IndexKeys cfg)) (Some e), pr_reg = None\<rparr>" "en_State e = StateRegistered"
    "zk_look view j (en_reg e) (st_ServiceName cfg) (st_InstanceID cfg) =
      Some \<lparr>ir_Addr = st_HTTPAddr cfg, ir_State = StateRegistered, ir_Role = ''warmup'', ir_StartedAt = now\<rparr>"
proof -
  note contract = zk_registry_contract [OF assms(1,2)]
  let ?rec = "\<lparr>ir_Addr = st_HTTPAddr cfg, ir_State = StateRegistered, ir_Role = ''warmup'', ir_StartedAt = now\<rparr>"
  let ?cf = "WarmkitConfig cfg"
  have cf: "cf_ServiceName ?cf = st_ServiceName cfg" "cf_InstanceID ?cf = st_InstanceID cfg"
    "cf_ListenAddr ?cf = st_HTTPAddr cfg" "cf_Role ?cf = ''warmup''"
    using assms(11) by (simp_all add: WarmkitConfig_def)
  have "plain_inst ?rec" "?rec = \<lparr>ir_Addr = cf_ListenAddr ?cf, ir_State = StateRegistered, ir_Role = ''warmup'', ir_StartedAt = now\<rparr>"
    "part_ok (cf_ServiceName ?cf)" "part_ok (cf_InstanceID ?cf)"
    using assms(7-10) by (simp_all add: wf_simps cf)
  then obtain e where e: "Start (zk_ops c j) now (NewEngine ?cf z) = (None, e)" "en_cfg e = ?cf"
      "en_synced (zk_look view j) (zk_live view alive) plain_inst ?rec e"
    using registry_contract.synced_start [OF contract assms(3) _ _ cf(4)] by blast
  have st: "en_State e = StateRegistered"
    using Start_warmup(2) [OF e(1) cf(4)] .
  have "zk_look view j (en_reg e) (st_ServiceName cfg) (st_InstanceID cfg) = Some ?rec"
    using e(2,3) cf st by (simp add: en_synced_def)
  moreover have "boot c j connect now env = Inr \<lparr>pr_pprof = pp,
      pr_server = sv_New ''warmup'' (wl_New (st_IndexKeys cfg)) (Some e), pr_reg = None\<rparr>"
    using assms(4-6,11) e(1) by (simp add: boot_def Let_def)
  ultimately show thesis using that st by blast
qed

lemma boot_active:
  assumes "zk_reliable c view alive" and "codec_ok j" and "zk_live view alive z"
    and "Load env = Inr cfg" and "StartFromEnv env = Inr pp"
    and "connect (st_ZKEndpoints cfg) (st_WarmupTimeout cfg) = Inr z"
    and "part_ok (st_ServiceName cfg)" and "part_ok (st_InstanceID cfg)" and "ascii (st_HTTPAddr cfg)" and "in_i64 now"
    and "st_Role cfg = ''active''"
  obtains z' where "boot c j connect now env = Inr \<lparr>pr_pprof = pp,
      pr_server = sv_New ''active'' (wl_New (st_IndexKeys cfg)) None, pr_reg = Some z'\<rparr>"
    "zk_look view j z' (st_ServiceName cfg) (st_InstanceID cfg) =
      Some \<lparr>ir_Addr = st_HTTPAddr cfg, ir_State = StateActive, ir_Role = ''active'', ir_StartedAt = now\<rparr>"
proof -
  let ?rec = "\<lparr>ir_Addr = st_HTTPAddr cfg, ir_State = StateActive, ir_Role = ''active'', ir_StartedAt = now\<rparr>"
  have "plain_inst ?rec"
    using assms(9,10) by (simp add: wf_simps)
  from zk_register_ok [OF assms(1-3,7,8) this] obtain z' where
    z': "zk_RegisterInstance c j (st_ServiceName cfg) (st_InstanceID cfg) ?rec z = (None, z')"
      "zk_look view j z' (st_ServiceName cfg) (st_InstanceID cfg) = Some ?rec" by blast
  then show thesis
    using that [of z'] assms(4-6,11) by (simp add: boot_def Let_def RegisterActive_def)
qed

lemma boot_other:
  "Load env = Inr cfg \<Longrightarrow> StartFromEnv env = Inr pp \<Longrightarrow> st_Role cfg \<noteq> ''warmup'' \<Longrightarrow> st_Role cfg \<noteq> ''active'' \<Longrightarrow>
    boot c j connect now env = Inr \<lparr>pr_pprof = pp, pr_server = sv_New (st_Role cfg) (wl_New (st_IndexKeys cfg)) None, pr_reg = None\<rparr>"
  by (simp add: boot_def Let_def)


definition sample_env :: env where
  "sample_env = (settings_env sample_settings)(''DWSS_PPROF_ENABLED'' \<mapsto> ''false'')"


end
