(* ===== verification/MmapStore.thy ===== *)
theory MmapStore
  imports GoInt
begin

text \<open>
  LoadedService/internal/mmapstore/store.go: the memory-mapped file of a start-up experiment. The file
  system holds the contents of files; any of its calls may fail, as a script of outcomes says. Of a
  mapping the store only uses the length: the bytes it reads are summed and dropped, so the functions
  that read return the offsets they read. Times and random numbers are parameters.
\<close>

section \<open>Files\<close>

type_synonym byte = "8 word"

datatype io_error = SysFault nat | NotExist | NegativeOffset | SizeNotPositive | EmptyFile | NotMapped

record fs =
  fs_files :: "string \<rightharpoonup> byte list"
  fs_script :: "io_error option list"   \<comment> \<open>the outcomes of the next calls; after it all succeed\<close>
  fs_open :: nat                        \<comment> \<open>open descriptors\<close>

definition syscall :: "fs \<Rightarrow> io_error option \<times> fs" where
  "syscall fs = (case fs_script fs of [] \<Rightarrow> (None, fs) | r # rs \<Rightarrow> (r, fs\<lparr>fs_script := rs\<rparr>))"

definition MkdirAll :: "fs \<Rightarrow> io_error option \<times> fs" where
  "MkdirAll fs = syscall fs"

definition OpenFile :: "bool \<Rightarrow> string \<Rightarrow> fs \<Rightarrow> io_error option \<times> fs" where
  "OpenFile creat path fs =
     (case syscall fs of
        (Some e, fs1) \<Rightarrow> (Some e, fs1)
      | (None, fs1) \<Rightarrow>
          if fs_files fs1 path \<noteq> None then (None, fs1\<lparr>fs_open := fs_open fs1 + 1\<rparr>)
          else if creat then (None, fs1\<lparr>fs_open := fs_open fs1 + 1, fs_files := (fs_files fs1)(path \<mapsto> [])\<rparr>)
          else (Some NotExist, fs1))"

definition contents :: "string \<Rightarrow> fs \<Rightarrow> byte list" where
  "contents path fs = (case fs_files fs path of None \<Rightarrow> [] | Some bs \<Rightarrow> bs)"

definition Truncate :: "string \<Rightarrow> int \<Rightarrow> fs \<Rightarrow> io_error option \<times> fs" where
  "Truncate path n fs =
     (case syscall fs of
        (Some e, fs1) \<Rightarrow> (Some e, fs1)
      | (None, fs1) \<Rightarrow> (None, fs1\<lparr>fs_files := (fs_files fs1)(path \<mapsto>
            take (nat n) (contents path fs1) @ replicate (nat n - length (contents path fs1)) 0)\<rparr>))"

definition write_at :: "byte list \<Rightarrow> nat \<Rightarrow> byte list \<Rightarrow> byte list" where
  "write_at bs off buf =
     take off bs @ replicate (off - length bs) 0 @ buf @ drop (off + length buf) bs"

text \<open>An offset is an \<open>int64\<close>; a write that fails is taken to have written nothing.\<close>

definition WriteAt :: "string \<Rightarrow> byte list \<Rightarrow> int \<Rightarrow> fs \<Rightarrow> io_error option \<times> fs" where
  "WriteAt path buf off fs =
     (if off < 0 \<or> 2 ^ 63 \<le> off then (Some NegativeOffset, fs)
      else case syscall fs of
        (Some e, fs1) \<Rightarrow> (Some e, fs1)
      | (None, fs1) \<Rightarrow> (None, fs1\<lparr>fs_files := (fs_files fs1)(path \<mapsto> write_at (contents path fs1) (nat off) buf)\<rparr>))"

text \<open>A descriptor is released whether or not \<open>Close\<close> reports an error.\<close>

definition Close :: "fs \<Rightarrow> io_error option \<times> fs" where
  "Close fs = (case syscall fs of (r, fs1) \<Rightarrow> (r, fs1\<lparr>fs_open := fs_open fs1 - 1\<rparr>))"

section \<open>The store\<close>

definition pageSizeBytes :: int where "pageSizeBytes = 4096"

record store =
  ms_filePath :: string
  ms_sizeBytes :: int
  ms_file :: bool             \<comment> \<open>whether the store holds a descriptor\<close>
  ms_data :: "int option"     \<comment> \<open>the length of the mapping\<close>

definition ms_New :: "string \<Rightarrow> int \<Rightarrow> store" where
  "ms_New filePath sizeBytes = \<lparr>ms_filePath = filePath, ms_sizeBytes = sizeBytes, ms_file = False, ms_data = None\<rparr>"

text \<open>The buffer: \<open>0xdeadbeefcafebabe\<close> in little-endian order, for each eight bytes of a page.\<close>

definition pattern :: "byte list" where
  "pattern = [0xbe, 0xba, 0xfe, 0xca, 0xef, 0xbe, 0xad, 0xde]"

definition page_buf :: "byte list" where
  "page_buf = concat (replicate (nat (pageSizeBytes div 8)) pattern)"

lemma next_offset:
  assumes "0 \<le> off" "off < 2 ^ 63"
  shows "wrap64 (off + pageSizeBytes) = off + 4096 \<or> wrap64 (off + pageSizeBytes) < 0"
proof (cases "off + 4096 < 2 ^ 63")
  case True
  then show ?thesis using assms by (simp add: pageSizeBytes_def in_i64_def)
next
  case False
  let ?x = "off + 4096 + 2 ^ 63 :: int"
  have "?x mod 2 ^ 64 = (?x - 2 ^ 64) mod 2 ^ 64"
    by (rule minus_mod_self2 [symmetric])
  also have "\<dots> = ?x - 2 ^ 64"
    using assms False by (intro mod_pos_pos_trivial) simp_all
  finally have "wrap64 (off + 4096) = off + 4096 - 2 ^ 64"
    unfolding wrap64_def by simp
  then show ?thesis using assms by (simp add: pageSizeBytes_def)
qed

lemma WriteAt_offset: "WriteAt path buf off fs = (None, fs1) \<Longrightarrow> 0 \<le> off \<and> off < 2 ^ 63"
  by (auto simp: WriteAt_def split: if_splits)

lemma next_offset_less:
  assumes "off < sz" "WriteAt path buf off fs = (None, fs1)"
  shows "(if wrap64 (off + pageSizeBytes) < 0 then 0 else nat (sz - wrap64 (off + pageSizeBytes)) + 1) <
    (if off < 0 then 0 else nat (sz - off) + 1)"
  using next_offset [of off] WriteAt_offset [OF assms(2)] assms(1) by auto

function write_pages :: "string \<Rightarrow> int \<Rightarrow> int \<Rightarrow> fs \<Rightarrow> io_error option \<times> fs" where
  "write_pages path sz off fs =
     (if off < sz then
        (case WriteAt path page_buf off fs of
           (Some e, fs1) \<Rightarrow> (Some e, fs1)
         | (None, fs1) \<Rightarrow> write_pages path sz (wrap64 (off + pageSizeBytes)) fs1)
      else (None, fs))"
  by pat_completeness auto

termination
proof (relation "measure (\<lambda>(path, sz, off, fs). if off < 0 then 0 else nat (sz - off) + 1)", goal_cases)
  case (2 path sz off fs x y)
  then show ?case using next_offset_less [of off sz path page_buf fs y] by simp
qed simp

declare write_pages.simps [simp del]

definition EnsureFile :: "store \<Rightarrow> fs \<Rightarrow> io_error option \<times> fs" where
  "EnsureFile s fs =
     (if ms_sizeBytes s \<le> 0 then (Some SizeNotPositive, fs)
      else case MkdirAll fs of
        (Some e, fs1) \<Rightarrow> (Some e, fs1)
      | (None, fs1) \<Rightarrow>
          (case OpenFile True (ms_filePath s) fs1 of
             (Some e, fs2) \<Rightarrow> (Some e, fs2)
           | (None, fs2) \<Rightarrow>
               (let (err, fs3) = (case Truncate (ms_filePath s) (ms_sizeBytes s) fs2 of
                      (Some e, f) \<Rightarrow> (Some e, f)
                    | (None, f) \<Rightarrow> write_pages (ms_filePath s) (ms_sizeBytes s) 0 f);
                    (closeErr, fs4) = Close fs3
                in (if err = None then closeErr else err, fs4))))"

text \<open>An error after the file was opened closes it; the error of the close wins.\<close>

definition give_up :: "io_error \<Rightarrow> store \<Rightarrow> fs \<Rightarrow> (io_error option \<times> store) \<times> fs" where
  "give_up e s fs = (case Close fs of
     (Some closeErr, fs1) \<Rightarrow> ((Some closeErr, s), fs1)
   | (None, fs1) \<Rightarrow> ((Some e, s), fs1))"

definition Map :: "store \<Rightarrow> fs \<Rightarrow> (io_error option \<times> store) \<times> fs" where
  "Map s fs =
     (if ms_data s \<noteq> None then ((None, s), fs)
      else case OpenFile False (ms_filePath s) fs of
        (Some e, fs1) \<Rightarrow> ((Some e, s), fs1)
      | (None, fs1) \<Rightarrow>
          (case syscall fs1 of      \<comment> \<open>Stat\<close>
             (Some e, fs2) \<Rightarrow> give_up e s fs2
           | (None, fs2) \<Rightarrow>
               if contents (ms_filePath s) fs2 = [] then give_up EmptyFile s fs2
               else case syscall fs2 of      \<comment> \<open>mmap\<close>
                 (Some e, fs3) \<Rightarrow> give_up e s fs3
               | (None, fs3) \<Rightarrow>
                   ((None, s\<lparr>ms_file := True, ms_data := Some (int (length (contents (ms_filePath s) fs3)))\<rparr>), fs3)))"

definition Unmap :: "store \<Rightarrow> fs \<Rightarrow> (io_error option \<times> store) \<times> fs" where
  "Unmap s fs =
     (let (err1, fs1) = (if ms_data s \<noteq> None then syscall fs else (None, fs));
          s1 = s\<lparr>ms_data := None\<rparr>;
          (err2, fs2) = (if ms_file s1 then Close fs1 else (None, fs1));
          s2 = s1\<lparr>ms_file := False\<rparr>
      in ((if err1 \<noteq> None then err1 else err2, s2), fs2))"

definition Remap :: "store \<Rightarrow> fs \<Rightarrow> (io_error option \<times> store) \<times> fs" where
  "Remap s fs =
     (case Unmap s fs of
        ((Some e, s1), fs1) \<Rightarrow> ((Some e, s1), fs1)
      | ((None, s1), fs1) \<Rightarrow> Map s1 fs1)"

section \<open>Reading\<close>

text \<open>\<open>data[off]\<close>: the offset, or the panic of an index out of range.\<close>

definition read_byte :: "int \<Rightarrow> int \<Rightarrow> go_panic + int" where
  "read_byte len off = (if 0 \<le> off \<and> off < len then Inr off else Inl PanicIndex)"

text \<open>The loop of \<open>TouchSequential\<close>; the length of a mapping is far below the range of \<open>int\<close>.\<close>

function touch_from :: "int \<Rightarrow> int \<Rightarrow> go_panic + int list" where
  "touch_from len off =
     (if off < len
      then res_bind (read_byte len off) (\<lambda>o1. res_bind (touch_from len (off + pageSizeBytes)) (\<lambda>os. Inr (o1 # os)))
      else Inr [])"
  by pat_completeness auto

termination
  by (relation "measure (\<lambda>(len, off). nat (len - off))") (simp_all add: pageSizeBytes_def)

declare touch_from.simps [simp del]

definition TouchSequential :: "store \<Rightarrow> io_error + (go_panic + int list)" where
  "TouchSequential s =
     (case ms_data s of
        None \<Rightarrow> Inl NotMapped
      | Some len \<Rightarrow> Inr (touch_from len 0))"

definition pageCount :: "store \<Rightarrow> int" where
  "pageCount s = (case ms_data s of None \<Rightarrow> 0 | Some len \<Rightarrow> len div pageSizeBytes)"

text \<open>\<open>intn seed k n\<close> is the \<open>k\<close>-th result of \<open>Intn(n)\<close> on a new source with that seed.\<close>

definition RandomPageIndices :: "(int \<Rightarrow> nat \<Rightarrow> int \<Rightarrow> int) \<Rightarrow> int \<Rightarrow> int \<Rightarrow> store \<Rightarrow> int list" where
  "RandomPageIndices intn samples seed s =
     (if samples \<le> 0 then []
      else let pages = pageCount s
           in if pages = 0 then [] else map (\<lambda>i. intn seed i pages) [0..<nat samples])"

text \<open>The offset of a page index: negative indices count as zero, and the product is a 64-bit one.\<close>

definition page_offset :: "int \<Rightarrow> int" where
  "page_offset pageIdx = wrap64 ((if pageIdx < 0 then 0 else pageIdx) * pageSizeBytes)"

fun read_pages :: "int \<Rightarrow> int list \<Rightarrow> go_panic + int list" where
  "read_pages len [] = Inr []"
| "read_pages len (i # js) =
     (if len \<le> page_offset i then read_pages len js
      else res_bind (read_byte len (page_offset i)) (\<lambda>o1. res_bind (read_pages len js) (\<lambda>os. Inr (o1 # os))))"

text \<open>\<open>d\<close> is the elapsed time. The offsets read are returned beside it.\<close>

definition MeasureReadDurationAt :: "int \<Rightarrow> int list \<Rightarrow> store \<Rightarrow> go_panic + int \<times> int list" where
  "MeasureReadDurationAt d indices s =
     (case ms_data s of
        None \<Rightarrow> Inr (0, [])
      | Some len \<Rightarrow>
          if indices = [] then Inr (0, [])
          else res_bind (read_pages len indices) (\<lambda>os. Inr (d, os)))"

text \<open>\<open>lat i\<close> is the time of the \<open>i\<close>-th read; an index beyond the mapping keeps the zero.\<close>

fun page_latencies :: "(nat \<Rightarrow> int) \<Rightarrow> nat \<Rightarrow> int \<Rightarrow> int list \<Rightarrow> go_panic + int list" where
  "page_latencies lat k len [] = Inr []"
| "page_latencies lat k len (i # js) =
     (if len \<le> page_offset i then res_bind (page_latencies lat (Suc k) len js) (\<lambda>ls. Inr (0 # ls))
      else res_bind (read_byte len (page_offset i)) (\<lambda>o1.
             res_bind (page_latencies lat (Suc k) len js) (\<lambda>ls. Inr (lat k # ls))))"

definition MeasureReadLatenciesAt :: "(nat \<Rightarrow> int) \<Rightarrow> int list \<Rightarrow> store \<Rightarrow> go_panic + int list" where
  "MeasureReadLatenciesAt lat indices s =
     (case ms_data s of
        None \<Rightarrow> Inr []
      | Some len \<Rightarrow> if indices = [] then Inr [] else page_latencies lat 0 len indices)"

fun random_latencies :: "(nat \<Rightarrow> int) \<Rightarrow> (nat \<Rightarrow> int \<Rightarrow> int) \<Rightarrow> int \<Rightarrow> int \<Rightarrow> nat \<Rightarrow> nat \<Rightarrow> go_panic + int list" where
  "random_latencies lat pick len pages k 0 = Inr []"
| "random_latencies lat pick len pages k (Suc n) =
     res_bind (read_byte len (wrap64 (pick k pages * pageSizeBytes))) (\<lambda>o1.
       res_bind (random_latencies lat pick len pages (Suc k) n) (\<lambda>ls. Inr (lat k # ls)))"

text \<open>The seed is the clock's.\<close>

definition MeasureRandomReadLatencies :: "(nat \<Rightarrow> int) \<Rightarrow> (int \<Rightarrow> nat \<Rightarrow> int \<Rightarrow> int) \<Rightarrow> int \<Rightarrow> int \<Rightarrow> store \<Rightarrow>
    go_panic + int list" where
  "MeasureRandomReadLatencies lat intn seed samples s =
     (case ms_data s of
        None \<Rightarrow> Inr []
      | Some len \<Rightarrow>
          if samples \<le> 0 then Inr []
          else let pages = len div pageSizeBytes
               in if pages = 0 then Inr [] else random_latencies lat (intn seed) len pages 0 (nat samples))"

definition MeasureRandomReads :: "(nat \<Rightarrow> int) \<Rightarrow> (int \<Rightarrow> nat \<Rightarrow> int \<Rightarrow> int) \<Rightarrow> int \<Rightarrow> int \<Rightarrow> store \<Rightarrow> go_panic + int" where
  "MeasureRandomReads lat intn seed samples s =
     res_bind (MeasureRandomReadLatencies lat intn seed samples s)
       (\<lambda>latencies. Inr (foldl (\<lambda>total d. wrap64 (total + d)) 0 latencies))"

definition SizeMB :: "store \<Rightarrow> int" where
  "SizeMB s = wrap64 (ms_sizeBytes s sdiv (1024 * 1024))"

section \<open>The file that is made\<close>

lemma page_buf_length [simp]: "length page_buf = 4096"
  by (simp add: page_buf_def pattern_def pageSizeBytes_def length_concat sum_list_replicate)

lemma page_buf_neq [simp]: "page_buf \<noteq> []"
  using page_buf_length by (metis list.size(3) zero_neq_numeral)

lemma concat_pages_length: "length (concat (replicate k page_buf)) = 4096 * k"
  by (simp add: length_concat sum_list_replicate)

text \<open>The file after \<open>k\<close> pages have been written over old contents\<close>

definition paged :: "nat \<Rightarrow> byte list \<Rightarrow> byte list" where
  "paged k bs = concat (replicate k page_buf) @ drop (4096 * k) bs"

lemma write_next_page:
  assumes "4096 * k < length bs"
  shows "write_at (paged k bs) (4096 * k) page_buf = paged (Suc k) bs"
proof -
  have "take (4096 * k) (paged k bs) = concat (replicate k page_buf)"
    by (simp add: paged_def concat_pages_length)
  moreover have "4096 * k - length (paged k bs) = 0"
    by (simp add: paged_def concat_pages_length)
  moreover have "drop (4096 * k + 4096) (paged k bs) = drop (4096 * Suc k) bs"
    by (simp add: paged_def concat_pages_length add.commute)
  moreover have "concat (replicate (Suc k) page_buf) = concat (replicate k page_buf) @ page_buf"
    by (simp flip: replicate_append_same)
  ultimately show ?thesis
    by (simp add: write_at_def paged_def)
qed

lemma write_pages_from:
  assumes "fs_script fs = []" "fs_files fs path = Some (paged k bs)" "int (length bs) = sz" "sz \<le> 2 ^ 62"
    "4096 * k < length bs + 4096"
  shows "write_pages path sz (4096 * int k) fs =
    (None, fs\<lparr>fs_files := (fs_files fs)(path \<mapsto> paged ((length bs + 4095) div 4096) bs)\<rparr>)"
  using assms
proof (induction "length bs - 4096 * k" arbitrary: k fs rule: less_induct)
  case less
  show ?case
  proof (cases "4096 * k < length bs")
    case True
    have off: "0 \<le> 4096 * int k" "4096 * int k < sz"
      using True less.prems(3) by simp_all
    define fs1 where "fs1 = fs\<lparr>fs_files := (fs_files fs)(path \<mapsto> paged (Suc k) bs)\<rparr>"
    have "WriteAt path page_buf (4096 * int k) fs = (None, fs1)"
      using less.prems(1,2,4) off write_next_page [OF True]
      by (simp add: WriteAt_def syscall_def contents_def fs1_def nat_mult_distrib)
    moreover have "wrap64 (4096 * int k + pageSizeBytes) = 4096 * int (Suc k)"
      using off less.prems(4) by (simp add: pageSizeBytes_def in_i64_def)
    ultimately have "write_pages path sz (4096 * int k) fs = write_pages path sz (4096 * int (Suc k)) fs1"
      using off by (simp add: write_pages.simps [of path sz "4096 * int k"])
    also have "\<dots> = (None, fs1\<lparr>fs_files := (fs_files fs1)(path \<mapsto> paged ((length bs + 4095) div 4096) bs)\<rparr>)"
      by (rule less.hyps) (use True less.prems in \<open>simp_all add: fs1_def\<close>)
    finally show ?thesis by (simp add: fs1_def)
  next
    case False
    then have "(length bs + 4095) div 4096 = k"
      using less.prems(5) by (intro div_nat_eqI) simp_all
    moreover have "\<not> 4096 * int k < sz"
      using False less.prems(3) by simp
    moreover have "fs\<lparr>fs_files := (fs_files fs)(path \<mapsto> paged k bs)\<rparr> = fs"
      using less.prems(2) by (simp add: fun_upd_idem)
    ultimately show ?thesis by (simp add: write_pages.simps [of path sz])
  qed
qed

definition pages_for :: "int \<Rightarrow> nat" where
  "pages_for sz = nat ((sz + 4095) div 4096)"

lemma ensure_pages:
  assumes "fs_script fs = []" "0 < ms_sizeBytes s" "ms_sizeBytes s \<le> 2 ^ 62"
  shows "EnsureFile s fs = (None, fs\<lparr>fs_files := (fs_files fs)(ms_filePath s \<mapsto>
    concat (replicate (pages_for (ms_sizeBytes s)) page_buf))\<rparr>)"
proof -
  let ?p = "ms_filePath s" and ?sz = "ms_sizeBytes s"
  define bs where "bs = take (nat ?sz) (contents ?p fs) @ replicate (nat ?sz - length (contents ?p fs)) (0 :: byte)"
  have len: "length bs = nat ?sz"
    by (simp add: bs_def)
  define fs2 where "fs2 = fs\<lparr>fs_open := fs_open fs + 1, fs_files := (fs_files fs)(?p \<mapsto> bs)\<rparr>"
  have n: "(length bs + 4095) div 4096 = pages_for ?sz"
    using assms(2) unfolding len pages_for_def by (simp add: nat_div_distrib nat_add_distrib)
  have "write_pages ?p ?sz (4096 * int 0) fs2 =
      (None, fs2\<lparr>fs_files := (fs_files fs2)(?p \<mapsto> paged ((length bs + 4095) div 4096) bs)\<rparr>)"
    using assms by (intro write_pages_from) (simp_all add: fs2_def paged_def len)
  moreover have "paged (pages_for ?sz) bs = concat (replicate (pages_for ?sz) page_buf)"
  proof -
    have "nat ?sz \<le> 4096 * pages_for ?sz"
      unfolding n [symmetric] len by simp
    then show ?thesis by (simp add: paged_def len)
  qed
  moreover have "(fs_files fs)(?p \<mapsto> [], ?p \<mapsto> x) = (fs_files fs)(?p \<mapsto> x)" for x
    by simp
  ultimately show ?thesis
    using assms n
    by (auto simp: EnsureFile_def MkdirAll_def OpenFile_def Truncate_def Close_def syscall_def Let_def
        contents_def fs2_def bs_def split: option.splits)
qed

section \<open>Reading a mapping\<close>

lemma touch_pages: "k \<le> n \<Longrightarrow> touch_from (4096 * int n) (4096 * int k) = Inr (map (\<lambda>i. 4096 * int i) [k..<n])"
proof (induction "n - k" arbitrary: k)
  case (Suc m)
  then have k: "k < n" "m = n - Suc k" by simp_all
  have "touch_from (4096 * int n) (4096 * int k) =
      res_bind (touch_from (4096 * int n) (4096 * int (Suc k))) (\<lambda>os. Inr (4096 * int k # os))"
    using k(1) by (subst touch_from.simps) (simp add: read_byte_def pageSizeBytes_def algebra_simps)
  then show ?case
    using Suc.hyps(1) [OF k(2)] k(1) by (simp add: upt_conv_Cons)
qed (simp add: touch_from.simps)

lemma page_offset_small: "0 \<le> i \<Longrightarrow> i < 2 ^ 51 \<Longrightarrow> page_offset i = i * 4096"
  by (simp add: page_offset_def pageSizeBytes_def in_i64_def)

lemma read_pages_inside:
  assumes "\<forall>i \<in> set ids. 0 \<le> i \<and> i < n" "n \<le> 2 ^ 51"
  shows "read_pages (4096 * n) ids = Inr (map (\<lambda>i. i * 4096) ids)"
  using assms(1)
proof (induction ids)
  case (Cons i ids)
  then have "page_offset i = i * 4096" "0 \<le> i" "i < n"
    using page_offset_small [of i] assms(2) by simp_all
  then show ?case using Cons by (simp add: read_byte_def)
qed simp



section \<open>Descriptors\<close>

datatype st_op = OpEnsure | OpMap | OpUnmap | OpRemap

fun st_step :: "st_op \<Rightarrow> store \<times> fs \<Rightarrow> store \<times> fs" where
  "st_step OpEnsure (s, fs) = (s, snd (EnsureFile s fs))"
| "st_step OpMap (s, fs) = (case Map s fs of ((r, s1), fs1) \<Rightarrow> (s1, fs1))"
| "st_step OpUnmap (s, fs) = (case Unmap s fs of ((r, s1), fs1) \<Rightarrow> (s1, fs1))"
| "st_step OpRemap (s, fs) = (case Remap s fs of ((r, s1), fs1) \<Rightarrow> (s1, fs1))"

definition st_inv :: "nat \<Rightarrow> store \<times> fs \<Rightarrow> bool" where
  "st_inv base st \<longleftrightarrow> fs_open (snd st) = base + (if ms_file (fst st) then 1 else 0) \<and>
     (ms_file (fst st) \<longleftrightarrow> ms_data (fst st) \<noteq> None)"

lemma syscall_open [frame]: "syscall fs = (r, fs1) \<Longrightarrow> fs_open fs1 = fs_open fs"
  by (auto simp: syscall_def split: list.splits)

lemma Close_open [frame]: "Close fs = (r, fs1) \<Longrightarrow> fs_open fs1 = fs_open fs - 1"
  by (auto simp: Close_def dest: syscall_open split: prod.splits)

lemma OpenFile_open [frame]: "OpenFile cr path fs = (r, fs1) \<Longrightarrow> fs_open fs1 = fs_open fs + (if r = None then 1 else 0)"
  by (auto simp: OpenFile_def dest: syscall_open split: prod.splits option.splits if_splits)

lemma Truncate_open [frame]: "Truncate path n fs = (r, fs1) \<Longrightarrow> fs_open fs1 = fs_open fs"
  by (auto simp: Truncate_def dest: syscall_open split: prod.splits option.splits)

lemma WriteAt_open: "WriteAt path buf off fs = (r, fs1) \<Longrightarrow> fs_open fs1 = fs_open fs"
  by (auto simp: WriteAt_def dest: syscall_open split: prod.splits option.splits if_splits)

lemma write_pages_open [frame]: "write_pages path sz off fs = (r, fs1) \<Longrightarrow> fs_open fs1 = fs_open fs"
proof (induction path sz off fs rule: write_pages.induct)
  case (1 path sz off fs)
  then show ?case
    by (subst (asm) write_pages.simps)
      (auto dest: WriteAt_open split: if_splits prod.splits option.splits)
qed

lemma EnsureFile_open: "EnsureFile s fs = (r, fs1) \<Longrightarrow> fs_open fs1 = fs_open fs"
  by (auto simp: EnsureFile_def MkdirAll_def Let_def dest!: frame split: prod.splits option.splits if_splits)

lemma give_up_open: "give_up e s fs = ((r, s1), fs1) \<Longrightarrow> s1 = s \<and> fs_open fs1 = fs_open fs - 1"
  by (auto simp: give_up_def dest!: Close_open split: prod.splits option.splits)

lemma Map_inv: "st_inv base (s, fs) \<Longrightarrow> Map s fs = ((r, s1), fs1) \<Longrightarrow> st_inv base (s1, fs1)"
  by (auto simp: Map_def st_inv_def dest!: frame give_up_open split: prod.splits option.splits if_splits)

lemma Unmap_inv: "st_inv base (s, fs) \<Longrightarrow> Unmap s fs = ((r, s1), fs1) \<Longrightarrow>
    st_inv base (s1, fs1) \<and> \<not> ms_file s1 \<and> ms_data s1 = None"
  by (auto simp: Unmap_def st_inv_def Let_def dest!: frame split: prod.splits option.splits if_splits)

lemma st_inv_step: "st_inv base st \<Longrightarrow> st_inv base (st_step op st)"
proof -
  assume inv: "st_inv base st"
  obtain s fs where st: "st = (s, fs)" by (cases st)
  show ?thesis
  proof (cases op)
    case OpEnsure
    obtain r fs1 where "EnsureFile s fs = (r, fs1)" by (cases "EnsureFile s fs")
    then show ?thesis using inv EnsureFile_open by (simp add: st OpEnsure st_inv_def)
  next
    case OpMap
    obtain r s1 fs1 where "Map s fs = ((r, s1), fs1)" by (metis surj_pair)
    then show ?thesis using inv Map_inv [of base s fs r s1 fs1] by (simp add: st OpMap)
  next
    case OpUnmap
    obtain r s1 fs1 where "Unmap s fs = ((r, s1), fs1)" by (metis surj_pair)
    then show ?thesis using inv Unmap_inv [of base s fs r s1 fs1] by (simp add: st OpUnmap)
  next
    case OpRemap
    obtain r s1 fs1 where u: "Unmap s fs = ((r, s1), fs1)" by (metis surj_pair)
    then have inv1: "st_inv base (s1, fs1)"
      using inv Unmap_inv [of base s fs r s1 fs1] by (simp add: st)
    obtain q s2 fs2 where m: "Map s1 fs1 = ((q, s2), fs2)" by (metis surj_pair)
    show ?thesis
      using inv1 Map_inv [OF inv1 m] by (cases r) (simp_all add: st OpRemap Remap_def u m)
  qed
qed

interpretation mmap_store: step_invariant st_step "st_inv base"
  by unfold_locales (rule st_inv_step)

text \<open>
  C26: no descriptor leaks: after any sequence of \<open>EnsureFile\<close>, \<open>Map\<close>, \<open>Unmap\<close> and \<open>Remap\<close> on a new store, with any
  of their system calls failing, the process holds one descriptor more than at the beginning when the
  store is mapped and otherwise as many; and an \<open>Unmap\<close>, even a failing one, gives it back.
\<close>

theorem store_no_leak:
  "\<exists>s1 fs1 r s2 fs2. fold st_step ops (ms_New path sz, fs) = (s1, fs1) \<and>
    fs_open fs1 = fs_open fs + (if ms_data s1 \<noteq> None then 1 else 0) \<and>
    Unmap s1 fs1 = ((r, s2), fs2) \<and> ms_data s2 = None \<and> fs_open fs2 = fs_open fs"
proof -
  obtain s1 fs1 where run: "fold st_step ops (ms_New path sz, fs) = (s1, fs1)"
    by (cases "fold st_step ops (ms_New path sz, fs)")
  have "st_inv (fs_open fs) (s1, fs1)"
    unfolding run [symmetric] by (rule mmap_store.run_good) (simp add: st_inv_def ms_New_def)
  moreover obtain r s2 fs2 where un: "Unmap s1 fs1 = ((r, s2), fs2)"
    by (metis surj_pair)
  ultimately show ?thesis
    using Unmap_inv [of "fs_open fs" s1 fs1 r s2 fs2] run by (auto simp: st_inv_def)
qed

section \<open>Page indices out of range\<close>

lemma read_pages_panic: "0 < len \<Longrightarrow> read_pages len ids = Inl p \<longleftrightarrow> p = PanicIndex \<and> list_ex (\<lambda>i. page_offset i < 0) ids"
  by (induction ids) (auto simp: read_byte_def res_bind_Inl_iff)

lemma page_latencies_panic:
  "0 < len \<Longrightarrow> page_latencies lat k len ids = Inl p \<longleftrightarrow> p = PanicIndex \<and> list_ex (\<lambda>i. page_offset i < 0) ids"
  by (induction ids arbitrary: k) (auto simp: read_byte_def res_bind_Inl_iff)

lemma page_latencies_length: "page_latencies lat k len ids = Inr ls \<Longrightarrow> length ls = length ids"
  by (induction ids arbitrary: k ls) (auto simp: res_bind_Inr_iff split: if_splits)

text \<open>
  The reads at given indices clamp a negative index and skip one beyond the mapping, but the product
  of an index and the page size is a 64-bit one: they panic exactly when it comes out negative, which
  happens for no index below \<open>2\<^sup>5\<^sup>1\<close> and for that one. Otherwise there is one latency for each index.
\<close>

theorem measure_panics_iff:
  "(MeasureReadDurationAt d ids (s\<lparr>ms_data := Some (int (Suc l))\<rparr>) = Inl PanicIndex \<longleftrightarrow>
      list_ex (\<lambda>i. page_offset i < 0) ids) \<and>
   (case MeasureReadLatenciesAt lat ids (s\<lparr>ms_data := Some (int (Suc l))\<rparr>) of
      Inl p \<Rightarrow> p = PanicIndex \<and> list_ex (\<lambda>i. page_offset i < 0) ids
    | Inr ls \<Rightarrow> length ls = length ids \<and> \<not> list_ex (\<lambda>i. page_offset i < 0) ids) \<and>
   page_offset (min i (2 ^ 51 - 1)) = max 0 (min i (2 ^ 51 - 1)) * 4096 \<and> page_offset (2 ^ 51) < 0"
proof -
  have len: "0 < int (Suc l)" by simp
  have "MeasureReadLatenciesAt lat ids (s\<lparr>ms_data := Some (int (Suc l))\<rparr>) = page_latencies lat 0 (int (Suc l)) ids"
    by (cases ids) (simp_all add: MeasureReadLatenciesAt_def)
  moreover have "page_offset (min i (2 ^ 51 - 1)) = max 0 (min i (2 ^ 51 - 1)) * 4096"
  proof (cases "i < 0")
    case True
    then show ?thesis by (simp add: page_offset_def pageSizeBytes_def wrap64_def)
  next
    case False
    then show ?thesis using page_offset_small [of "min i (2 ^ 51 - 1)"] by simp
  qed
  moreover have "page_offset (2 ^ 51) < 0"
    by (simp add: page_offset_def pageSizeBytes_def wrap64_def)
  moreover have "MeasureReadDurationAt d ids (s\<lparr>ms_data := Some (int (Suc l))\<rparr>) = Inl PanicIndex \<longleftrightarrow>
      list_ex (\<lambda>i. page_offset i < 0) ids"
  proof (cases "ids = []")
    case True
    then show ?thesis by (simp add: MeasureReadDurationAt_def)
  next
    case False
    then have "MeasureReadDurationAt d ids (s\<lparr>ms_data := Some (int (Suc l))\<rparr>) =
        res_bind (read_pages (int (Suc l)) ids) (\<lambda>os. Inr (d, os))"
      by (simp add: MeasureReadDurationAt_def)
    then show ?thesis using read_pages_panic [OF len, of ids PanicIndex]
      by (cases "read_pages (int (Suc l)) ids") simp_all
  qed
  moreover have "case page_latencies lat 0 (int (Suc l)) ids of
      Inl p \<Rightarrow> p = PanicIndex \<and> list_ex (\<lambda>i. page_offset i < 0) ids
    | Inr ls \<Rightarrow> length ls = length ids \<and> \<not> list_ex (\<lambda>i. page_offset i < 0) ids"
  proof (cases "page_latencies lat 0 (int (Suc l)) ids")
    case (Inl p)
    then show ?thesis using page_latencies_panic [OF len, of lat 0 ids p] by simp
  next
    case (Inr ls)
    then show ?thesis
      using page_latencies_panic [OF len, of lat 0 ids PanicIndex] page_latencies_length [OF Inr] by simp
  qed
  ultimately show ?thesis by simp
qed

end
