(* ===== verification/Spec2Isabelle.thy ===== *)
theory Spec2Isabelle
  imports World ServerMain MmapStore
begin

text \<open>
  Verification of a system that warms up service instances with mirrored traffic.

  The program. An instance (LoadedService) serves a workload over HTTP. One that starts in the role
  \<open>warmup\<close> carries an engine (warmkit) that takes it through the states \<open>Starting\<close>, \<open>Registered\<close>,
  \<open>Warming\<close>, \<open>Ready\<close> and \<open>Active\<close>, or to \<open>Failed\<close>: it registers itself in ZooKeeper, counts the shadow
  requests that reach it, answers its readiness probe with 200 once enough of them came, and keeps its
  record in ZooKeeper up to date. The coordinator (cmd/warmup-coordinator) holds sessions; each runs a ramp
  that raises the mirrored share of traffic in the mirror configuration in ZooKeeper, until the session
  is completed and the instance promoted. The proxy (cmd/mirror-proxy) follows that configuration and
  the instances' records: it sends every request to the active instance and mirrors GET requests, marked
  as shadow traffic, to the instance that warms up. The services meet only in ZooKeeper and over HTTP.

  Theories and sources.
  Prelude, GoInt, Float64, GoSort, GoStrings and GoParse hold what the code uses of Go: results and
  panics, 64-bit integers with wrap-around, binary64 arithmetic with rounding to nearest even (without
  the sign of zero), strings as bytes, \<open>strconv\<close>, \<open>fmt.Sscan\<close> and query strings. Http holds requests
  and responses.
  Fsm is warmkit/types.go and warmkit/fsm.go: the automaton and the window of latencies with its P95.
  Registry is the interface and the in-memory registry of warmkit/registry.go, and the contract of a registry
  as the locale \<open>registry_contract\<close>; ZkRegistry is the ZooKeeper registry, and Watch the two goroutines
  that follow the mirror node with one-shot watches, as step machines beside writers and failures.
  Engine is warmkit/engine.go with every handler as one step; EngineConc has the same handlers as threads of
  atomic actions, and the relation \<open>conc_step\<close> for their interleavings.
  Workload, HttpServer, Settings, ServerMain and MmapStore are
  LoadedService/internal/workload/engine.go, internal/httpserver/server.go, internal/config/config.go
  (with internal/pprofserver), cmd/server/main.go and internal/mmapstore/store.go; Envcfg is
  internal/envcfg.
  Coordinator is cmd/warmup-coordinator/main.go: sessions on a heap, the handlers and routes, and the ramp as
  a machine of ten program points that runs beside other clients of the store.
  Proxy is cmd/mirror-proxy/main.go: configuration, the goroutine that keeps the instance table, the
  handler and the mirrored request.
  Records have the code's fields, functions the code's names (with a prefix where a name is taken), and
  a fallible function returns \<open>Inl\<close> its error; a panic is an error of its own kind.

  What the lemmas show.
  Of the whole system, in World, WarmUp and System: a warm-up is safe in every interleaving of its parts
  (World, an inductive step relation over one store, with an invariant); it works from end to end
  (WarmUp, one run of all parts in their order); the coordinator's view of an instance agrees with the
  instance's own probe, and a completion switches all traffic (System).
  Of the engine: readiness is neither early nor lost, run to completion (Engine) and under every
  interleaving (EngineConc), where a handler that runs alone is shown to be the one of Engine; progress,
  the life cycle, and the record in the registry, with the interleaving in which the record is left
  behind. ServerProps has the same for the HTTP server around it, with panics, and shows what shadow
  requests can change.
  Of the coordinator: the ramp terminates and writes what it should; completion, its race with the ramp,
  and its failure; an invariant of all sessions under all histories.
  Of the proxy, in Proxy and Mirroring: the table of instances is current; where a request goes and which
  are mirrored; the mirrored share is the configured ratio; mirrored requests warm the instance.
  Of the registries: what is written is read back; watches deliver changes in order and do not miss the
  last one for good, while the proxy's can.
  Of the rest: P95, the index, profiles, settings and environment readers as round trips, roles at the
  start of a process, and that the memory-mapped store leaks no descriptor.

  Interfaces. \<open>step_invariant\<close> and \<open>counted_invariant\<close> (Prelude) are the contract of a step function with
  an invariant, interpreted for the watches, the engine, the workload, the server, the sessions and the
  store; \<open>registry_contract\<close> is interpreted for the in-memory registry and, for every reliable session,
  proved of the ZooKeeper registry; \<open>sorter\<close> (GoSort) relates the exchange sort of the code to \<open>sort\<close>.

  Parameters and hypotheses. Code that is not part of the repository is an argument. The ZooKeeper client
  is \<open>zk_conn\<close>; \<open>zk_reliable\<close> states what a connected session does: calls see one tree of nodes, create
  once and under a persistent parent, and check versions. \<open>codec_ok\<close> states that JSON reads back what it
  wrote, for ASCII strings and binary64 numbers, and refuses numbers that are not finite. \<open>tree_conn\<close> and
  \<open>plain_codec\<close> satisfy both and are used by the witnesses. The random sources, the clock, the
  reverse proxy (\<open>forward\<close>), URLs of an unusual form (\<open>url_lib\<close>), floats of an unusual form (hexadecimal,
  infinite and NaN literals) and the file system's failures are arguments as well.

  Bounds. Counters are compared below \<open>2\<^sup>6\<^sup>2\<close> or \<open>2\<^sup>6\<^sup>3\<close> requests, which no process reaches; times below the
  range of 64 bits. The ramp needs at most \<open>ramp_bound\<close> actions, ten for each nanosecond of the longest
  hold and two for each step: every action of the hold loop that does not end it is followed by a sleep
  of at least a nanosecond. The other loops are structural or have a measure.

  Not modelled. Logging; the goroutines that listen and the handling of signals; the transport of bytes
  (headers and encodings of responses, partial reads and writes); the redirects of \<open>http.ServeMux\<close> for
  paths that are not clean; the profiles behind internal/pprofserver; sleeping as more than the
  passing of time; the order of ZooKeeper's events between different nodes. The package tree benchmark is a
  driver of experiments (load in real time, Docker, files, plots) and is left out, as are the scripts
  and figures.
\<close>

end
